(* ===== verification/Py_Prelude.thy ===== *)
theory Py_Prelude
  imports Py_Strings
begin

text \<open>
  What every component shares: results of fallible code, insertion-ordered dictionaries,
  and two interfaces as locales.  \<open>keyed_store\<close> is the contract of a mutable mapping
  (\<open>d[k] = v\<close>, \<open>d[k]\<close>, \<open>del d[k]\<close>) over keys compared up to a normalisation;
  it is interpreted here on the dictionaries, in \<open>Structures\<close> on
  \<open>CaseInsensitiveDict\<close> and on \<open>Headers\<close>.  \<open>safe_machine\<close> is the contract of a component driven by a sequence of
  inputs: an invariant that holds at the start and that every step keeps.
\<close>

named_theorems wf_intros "well-formedness of the state after an operation"

section \<open>Results\<close>

text \<open>A call that may raise returns \<open>Inl\<close> the exception or \<open>Inr\<close> its value.\<close>

definition bind_res :: "'e + 'a \<Rightarrow> ('a \<Rightarrow> 'e + 'b) \<Rightarrow> 'e + 'b" where
  "bind_res r f = (case r of Inl e \<Rightarrow> Inl e | Inr x \<Rightarrow> f x)"

lemma bind_res_simps [simp]:
  "bind_res (Inl e) f = Inl e" "bind_res (Inr x) f = f x"
  by (simp_all add: bind_res_def)

lemma bind_res_Inr: "bind_res r f = Inr y \<longleftrightarrow> (\<exists>x. r = Inr x \<and> f x = Inr y)"
  by (cases r) auto

lemma bind_res_Inl: "bind_res r f = Inl e \<longleftrightarrow> r = Inl e \<or> (\<exists>x. r = Inr x \<and> f x = Inl e)"
  by (cases r) auto

primrec map_res :: "('a \<Rightarrow> 'e + 'b) \<Rightarrow> 'a list \<Rightarrow> 'e + 'b list" where
  "map_res f [] = Inr []"
| "map_res f (x # xs) = bind_res (f x) (\<lambda>y. bind_res (map_res f xs) (\<lambda>ys. Inr (y # ys)))"

lemma map_res_Inr: "map_res f xs = Inr ys \<longleftrightarrow> list_all2 (\<lambda>x y. f x = Inr y) xs ys"
  by (induction xs arbitrary: ys) (auto simp: bind_res_Inr list_all2_Cons1)

lemma map_res_append:
  "map_res f (xs @ ys) = bind_res (map_res f xs) (\<lambda>us. bind_res (map_res f ys) (\<lambda>vs. Inr (us @ vs)))"
  by (induction xs) (auto simp: bind_res_def split: sum.splits)

section \<open>The interface of a mapping\<close>

locale keyed_store =
  fixes lookup :: "'m \<Rightarrow> 'k \<Rightarrow> 'v option"
    and put :: "'k \<Rightarrow> 'v \<Rightarrow> 'm \<Rightarrow> 'm"
    and remove :: "'k \<Rightarrow> 'm \<Rightarrow> 'm"
    and norm :: "'k \<Rightarrow> 'n"
    and wf :: "'m \<Rightarrow> bool"
  assumes lookup_norm: "norm j = norm k \<Longrightarrow> lookup m j = lookup m k"
    and lookup_put: "wf m \<Longrightarrow> lookup (put k v m) j = (if norm j = norm k then Some v else lookup m j)"
    and lookup_remove: "wf m \<Longrightarrow> lookup (remove k m) j = (if norm j = norm k then None else lookup m j)"
    and wf_put: "wf m \<Longrightarrow> wf (put k v m)"
    and wf_remove: "wf m \<Longrightarrow> wf (remove k m)"
begin

text \<open>\<open>update\<close> with a sequence of pairs stores them one after the other.\<close>

definition put_all :: "('k \<times> 'v) list \<Rightarrow> 'm \<Rightarrow> 'm" where
  "put_all ps m = fold (\<lambda>(k, v). put k v) ps m"

lemma wf_put_all: "wf m \<Longrightarrow> wf (put_all ps m)"
  by (induction ps arbitrary: m) (auto simp: put_all_def wf_put)

lemma put_all_Cons [simp]: "put_all ((k, v) # ps) m = put_all ps (put k v m)"
  by (simp add: put_all_def)

lemma put_all_Nil [simp]: "put_all [] m = m"
  by (simp add: put_all_def)

lemma lookup_put_all:
  "wf m \<Longrightarrow> lookup (put_all ps m) j =
     (case map_of (rev (map (\<lambda>(k, v). (norm k, v)) ps)) (norm j) of
        Some v \<Rightarrow> Some v | None \<Rightarrow> lookup m j)"
proof (induction ps arbitrary: m)
  case (Cons p ps)
  obtain k v where p: "p = (k, v)" by (cases p)
  show ?case
    using Cons.IH [of "put k v m"] Cons.prems
    by (auto simp: p lookup_put wf_put map_add_def split: option.splits)
qed simp

lemma lookup_put_all_notin:
  "wf m \<Longrightarrow> norm j \<notin> (norm \<circ> fst) ` set ps \<Longrightarrow> lookup (put_all ps m) j = lookup m j"
proof (induction ps arbitrary: m)
  case (Cons p ps)
  then show ?case by (cases p) (auto simp: lookup_put wf_put)
qed simp

lemma lookup_put_put: "wf m \<Longrightarrow> lookup (put k w (put k v m)) j = lookup (put k w m) j"
  by (simp add: lookup_put wf_put)

lemma lookup_put_same: "wf m \<Longrightarrow> lookup (put k v m) k = Some v"
  by (simp add: lookup_put)

lemma lookup_remove_put: "wf m \<Longrightarrow> lookup (remove k (put k v m)) j = lookup (remove k m) j"
  by (simp add: lookup_remove lookup_put wf_put)

lemma put_commute: "wf m \<Longrightarrow> norm i \<noteq> norm k \<Longrightarrow>
   lookup (put k v (put i u m)) j = lookup (put i u (put k v m)) j"
  by (auto simp: lookup_put wf_put)

end

text \<open>A mapping that also lists its keys, each key once.\<close>

locale listed_store = keyed_store lookup put remove norm wf
  for lookup :: "'m \<Rightarrow> 'k \<Rightarrow> 'v option"
    and put :: "'k \<Rightarrow> 'v \<Rightarrow> 'm \<Rightarrow> 'm"
    and remove :: "'k \<Rightarrow> 'm \<Rightarrow> 'm"
    and norm :: "'k \<Rightarrow> 'n"
    and wf :: "'m \<Rightarrow> bool" +
  fixes keys :: "'m \<Rightarrow> 'k list"
  assumes keys_lookup: "wf m \<Longrightarrow> norm k \<in> norm ` set (keys m) \<longleftrightarrow> lookup m k \<noteq> None"
    and keys_distinct: "wf m \<Longrightarrow> distinct (map norm (keys m))"
begin

lemma norm_keys_put: "wf m \<Longrightarrow> norm ` set (keys (put k v m)) = insert (norm k) (norm ` set (keys m))"
proof -
  assume wf: "wf m"
  have "n \<in> norm ` set (keys (put k v m)) \<longleftrightarrow> n \<in> insert (norm k) (norm ` set (keys m))" for n
  proof (cases "n \<in> range norm")
    case True
    then obtain j where "n = norm j" by blast
    with wf show ?thesis by (simp add: keys_lookup lookup_put wf_put)
  qed auto
  then show ?thesis by blast
qed

lemma card_norm_keys: "wf m \<Longrightarrow> card (norm ` set (keys m)) = length (keys m)"
  using distinct_card [OF keys_distinct] by fastforce

lemma length_keys_put:
  "wf m \<Longrightarrow> length (keys (put k v m)) = (if lookup m k = None then Suc (length (keys m)) else length (keys m))"
proof -
  assume wf: "wf m"
  have "length (keys (put k v m)) = card (insert (norm k) (norm ` set (keys m)))"
    using wf by (simp add: card_norm_keys [symmetric] wf_put norm_keys_put)
  also have "\<dots> = (if norm k \<in> norm ` set (keys m) then length (keys m) else Suc (length (keys m)))"
    using wf by (simp add: card_insert_if card_norm_keys)
  finally show ?thesis using wf by (simp add: keys_lookup)
qed

end

section \<open>Insertion-ordered dictionaries\<close>

text \<open>
  A \<open>dict\<close> or an \<open>OrderedDict\<close> is an association list with distinct keys, in
  insertion order.  Storing under a present key keeps its position
  (\<^const>\<open>AList.update\<close>), a new key goes to the end.
\<close>

type_synonym ('k, 'v) odict = "('k \<times> 'v) list"

definition od_wf :: "('k, 'v) odict \<Rightarrow> bool" where
  "od_wf m \<longleftrightarrow> distinct (map fst m)"

definition od_get :: "('k, 'v) odict \<Rightarrow> 'k \<Rightarrow> 'v option" where
  "od_get m k = map_of m k"

definition od_put :: "'k \<Rightarrow> 'v \<Rightarrow> ('k, 'v) odict \<Rightarrow> ('k, 'v) odict" where
  "od_put k v m = AList.update k v m"

definition od_del :: "'k \<Rightarrow> ('k, 'v) odict \<Rightarrow> ('k, 'v) odict" where
  "od_del k m = AList.delete k m"

definition od_keys :: "('k, 'v) odict \<Rightarrow> 'k list" where
  "od_keys m = map fst m"

definition od_has :: "('k, 'v) odict \<Rightarrow> 'k \<Rightarrow> bool" where
  "od_has m k \<longleftrightarrow> od_get m k \<noteq> None"

text \<open>\<open>d.setdefault(k, v)\<close>\<close>

definition od_setdefault :: "'k \<Rightarrow> 'v \<Rightarrow> ('k, 'v) odict \<Rightarrow> ('k, 'v) odict" where
  "od_setdefault k v m = (if od_has m k then m else od_put k v m)"

text \<open>\<open>d.update(pairs)\<close> and \<open>dict(pairs)\<close>\<close>

definition od_update :: "('k, 'v) odict \<Rightarrow> ('k \<times> 'v) list \<Rightarrow> ('k, 'v) odict" where
  "od_update m ps = fold (\<lambda>(k, v). od_put k v) ps m"

definition od_of :: "('k \<times> 'v) list \<Rightarrow> ('k, 'v) odict" where
  "od_of ps = od_update [] ps"

lemma od_get_put: "od_get (od_put k v m) j = (if j = k then Some v else od_get m j)"
  by (simp add: od_get_def od_put_def update_conv')

lemma od_get_del: "od_get (od_del k m) j = (if j = k then None else od_get m j)"
  by (simp add: od_get_def od_del_def delete_conv')

lemma od_wf_put [wf_intros]: "od_wf m \<Longrightarrow> od_wf (od_put k v m)"
  by (simp add: od_wf_def od_put_def distinct_update)

lemma od_wf_del [wf_intros]: "od_wf m \<Longrightarrow> od_wf (od_del k m)"
  by (simp add: od_wf_def od_del_def distinct_delete)

lemma od_wf_Nil [simp]: "od_wf []" by (simp add: od_wf_def)

lemma od_get_Nil [simp]: "od_get [] k = None" by (simp add: od_get_def)

lemma od_keys_get: "k \<in> set (od_keys m) \<longleftrightarrow> od_get m k \<noteq> None"
  by (force simp: od_keys_def od_get_def map_of_eq_None_iff)

interpretation od: listed_store od_get od_put od_del "\<lambda>k. k" od_wf od_keys
proof unfold_locales
  show "od_wf m \<Longrightarrow> k \<in> (\<lambda>k. k) ` set (od_keys m) \<longleftrightarrow> od_get m k \<noteq> None"
    for m :: "('a, 'b) odict" and k
    by (simp add: od_keys_get)
qed (auto simp: od_get_put od_get_del od_wf_put od_wf_del, auto simp: od_wf_def od_keys_def)

lemma od_update_put_all: "od_update m ps = od.put_all ps m"
  by (simp add: od_update_def od.put_all_def)

lemma od_wf_update [wf_intros]: "od_wf m \<Longrightarrow> od_wf (od_update m ps)"
  by (simp add: od_update_put_all od.wf_put_all)

lemma od_wf_of [wf_intros]: "od_wf (od_of ps)"
  by (simp add: od_of_def od_wf_update)

lemma od_put_keys: "od_keys (od_put k v m) = (if od_has m k then od_keys m else od_keys m @ [k])"
  by (induction m) (auto simp: od_keys_def od_put_def od_has_def od_get_def)

lemma map_of_rev_distinct: "distinct (map fst m) \<Longrightarrow> map_of (rev m) = map_of m"
  by (subst map_of_inject_set) (auto simp: rev_map [symmetric])

lemma od_del_filter: "od_del k m = filter (\<lambda>p. fst p \<noteq> k) m"
  by (simp add: od_del_def AList.delete_eq) (rule filter_cong, auto)

text \<open>A dictionary all of whose entries satisfy a predicate on key and value.\<close>

definition od_all :: "('k \<Rightarrow> 'v \<Rightarrow> bool) \<Rightarrow> ('k, 'v) odict \<Rightarrow> bool" where
  "od_all P m \<longleftrightarrow> od_wf m \<and> (\<forall>(k, v) \<in> set m. P k v)"

lemma od_all_Nil [simp]: "od_all P []"
  by (simp add: od_all_def)

lemma od_all_get: "od_all P m \<Longrightarrow> od_get m k = Some v \<Longrightarrow> P k v"
  by (auto simp: od_all_def od_get_def dest: map_of_SomeD)

lemma od_mem_get: "od_wf m \<Longrightarrow> (k, v) \<in> set m \<longleftrightarrow> od_get m k = Some v"
  by (simp add: od_wf_def od_get_def)

lemma od_all_put [wf_intros]: "od_all P m \<Longrightarrow> P k v \<Longrightarrow> od_all P (od_put k v m)"
  by (auto simp: od_all_def od_wf_put od_mem_get od_get_put split: if_splits)

lemma od_all_del [wf_intros]: "od_all P m \<Longrightarrow> od_all P (od_del k m)"
  by (auto simp: od_all_def od_wf_del od_mem_get od_get_del split: if_splits)

section \<open>Components driven by a sequence of inputs\<close>

locale safe_machine =
  fixes step :: "'i \<Rightarrow> 's \<Rightarrow> 's"
    and inv :: "'s \<Rightarrow> bool"
  assumes inv_step: "inv s \<Longrightarrow> inv (step i s)"
begin

definition run :: "'i list \<Rightarrow> 's \<Rightarrow> 's" where
  "run xs s = fold step xs s"

lemma run_Nil [simp]: "run [] s = s"
  by (simp add: run_def)

lemma run_Cons [simp]: "run (i # xs) s = run xs (step i s)"
  by (simp add: run_def)

lemma run_append: "run (xs @ ys) s = run ys (run xs s)"
  by (simp add: run_def)

lemma inv_run: "inv s \<Longrightarrow> inv (run xs s)"
  by (induction xs arbitrary: s) (auto simp: inv_step)

text \<open>A fact that no step undoes, once it holds, holds from then on.\<close>

lemma stable_run:
  assumes "\<And>i s. inv s \<Longrightarrow> P s \<Longrightarrow> P (step i s)"
  shows "inv s \<Longrightarrow> P s \<Longrightarrow> P (run xs s)"
  using assms by (induction xs arbitrary: s) (auto simp: inv_step)

lemma value_run:
  assumes "\<And>i s. inv s \<Longrightarrow> f (step i s) = f s"
  shows "inv s \<Longrightarrow> f (run xs s) = f s"
  using assms by (induction xs arbitrary: s) (auto simp: inv_step)

end

end
