(* ===== verification/Structures.thy ===== *)
theory Structures
  imports Py_Prelude
begin

text \<open>
  \<open>bindings/python/chrome_client/_python_impl/structures.py\<close>: the case-insensitive
  mappings.  \<open>CaseInsensitiveDict\<close> is an ordered dictionary from the lowered key to the
  pair of the key as last written and the value.  \<open>Headers\<close> adds a list of fields
  \<open>(lowered, name, value)\<close> that keeps duplicates; its \<open>_store\<close> is a summary of that
  list which every operation refreshes.
\<close>

section \<open>Text arguments\<close>

text \<open>
  The values a caller may store: \<open>None\<close>, a string, or an integer.  \<open>_text\<close> turns each
  of them into a string (\<open>str(None)\<close> is \<open>None\<close> spelled out).
\<close>

datatype pyval = PyNone | PyStr string | PyInt int

definition text_of :: "pyval \<Rightarrow> string" where
  "text_of v = (case v of PyNone \<Rightarrow> ''None'' | PyStr s \<Rightarrow> s | PyInt i \<Rightarrow> show_int i)"

definition key_of :: "string \<Rightarrow> string" where
  "key_of s = py_lower s"

lemma text_of_simps [simp]:
  "text_of PyNone = ''None''" "text_of (PyStr s) = s" "text_of (PyInt i) = show_int i"
  by (simp_all add: text_of_def)

lemma key_of_idem [simp]: "key_of (key_of s) = key_of s"
  by (simp add: key_of_def)

datatype 'k map_error = KeyError 'k

section \<open>CaseInsensitiveDict\<close>

type_synonym 'v cid = "(string, string \<times> 'v) odict"

definition cid_wf :: "'v cid \<Rightarrow> bool" where
  "cid_wf m \<longleftrightarrow> od_wf m \<and> (\<forall>(k, n, v) \<in> set m. k = key_of n)"

definition cid_setitem :: "string \<Rightarrow> 'v \<Rightarrow> 'v cid \<Rightarrow> 'v cid" where
  "cid_setitem k v m = od_put (key_of k) (k, v) m"

definition cid_get :: "'v cid \<Rightarrow> string \<Rightarrow> 'v option" where
  "cid_get m k = map_option snd (od_get m (key_of k))"

definition cid_getitem :: "'v cid \<Rightarrow> string \<Rightarrow> string map_error + 'v" where
  "cid_getitem m k = (case cid_get m k of None \<Rightarrow> Inl (KeyError (key_of k)) | Some v \<Rightarrow> Inr v)"

definition cid_remove :: "string \<Rightarrow> 'v cid \<Rightarrow> 'v cid" where
  "cid_remove k m = od_del (key_of k) m"

definition cid_delitem :: "string \<Rightarrow> 'v cid \<Rightarrow> string map_error + 'v cid" where
  "cid_delitem k m =
     (if od_has m (key_of k) then Inr (cid_remove k m) else Inl (KeyError (key_of k)))"

definition cid_iter :: "'v cid \<Rightarrow> string list" where
  "cid_iter m = map (\<lambda>(k, n, v). n) m"

definition cid_len :: "'v cid \<Rightarrow> nat" where
  "cid_len m = length m"

definition cid_items :: "'v cid \<Rightarrow> (string \<times> 'v) list" where
  "cid_items m = map snd m"

definition cid_lower_items :: "'v cid \<Rightarrow> (string \<times> 'v) list" where
  "cid_lower_items m = map (\<lambda>(k, n, v). (k, v)) m"

definition cid_update :: "'v cid \<Rightarrow> (string \<times> 'v) list \<Rightarrow> 'v cid" where
  "cid_update m ps = fold (\<lambda>(k, v). cid_setitem k v) ps m"

definition cid_init :: "(string \<times> 'v) list \<Rightarrow> 'v cid" where
  "cid_init ps = cid_update [] ps"

definition cid_copy :: "'v cid \<Rightarrow> 'v cid" where
  "cid_copy m = cid_init (cid_items m)"

text \<open>\<open>dict(a) == dict(b)\<close>, where the pairs may come in different orders.\<close>

definition dict_eq :: "('k \<times> 'v) list \<Rightarrow> ('k \<times> 'v) list \<Rightarrow> bool" where
  "dict_eq a b \<longleftrightarrow>
     (\<forall>k \<in> fst ` set a. map_of (rev b) k = map_of (rev a) k) \<and>
     (\<forall>k \<in> fst ` set b. map_of (rev a) k = map_of (rev b) k)"

definition cid_eq :: "'v cid \<Rightarrow> (string \<times> 'v) list \<Rightarrow> bool" where
  "cid_eq m other = dict_eq (cid_lower_items m) (cid_lower_items (cid_init other))"

lemma cid_get_setitem: "cid_get (cid_setitem k v m) j = (if key_of j = key_of k then Some v else cid_get m j)"
  by (simp add: cid_get_def cid_setitem_def od_get_put)

lemma cid_get_remove: "cid_get (cid_remove k m) j = (if key_of j = key_of k then None else cid_get m j)"
  by (simp add: cid_get_def cid_remove_def od_get_del)

lemma set_od_put: "set (od_put k v m) \<subseteq> insert (k, v) (set m)"
  by (induction m) (auto simp: od_put_def)

lemma cid_wf_setitem [wf_intros]: "cid_wf m \<Longrightarrow> cid_wf (cid_setitem k v m)"
  using set_od_put [of "key_of k" "(k, v)" m]
  by (fastforce simp: cid_wf_def cid_setitem_def od_wf_put)

lemma cid_wf_remove [wf_intros]: "cid_wf m \<Longrightarrow> cid_wf (cid_remove k m)"
  by (auto simp: cid_wf_def cid_remove_def od_wf_del) (auto simp: od_del_filter)

lemma cid_wf_Nil [simp]: "cid_wf []" by (simp add: cid_wf_def)

lemma cid_keys_lower: "cid_wf m \<Longrightarrow> map key_of (cid_iter m) = od_keys m"
  by (auto simp: cid_wf_def cid_iter_def od_keys_def)

interpretation cid: listed_store cid_get cid_setitem cid_remove key_of cid_wf cid_iter
proof unfold_locales
  show "cid_wf m \<Longrightarrow> key_of k \<in> key_of ` set (cid_iter m) \<longleftrightarrow> cid_get m k \<noteq> None"
    for m :: "'a cid" and k
    using cid_keys_lower [of m]
    by (simp add: set_map [symmetric] od_keys_get cid_get_def del: set_map)
  show "cid_wf m \<Longrightarrow> distinct (map key_of (cid_iter m))" for m :: "'a cid"
    using cid_keys_lower [of m] by (simp add: cid_wf_def od_keys_def od_wf_def)
  show "key_of j = key_of k \<Longrightarrow> cid_get m j = cid_get m k" for m :: "'a cid" and j k
    by (simp add: cid_get_def)
qed (auto simp: cid_get_setitem cid_get_remove cid_wf_setitem cid_wf_remove)

lemma cid_update_put_all: "cid_update m ps = cid.put_all ps m"
  by (simp add: cid_update_def cid.put_all_def)

lemma cid_wf_update [wf_intros]: "cid_wf m \<Longrightarrow> cid_wf (cid_update m ps)"
  by (simp add: cid_update_put_all cid.wf_put_all)

text \<open>A copy rebuilds the same table, key spellings and order included.\<close>

lemma od_put_new: "k \<notin> fst ` set m \<Longrightarrow> od_put k v m = m @ [(k, v)]"
  by (induction m) (auto simp: od_put_def)

lemma cid_update_fresh:
  "cid_wf (m @ m') \<Longrightarrow> cid_update m (cid_items m') = m @ m'"
proof (induction m' arbitrary: m)
  case (Cons e m')
  obtain k n v where e: "e = (k, n, v)" by (cases e)
  have k: "k = key_of n" "k \<notin> fst ` set m"
    using Cons.prems by (auto simp: cid_wf_def od_wf_def e)
  then have "cid_setitem n v m = m @ [e]"
    by (simp add: cid_setitem_def od_put_new e)
  with Cons show ?case by (simp add: cid_items_def cid_update_def e)
qed (simp add: cid_update_def cid_items_def)

lemma cid_copy_id: "cid_wf m \<Longrightarrow> cid_copy m = m"
  using cid_update_fresh [of "[]" m] by (simp add: cid_copy_def cid_init_def)

lemma map_of_lower_items:
  "cid_wf m \<Longrightarrow> map_of (rev (cid_lower_items m)) k = map_option snd (od_get m k)"
proof -
  assume wf: "cid_wf m"
  have fst: "map fst (cid_lower_items m) = od_keys m"
    by (auto simp: cid_lower_items_def od_keys_def)
  have "map_of (rev (cid_lower_items m)) = map_of (cid_lower_items m)"
    using wf by (intro map_of_rev_distinct) (simp add: fst cid_wf_def od_keys_def od_wf_def)
  moreover have "map_of (cid_lower_items m) k = map_option snd (od_get m k)"
    by (induction m) (auto simp: cid_lower_items_def od_get_def)
  ultimately show ?thesis by simp
qed

lemma od_get_key_of:
  "cid_wf m \<Longrightarrow> od_get m k \<noteq> None \<Longrightarrow> key_of k = k"
  by (auto simp: cid_wf_def od_get_def dest!: map_of_SomeD)

section \<open>Headers\<close>

type_synonym field = "string \<times> string \<times> string"

record headers =
  h_list :: "field list"
  h_store :: "string cid"
  h_encoding :: codec

definition h_empty :: "codec \<Rightarrow> headers" where
  "h_empty enc = \<lparr>h_list = [], h_store = [], h_encoding = enc\<rparr>"

definition fields_of :: "string \<Rightarrow> field list \<Rightarrow> field list" where
  "fields_of l fs = filter (\<lambda>e. fst e = l) fs"

definition h_refresh :: "string \<Rightarrow> headers \<Rightarrow> headers" where
  "h_refresh l h =
     (case fields_of l (h_list h) of
        [] \<Rightarrow> h\<lparr>h_store := od_del l (h_store h)\<rparr>
      | (k, n, v) # es \<Rightarrow>
          h\<lparr>h_store := od_put l (n, join '', '' (v # map (snd \<circ> snd) es)) (h_store h)\<rparr>)"

definition h_add :: "string \<Rightarrow> pyval \<Rightarrow> headers \<Rightarrow> headers" where
  "h_add k v h = h_refresh (key_of k) (h\<lparr>h_list := h_list h @ [(key_of k, k, text_of v)]\<rparr>)"

definition h_setitem :: "string \<Rightarrow> pyval \<Rightarrow> headers \<Rightarrow> headers" where
  "h_setitem k v h = h_refresh (key_of k)
     (h\<lparr>h_list := filter (\<lambda>e. fst e \<noteq> key_of k) (h_list h) @ [(key_of k, k, text_of v)]\<rparr>)"

definition h_remove :: "string \<Rightarrow> headers \<Rightarrow> headers" where
  "h_remove k h = h\<lparr>h_list := filter (\<lambda>e. fst e \<noteq> key_of k) (h_list h),
                    h_store := od_del (key_of k) (h_store h)\<rparr>"

definition h_contains :: "headers \<Rightarrow> string \<Rightarrow> bool" where
  "h_contains h k = od_has (h_store h) (key_of k)"

definition h_delitem :: "string \<Rightarrow> headers \<Rightarrow> string map_error + headers" where
  "h_delitem k h = (if \<not> h_contains h k then Inl (KeyError k) else Inr (h_remove k h))"

definition h_get :: "headers \<Rightarrow> string \<Rightarrow> string option" where
  "h_get h k = cid_get (h_store h) k"

definition h_keys :: "headers \<Rightarrow> string list" where
  "h_keys h = cid_iter (h_store h)"

definition h_items :: "headers \<Rightarrow> (string \<times> string) list" where
  "h_items h = cid_items (h_store h)"

definition h_multi_items :: "headers \<Rightarrow> (string \<times> string) list" where
  "h_multi_items h = map snd (h_list h)"

definition h_get_list :: "headers \<Rightarrow> string \<Rightarrow> string list" where
  "h_get_list h k = map (snd \<circ> snd) (fields_of (key_of k) (h_list h))"

text \<open>\<open>get_list(key, split_commas=True)\<close>\<close>

definition h_get_list_split :: "headers \<Rightarrow> string \<Rightarrow> string list" where
  "h_get_list_split h k =
     concat (map (\<lambda>v. map py_strip (filter (\<lambda>i. py_strip i \<noteq> []) (split_on CHR '','' v)))
                 (h_get_list h k))"

definition h_raw :: "headers \<Rightarrow> (string \<times> string) list" where
  "h_raw h = map (\<lambda>(k, n, v). (py_encode (h_encoding h) n, py_encode (h_encoding h) v)) (h_list h)"

text \<open>\<open>MutableMapping.pop(key, None)\<close> and \<open>setdefault\<close>, inherited.\<close>

definition h_pop :: "string \<Rightarrow> headers \<Rightarrow> headers" where
  "h_pop k h = (if h_contains h k then h_remove k h else h)"

definition h_setdefault :: "string \<Rightarrow> pyval \<Rightarrow> headers \<Rightarrow> headers" where
  "h_setdefault k v h = (if h_contains h k then h else h_setitem k v h)"

definition h_add_all :: "(string \<times> string) list \<Rightarrow> headers \<Rightarrow> headers" where
  "h_add_all ps h = fold (\<lambda>(k, v). h_add k (PyStr v)) ps h"

definition h_set_all :: "(string \<times> pyval) list \<Rightarrow> headers \<Rightarrow> headers" where
  "h_set_all ps h = fold (\<lambda>(k, v). h_setitem k v) ps h"

text \<open>What \<open>Headers(...)\<close> and \<open>update(...)\<close> accept.\<close>

datatype entry = Line string | Pair string pyval

datatype header_src =
    FromHeaders headers
  | FromMapping "(string \<times> pyval) list"
  | FromEntries "entry list"

fun h_ingest_entry :: "entry \<Rightarrow> headers \<Rightarrow> headers" where
  "h_ingest_entry (Line s) h =
     (if CHR '':'' \<in> set s
      then (case split_once CHR '':'' s of (n, v) \<Rightarrow> h_add (py_strip n) (PyStr (py_strip v)) h)
      else h)"
| "h_ingest_entry (Pair n v) h = h_add n v h"

fun h_ingest :: "header_src \<Rightarrow> headers \<Rightarrow> headers" where
  "h_ingest (FromHeaders src) h = h_add_all (h_multi_items src) h"
| "h_ingest (FromMapping ps) h = h_set_all ps h"
| "h_ingest (FromEntries es) h = fold h_ingest_entry es h"

definition h_init :: "header_src option \<Rightarrow> codec \<Rightarrow> headers" where
  "h_init src enc = (case src of None \<Rightarrow> h_empty enc | Some s \<Rightarrow> h_ingest s (h_empty enc))"

definition h_copy :: "headers \<Rightarrow> headers" where
  "h_copy h = h_init (Some (FromHeaders h)) (h_encoding h)"

text \<open>
  \<open>update(headers)\<close>.  The first branch deletes every name of the argument and then
  adds the argument's fields; it reads the argument a second time after the deletions,
  so the case where the argument is the object itself (\<open>same\<close>) is a case of its own.
\<close>

definition h_update_headers :: "bool \<Rightarrow> headers \<Rightarrow> headers \<Rightarrow> headers" where
  "h_update_headers same other h =
     (let h' = fold h_pop (h_keys other) h
      in h_add_all (h_multi_items (if same then h' else other)) h')"

datatype update_src =
    UpdHeaders bool headers \<comment> \<open>the flag: the argument is the object itself\<close>
  | UpdPairs "(string \<times> pyval) list" \<comment> \<open>a mapping or a sequence of pairs\<close>

fun h_update :: "update_src option \<Rightarrow> (string \<times> pyval) list \<Rightarrow> headers \<Rightarrow> headers" where
  "h_update None kwargs h = h_set_all kwargs h"
| "h_update (Some (UpdHeaders same other)) kwargs h =
     h_set_all kwargs (h_update_headers same other h)"
| "h_update (Some (UpdPairs ps)) kwargs h = h_set_all kwargs (h_set_all ps h)"

section \<open>The store summarises the list\<close>

definition summary :: "string \<Rightarrow> field list \<Rightarrow> (string \<times> string) option" where
  "summary l fs = (case fields_of l fs of [] \<Rightarrow> None
     | (k, n, v) # es \<Rightarrow> Some (n, join '', '' (v # map (snd \<circ> snd) es)))"

definition h_wf :: "headers \<Rightarrow> bool" where
  "h_wf h \<longleftrightarrow> od_wf (h_store h)
     \<and> (\<forall>(k, n, v) \<in> set (h_list h). k = key_of n)
     \<and> (\<forall>l. od_get (h_store h) l = summary l (h_list h))"

lemma fields_of_append: "fields_of l (fs @ gs) = fields_of l fs @ fields_of l gs"
  by (simp add: fields_of_def)

lemma fields_of_other: "l \<noteq> j \<Longrightarrow> fields_of l (filter (\<lambda>e. fst e \<noteq> j) fs) = fields_of l fs"
  by (induction fs) (auto simp: fields_of_def)

lemma fields_of_same: "fields_of j (filter (\<lambda>e. fst e \<noteq> j) fs) = []"
  by (induction fs) (auto simp: fields_of_def)

lemma summary_cong: "fields_of l fs = fields_of l gs \<Longrightarrow> summary l fs = summary l gs"
  by (simp add: summary_def)

lemma h_refresh_list [simp]: "h_list (h_refresh l h) = h_list h"
  by (simp add: h_refresh_def split: list.splits)

lemma h_refresh_encoding [simp]: "h_encoding (h_refresh l h) = h_encoding h"
  by (simp add: h_refresh_def split: list.splits)

lemma h_refresh_store:
  "od_get (h_store (h_refresh l h)) j =
     (if j = l then summary l (h_list h) else od_get (h_store h) j)"
  by (auto simp: h_refresh_def summary_def od_get_put od_get_del split: list.splits)

lemma h_refresh_od_wf: "od_wf (h_store h) \<Longrightarrow> od_wf (h_store (h_refresh l h))"
  by (auto simp: h_refresh_def od_wf_put od_wf_del split: list.splits)

text \<open>Refreshing one key restores the invariant after the list changed at that key only.\<close>

lemma h_wf_refresh:
  assumes "od_wf (h_store h)" and "\<forall>(k, n, v) \<in> set fs. k = key_of n"
    and "\<And>j. j \<noteq> l \<Longrightarrow> od_get (h_store h) j = summary j fs"
  shows "h_wf (h_refresh l (h\<lparr>h_list := fs\<rparr>))"
  using assms h_refresh_od_wf [of "h\<lparr>h_list := fs\<rparr>" l]
  by (auto simp: h_wf_def h_refresh_store)

lemma h_wf_add [wf_intros]: "h_wf h \<Longrightarrow> h_wf (h_add k v h)"
  unfolding h_add_def
  by (rule h_wf_refresh)
     (auto simp: h_wf_def fields_of_append fields_of_def intro!: summary_cong)

lemma h_wf_setitem [wf_intros]: "h_wf h \<Longrightarrow> h_wf (h_setitem k v h)"
  unfolding h_setitem_def
  by (rule h_wf_refresh)
     (auto simp: h_wf_def fields_of_append fields_of_other intro!: summary_cong,
      auto simp: fields_of_def)

lemma h_wf_remove [wf_intros]: "h_wf h \<Longrightarrow> h_wf (h_remove k h)"
  unfolding h_wf_def h_remove_def
  by (auto simp: od_wf_del od_get_del summary_def fields_of_same fields_of_other)

lemma h_wf_empty [simp]: "h_wf (h_empty enc)"
  by (simp add: h_wf_def h_empty_def summary_def fields_of_def)

lemma h_wf_pop [wf_intros]: "h_wf h \<Longrightarrow> h_wf (h_pop k h)"
  by (simp add: h_pop_def h_wf_remove)

lemma h_wf_setdefault [wf_intros]: "h_wf h \<Longrightarrow> h_wf (h_setdefault k v h)"
  by (simp add: h_setdefault_def h_wf_setitem)

lemma h_wf_fold:
  "(\<And>x h. h_wf h \<Longrightarrow> h_wf (f x h)) \<Longrightarrow> h_wf h \<Longrightarrow> h_wf (fold f xs h)"
  by (induction xs arbitrary: h) auto

lemma h_wf_add_all [wf_intros]: "h_wf h \<Longrightarrow> h_wf (h_add_all ps h)"
  unfolding h_add_all_def by (rule h_wf_fold) (auto simp: h_wf_add)

lemma h_wf_set_all [wf_intros]: "h_wf h \<Longrightarrow> h_wf (h_set_all ps h)"
  unfolding h_set_all_def by (rule h_wf_fold) (auto simp: h_wf_setitem)

lemma h_wf_ingest_entry [wf_intros]: "h_wf h \<Longrightarrow> h_wf (h_ingest_entry e h)"
  by (cases e) (auto simp: h_wf_add split: prod.splits)

lemma h_wf_ingest [wf_intros]: "h_wf h \<Longrightarrow> h_wf (h_ingest src h)"
  by (cases src) (auto simp: wf_intros intro!: h_wf_fold)

lemma h_wf_init [wf_intros]: "h_wf (h_init src enc)"
  by (simp add: h_init_def h_wf_ingest split: option.splits)

lemma h_wf_copy [wf_intros]: "h_wf (h_copy h)"
  by (simp add: h_copy_def h_wf_init)

lemma h_wf_update [wf_intros]: "h_wf h \<Longrightarrow> h_wf (h_update src kwargs h)"
proof -
  assume wf: "h_wf h"
  then have "h_wf (h_update_headers same other h)" for same other
    by (auto simp: h_update_headers_def Let_def wf_intros intro!: h_wf_add_all h_wf_fold)
  with wf show ?thesis
    by (cases "(src, kwargs, h)" rule: h_update.cases) (auto simp: h_wf_set_all)
qed

section \<open>What the operations return\<close>

text \<open>\<open>headers[k]\<close> is the comma-joined list of the fields named \<open>k\<close>.\<close>

lemma h_get_joined:
  "h_wf h \<Longrightarrow> h_get h k =
     (if h_get_list h k = [] then None else Some (join '', '' (h_get_list h k)))"
  by (auto simp: h_get_def cid_get_def h_wf_def summary_def h_get_list_def split: list.splits)

lemma h_contains_iff: "h_wf h \<Longrightarrow> h_contains h k \<longleftrightarrow> h_get_list h k \<noteq> []"
  by (auto simp: h_contains_def od_has_def h_wf_def summary_def h_get_list_def split: list.splits)

lemma h_get_list_add:
  "h_get_list (h_add k v h) j =
     (if key_of j = key_of k then h_get_list h j @ [text_of v] else h_get_list h j)"
  by (simp add: h_get_list_def h_add_def fields_of_append) (simp add: fields_of_def)

lemma h_get_list_setitem:
  "h_get_list (h_setitem k v h) j =
     (if key_of j = key_of k then [text_of v] else h_get_list h j)"
  by (simp add: h_get_list_def h_setitem_def fields_of_append fields_of_same fields_of_other)
     (simp add: fields_of_def)

lemma h_get_list_remove:
  "h_get_list (h_remove k h) j = (if key_of j = key_of k then [] else h_get_list h j)"
  by (simp add: h_get_list_def h_remove_def fields_of_same fields_of_other)

lemmas h_get_list_ops = h_get_list_add h_get_list_setitem h_get_list_remove

lemma h_get_list_pop: "h_wf h \<Longrightarrow>
  h_get_list (h_pop k h) j = (if key_of j = key_of k then [] else h_get_list h j)"
  using h_contains_iff [of h k]
  by (auto simp: h_pop_def h_get_list_remove) (simp add: h_get_list_def)

lemma h_get_setitem: "h_wf h \<Longrightarrow>
  h_get (h_setitem k v h) j = (if key_of j = key_of k then Some (text_of v) else h_get h j)"
  by (simp add: h_get_joined h_wf_setitem h_get_list_setitem)

lemma h_get_remove: "h_wf h \<Longrightarrow>
  h_get (h_remove k h) j = (if key_of j = key_of k then None else h_get h j)"
  by (simp add: h_get_joined h_wf_remove h_get_list_remove)

lemma h_get_pop: "h_wf h \<Longrightarrow>
  h_get (h_pop k h) j = (if key_of j = key_of k then None else h_get h j)"
  by (simp add: h_get_joined h_wf_pop h_get_list_pop)

lemma h_get_setdefault: "h_wf h \<Longrightarrow>
  h_get (h_setdefault k v h) j =
    (if key_of j = key_of k \<and> h_get h k = None then Some (text_of v) else h_get h j)"
  using h_contains_iff [of h k] h_get_joined [of h k]
  by (auto simp: h_setdefault_def h_get_setitem)

lemma h_wf_keys: "h_wf h \<Longrightarrow> cid_wf (h_store h)"
proof -
  assume wf: "h_wf h"
  have "k = key_of n" if "(k, n, v) \<in> set (h_store h)" for k n v
  proof -
    from that wf have "summary k (h_list h) = Some (n, v)"
      unfolding h_wf_def od_wf_def od_get_def by (metis map_of_is_SomeI)
    then obtain k' w es where "fields_of k (h_list h) = (k', n, w) # es"
      by (auto simp: summary_def split: list.splits)
    then have "(k', n, w) \<in> set (fields_of k (h_list h))" by simp
    with wf show ?thesis by (auto simp: h_wf_def fields_of_def)
  qed
  with wf show ?thesis by (auto simp: cid_wf_def h_wf_def)
qed

interpretation hdr: listed_store h_get "\<lambda>k v. h_setitem k (PyStr v)" h_remove key_of h_wf h_keys
proof unfold_locales
  show "key_of j = key_of k \<Longrightarrow> h_get h j = h_get h k" for h j k
    by (simp add: h_get_def cid_get_def)
  show "h_wf h \<Longrightarrow> key_of k \<in> key_of ` set (h_keys h) \<longleftrightarrow> h_get h k \<noteq> None" for h k
    by (simp add: h_keys_def h_get_def cid.keys_lookup h_wf_keys)
  show "h_wf h \<Longrightarrow> distinct (map key_of (h_keys h))" for h
    by (simp add: h_keys_def cid.keys_distinct h_wf_keys)
qed (simp_all add: h_get_setitem h_get_remove wf_intros)

section \<open>Any sequence of operations\<close>

datatype h_op =
    OpAdd string pyval
  | OpSet string pyval
  | OpDel string
  | OpPop string
  | OpSetdefault string pyval
  | OpUpdate "update_src option" "(string \<times> pyval) list"

fun h_apply :: "h_op \<Rightarrow> headers \<Rightarrow> headers" where
  "h_apply (OpAdd k v) h = h_add k v h"
| "h_apply (OpSet k v) h = h_setitem k v h"
| "h_apply (OpDel k) h = (case h_delitem k h of Inl e \<Rightarrow> h | Inr h' \<Rightarrow> h')"
| "h_apply (OpPop k) h = h_pop k h"
| "h_apply (OpSetdefault k v) h = h_setdefault k v h"
| "h_apply (OpUpdate src kw) h = h_update src kw h"

definition h_run :: "h_op list \<Rightarrow> headers \<Rightarrow> headers" where
  "h_run ops h = fold h_apply ops h"

lemma h_wf_apply: "h_wf h \<Longrightarrow> h_wf (h_apply op h)"
  by (cases op) (auto simp: wf_intros h_delitem_def)

interpretation hm: safe_machine h_apply h_wf
  by unfold_locales (rule h_wf_apply)

lemma h_wf_run: "h_wf h \<Longrightarrow> h_wf (h_run ops h)"
  using hm.inv_run [of h ops] by (simp add: h_run_def hm.run_def)

text \<open>
  C15: after any sequence of additions, assignments, deletions, pops, defaults and updates
  on a header mapping built from any source, the value read under a name is the
  comma-joined list of all fields of that name (absent exactly when there are none), and
  names differing in case read the same.
\<close>

theorem headers_value_is_joined_fields:
  "h_get (h_run ops (h_init src enc)) k =
     (if h_get_list (h_run ops (h_init src enc)) k = [] then None
      else Some (join '', '' (h_get_list (h_run ops (h_init src enc)) k)))"
  by (rule h_get_joined) (simp add: h_wf_run h_wf_init)

section \<open>Copies and updates\<close>

lemma h_list_add_all:
  "h_list (h_add_all ps h) = h_list h @ map (\<lambda>(n, v). (key_of n, n, v)) ps"
  by (induction ps arbitrary: h) (auto simp: h_add_all_def h_add_def)

lemma map_snd_lower:
  "\<forall>(k, n, v) \<in> set fs. k = key_of n \<Longrightarrow> map ((\<lambda>(n, v). (key_of n, n, v)) \<circ> snd) fs = fs"
  by (induction fs) auto

lemma h_copy_list: "h_wf h \<Longrightarrow> h_list (h_copy h) = h_list h"
  by (simp add: h_copy_def h_init_def h_list_add_all h_multi_items_def h_empty_def
      map_snd_lower h_wf_def)

text \<open>
  A copy holds the same fields, duplicates, spellings and order included, and every
  name reads the same value from it.
\<close>

theorem headers_copy_preserves:
  assumes "h_wf h"
  shows "h_multi_items (h_copy h) = h_multi_items h \<and> h_get (h_copy h) k = h_get h k"
  using assms h_copy_list [OF assms] h_wf_copy [of h]
  by (simp add: h_multi_items_def h_get_joined h_get_list_def)

theorem headers_copy_preserves_witness:
  "h_multi_items (h_copy (h_add ''A'' (PyStr ''2'') (h_add ''a'' (PyStr ''1'') (h_empty Utf8)))) =
     [(''a'', ''1''), (''A'', ''2'')]"
  using headers_copy_preserves [of "h_add ''A'' (PyStr ''2'') (h_add ''a'' (PyStr ''1'') (h_empty Utf8))"]
  by (simp add: wf_intros) (simp add: h_multi_items_def h_add_def h_empty_def)

lemma h_list_pop_fold:
  "h_wf h \<Longrightarrow> h_list (fold h_pop ks h) = filter (\<lambda>e. fst e \<notin> key_of ` set ks) (h_list h)"
proof (induction ks arbitrary: h)
  case (Cons k ks)
  have "h_list (h_pop k h) = filter (\<lambda>e. fst e \<noteq> key_of k) (h_list h)"
    using h_contains_iff [OF Cons.prems, of k]
    by (auto simp: h_pop_def h_remove_def h_get_list_def fields_of_def filter_empty_conv
        filter_id_conv)
  with Cons.IH [of "h_pop k h"] Cons.prems show ?case
    by (simp add: h_wf_pop)
qed simp

lemma h_keys_cover: "h_wf h \<Longrightarrow> e \<in> set (h_list h) \<Longrightarrow> fst e \<in> key_of ` set (h_keys h)"
proof -
  assume wf: "h_wf h" and e: "e \<in> set (h_list h)"
  obtain k n v where e': "e = (k, n, v)" by (cases e)
  with wf e have k: "k = key_of n" by (auto simp: h_wf_def)
  have "h_get_list h n \<noteq> []"
    using e by (auto simp: h_get_list_def fields_of_def filter_empty_conv e' k intro: bexI [OF _ e])
  then show ?thesis using wf by (simp add: e' k hdr.keys_lookup h_get_joined)
qed

text \<open>
  \<open>update\<close> with another header mapping replaces every name the argument has by all of
  the argument's fields of that name and leaves the other names alone.
\<close>

theorem headers_update_replaces:
  assumes "h_wf h" and "h_wf other"
  shows "h_get_list (h_update (Some (UpdHeaders False other)) [] h) k =
    (if h_get_list other k = [] then h_get_list h k else h_get_list other k)"
proof -
  let ?p = "fold h_pop (h_keys other) h"
  have mem: "key_of k \<in> key_of ` set (h_keys other) \<longleftrightarrow> h_get_list other k \<noteq> []"
    using assms(2) by (simp add: hdr.keys_lookup h_get_joined)
  have "h_get_list (h_add_all (h_multi_items other) ?p) k = h_get_list ?p k @ h_get_list other k"
    using assms(2)
    by (simp add: h_get_list_def h_list_add_all h_multi_items_def map_snd_lower h_wf_def fields_of_append)
  moreover have "h_get_list ?p k =
      (if key_of k \<in> key_of ` set (h_keys other) then [] else h_get_list h k)"
    by (auto simp: h_get_list_def fields_of_def h_list_pop_fold [OF assms(1)] filter_empty_conv
        intro!: arg_cong [where f = "map _"] filter_cong)
  ultimately show ?thesis using mem by (auto simp: h_update_headers_def h_set_all_def)
qed

theorem headers_update_replaces_witness:
  "h_get_list (h_update (Some (UpdHeaders False (h_add ''X'' (PyStr ''new'') (h_empty Utf8)))) []
     (h_add ''x'' (PyStr ''old'') (h_empty Utf8))) ''x'' = [''new'']"
  using headers_update_replaces [of "h_add ''x'' (PyStr ''old'') (h_empty Utf8)"
      "h_add ''X'' (PyStr ''new'') (h_empty Utf8)" "''x''"]
  by (simp add: wf_intros) code_simp

text \<open>
  \<open>headers.update(headers)\<close>, with the object itself as the argument, deletes every
  field: the deletions of the first loop are seen by the second one.
\<close>

theorem headers_update_self_clears:
  assumes "h_wf h"
  shows "h_multi_items (h_update (Some (UpdHeaders True h)) [] h) = []"
proof -
  have "h_list (fold h_pop (h_keys h) h) = []"
    using h_keys_cover [OF assms] by (auto simp: h_list_pop_fold [OF assms] filter_empty_conv)
  then show ?thesis
    by (simp add: h_update_headers_def h_set_all_def h_multi_items_def h_list_add_all)
qed

theorem headers_update_self_clears_witness:
  "h_multi_items (h_update (Some (UpdHeaders True (h_add ''A'' (PyStr ''1'') (h_empty Utf8)))) []
     (h_add ''A'' (PyStr ''1'') (h_empty Utf8))) = []"
  by (rule headers_update_self_clears) (simp add: wf_intros)

text \<open>
  Two case-insensitive dictionaries compare equal exactly when every name reads the
  same from both, whatever the order and the spelling of the keys.
\<close>

theorem cid_eq_iff_same_lookups:
  assumes "cid_wf m" and "cid_wf m'"
  shows "cid_eq m (cid_items m') \<longleftrightarrow> (\<forall>k. cid_get m k = cid_get m' k)"
proof -
  have init: "cid_init (cid_items m') = m'"
    using cid_copy_id [OF assms(2)] by (simp add: cid_copy_def)
  have ks: "fst ` set (cid_lower_items x) = {k. od_get x k \<noteq> None}" for x :: "'a cid"
  proof -
    have "fst ` set (cid_lower_items x) = set (od_keys x)"
      by (force simp: cid_lower_items_def od_keys_def)
    then show ?thesis by (auto simp: od_keys_get)
  qed
  have "cid_eq m (cid_items m') \<longleftrightarrow>
      (\<forall>k. map_option snd (od_get m k) = map_option snd (od_get m' k))"
    unfolding cid_eq_def dict_eq_def init ks map_of_lower_items [OF assms(1)] map_of_lower_items [OF assms(2)]
    by (metis (mono_tags, lifting) mem_Collect_eq)
  also have "\<dots> \<longleftrightarrow> (\<forall>k. cid_get m k = cid_get m' k)"
    unfolding cid_get_def using od_get_key_of [OF assms(1)] od_get_key_of [OF assms(2)]
    by (metis key_of_idem)
  finally show ?thesis .
qed

theorem cid_eq_iff_same_lookups_witness:
  "cid_eq (cid_init [(''Accept'', 1::int), (''x'', 2)]) (cid_items (cid_init [(''X'', 2), (''ACCEPT'', 1)]))
   \<longleftrightarrow> (\<forall>k. cid_get (cid_init [(''Accept'', 1::int), (''x'', 2)]) k = cid_get (cid_init [(''X'', 2), (''ACCEPT'', 1)]) k)"
  by (rule cid_eq_iff_same_lookups) (simp_all add: cid_init_def wf_intros)

end
