(* ===== verification/Exceptions.thy ===== *)
theory Exceptions
  imports Py_Prelude
begin

text \<open>
  \<open>bindings/python/chrome_client/_python_impl/exceptions.py\<close>: the exception classes with
  their bases, the table of Chromium net error codes, and the mapping of a native error
  string onto a class and a message.  The five built-in classes the hierarchy derives
  from come first.
\<close>

section \<open>The class hierarchy\<close>

datatype exc_class =
    IOError | ValueError | TypeError | RuntimeError | NotImplementedError
  | RequestException | InvalidJSONError | JSONDecodeError | HTTPError
  | ConnectionError | ProxyError | SSLError | CertificateVerifyError
  | DNSError | Timeout | ConnectTimeout | ReadTimeout
  | URLRequired | TooManyRedirects | MissingSchema | InvalidSchema
  | InvalidURL | InvalidHeader | InvalidProxyURL | ChunkedEncodingError
  | ContentDecodingError | StreamConsumedError | RetryError | UnrewindableBodyError
  | IncompleteRead | InterfaceError | SessionClosed | ImpersonateError
  | CookieConflictError | ResponseTooLarge | WebSocketError | WebSocketClosed
  | WebSocketTimeout | UnsupportedFeature

fun bases :: "exc_class \<Rightarrow> exc_class list" where
  "bases RequestException = [IOError]"
| "bases InvalidJSONError = [RequestException]"
| "bases JSONDecodeError = [InvalidJSONError, ValueError]"
| "bases HTTPError = [RequestException]"
| "bases ConnectionError = [RequestException]"
| "bases ProxyError = [ConnectionError]"
| "bases SSLError = [ConnectionError]"
| "bases CertificateVerifyError = [SSLError]"
| "bases DNSError = [ConnectionError]"
| "bases Timeout = [RequestException]"
| "bases ConnectTimeout = [ConnectionError, Timeout]"
| "bases ReadTimeout = [Timeout]"
| "bases URLRequired = [RequestException]"
| "bases TooManyRedirects = [RequestException]"
| "bases MissingSchema = [RequestException, ValueError]"
| "bases InvalidSchema = [RequestException, ValueError]"
| "bases InvalidURL = [RequestException, ValueError]"
| "bases InvalidHeader = [RequestException, ValueError]"
| "bases InvalidProxyURL = [InvalidURL]"
| "bases ChunkedEncodingError = [RequestException]"
| "bases ContentDecodingError = [RequestException]"
| "bases StreamConsumedError = [RequestException, TypeError]"
| "bases RetryError = [RequestException]"
| "bases UnrewindableBodyError = [RequestException]"
| "bases IncompleteRead = [RequestException]"
| "bases InterfaceError = [RequestException]"
| "bases SessionClosed = [RequestException]"
| "bases ImpersonateError = [RequestException, ValueError]"
| "bases CookieConflictError = [RequestException, RuntimeError]"
| "bases ResponseTooLarge = [RequestException]"
| "bases WebSocketError = [RequestException]"
| "bases WebSocketClosed = [WebSocketError]"
| "bases WebSocketTimeout = [WebSocketError, Timeout]"
| "bases UnsupportedFeature = [RequestException, NotImplementedError]"
| "bases NotImplementedError = [RuntimeError]"
| "bases IOError = []"
| "bases ValueError = []"
| "bases TypeError = []"
| "bases RuntimeError = []"

text \<open>The depth of a class in the hierarchy; every base is strictly shallower.\<close>

fun depth :: "exc_class \<Rightarrow> nat" where
  "depth IOError = 0"
| "depth ValueError = 0"
| "depth TypeError = 0"
| "depth RuntimeError = 0"
| "depth NotImplementedError = 1"
| "depth RequestException = 1"
| "depth InvalidJSONError = 2"
| "depth JSONDecodeError = 3"
| "depth HTTPError = 2"
| "depth ConnectionError = 2"
| "depth ProxyError = 3"
| "depth SSLError = 3"
| "depth CertificateVerifyError = 4"
| "depth DNSError = 3"
| "depth Timeout = 2"
| "depth ConnectTimeout = 3"
| "depth ReadTimeout = 3"
| "depth URLRequired = 2"
| "depth TooManyRedirects = 2"
| "depth MissingSchema = 2"
| "depth InvalidSchema = 2"
| "depth InvalidURL = 2"
| "depth InvalidHeader = 2"
| "depth InvalidProxyURL = 3"
| "depth ChunkedEncodingError = 2"
| "depth ContentDecodingError = 2"
| "depth StreamConsumedError = 2"
| "depth RetryError = 2"
| "depth UnrewindableBodyError = 2"
| "depth IncompleteRead = 2"
| "depth InterfaceError = 2"
| "depth SessionClosed = 2"
| "depth ImpersonateError = 2"
| "depth CookieConflictError = 2"
| "depth ResponseTooLarge = 2"
| "depth WebSocketError = 2"
| "depth WebSocketClosed = 3"
| "depth WebSocketTimeout = 3"
| "depth UnsupportedFeature = 2"

lemma depth_bases: "b \<in> set (bases c) \<Longrightarrow> depth b < depth c"
  by (cases c) auto

text \<open>\<open>isinstance\<close> / \<open>except\<close>: the reflexive closure of the bases.\<close>

function is_subclass :: "exc_class \<Rightarrow> exc_class \<Rightarrow> bool" where
  "is_subclass c d \<longleftrightarrow> c = d \<or> list_ex (\<lambda>b. is_subclass b d) (bases c)"
  by pat_completeness auto
termination
  by (relation "measure (\<lambda>(c, d). depth c)") (auto simp: depth_bases)

declare is_subclass.simps [simp del]

lemma subclass_refl [simp]: "is_subclass c c"
  by (subst is_subclass.simps) simp

lemma subclass_base: "b \<in> set (bases c) \<Longrightarrow> is_subclass b d \<Longrightarrow> is_subclass c d"
  by (subst is_subclass.simps) (auto simp: list_ex_iff)

lemma subclass_trans: "is_subclass b c \<Longrightarrow> is_subclass c d \<Longrightarrow> is_subclass b d"
proof (induction b c rule: is_subclass.induct)
  case (1 b c)
  from "1.prems"(1) have "b = c \<or> (\<exists>a \<in> set (bases b). is_subclass a c)"
    by (subst (asm) is_subclass.simps) (auto simp: list_ex_iff)
  then show ?case using "1.IH" "1.prems"(2) by (auto intro: subclass_base)
qed

definition builtin :: "exc_class \<Rightarrow> bool" where
  "builtin c \<longleftrightarrow> c \<in> {IOError, ValueError, TypeError, RuntimeError, NotImplementedError}"

text \<open>A raised exception: its class and its message.\<close>

record exc =
  exc_kind :: exc_class
  exc_msg :: string

definition raise_exc :: "exc_class \<Rightarrow> string \<Rightarrow> exc + 'a" where
  "raise_exc k m = Inl \<lparr>exc_kind = k, exc_msg = m\<rparr>"

section \<open>Net error codes\<close>

definition NET_ERRORS :: "(int \<times> string \<times> exc_class option) list" where
  "NET_ERRORS = [
     (-2, ''ERR_FAILED'', None),
     (-3, ''ERR_ABORTED'', None),
     (-7, ''ERR_TIMED_OUT'', Some Timeout),
     (-15, ''ERR_SOCKET_NOT_CONNECTED'', None),
     (-21, ''ERR_NETWORK_CHANGED'', None),
     (-100, ''ERR_CONNECTION_CLOSED'', None),
     (-101, ''ERR_CONNECTION_RESET'', None),
     (-102, ''ERR_CONNECTION_REFUSED'', None),
     (-103, ''ERR_CONNECTION_ABORTED'', None),
     (-104, ''ERR_CONNECTION_FAILED'', None),
     (-105, ''ERR_NAME_NOT_RESOLVED'', Some DNSError),
     (-106, ''ERR_INTERNET_DISCONNECTED'', None),
     (-107, ''ERR_SSL_PROTOCOL_ERROR'', Some SSLError),
     (-108, ''ERR_ADDRESS_INVALID'', Some InvalidURL),
     (-109, ''ERR_ADDRESS_UNREACHABLE'', None),
     (-110, ''ERR_SSL_CLIENT_AUTH_CERT_NEEDED'', Some SSLError),
     (-113, ''ERR_SSL_VERSION_OR_CIPHER_MISMATCH'', Some SSLError),
     (-118, ''ERR_CONNECTION_TIMED_OUT'', Some ConnectTimeout),
     (-121, ''ERR_SOCKS_CONNECTION_HOST_UNREACHABLE'', Some ProxyError),
     (-130, ''ERR_PROXY_CONNECTION_FAILED'', Some ProxyError),
     (-137, ''ERR_NAME_RESOLUTION_FAILED'', Some DNSError),
     (-200, ''ERR_CERT_COMMON_NAME_INVALID'', Some CertificateVerifyError),
     (-201, ''ERR_CERT_DATE_INVALID'', Some CertificateVerifyError),
     (-202, ''ERR_CERT_AUTHORITY_INVALID'', Some CertificateVerifyError),
     (-203, ''ERR_CERT_CONTAINS_ERRORS'', Some CertificateVerifyError),
     (-204, ''ERR_CERT_NO_REVOCATION_MECHANISM'', Some CertificateVerifyError),
     (-206, ''ERR_CERT_REVOKED'', Some CertificateVerifyError),
     (-207, ''ERR_CERT_INVALID'', Some CertificateVerifyError),
     (-208, ''ERR_CERT_WEAK_SIGNATURE_ALGORITHM'', Some CertificateVerifyError),
     (-210, ''ERR_CERT_NON_UNIQUE_NAME'', Some CertificateVerifyError),
     (-211, ''ERR_CERT_WEAK_KEY'', Some CertificateVerifyError),
     (-212, ''ERR_CERT_NAME_CONSTRAINT_VIOLATION'', Some CertificateVerifyError),
     (-213, ''ERR_CERT_VALIDITY_TOO_LONG'', Some CertificateVerifyError),
     (-214, ''ERR_CERTIFICATE_TRANSPARENCY_REQUIRED'', Some CertificateVerifyError),
     (-217, ''ERR_CERT_KNOWN_INTERCEPTION_BLOCKED'', Some CertificateVerifyError),
     (-300, ''ERR_INVALID_URL'', Some InvalidURL),
     (-301, ''ERR_DISALLOWED_URL_SCHEME'', Some InvalidSchema),
     (-302, ''ERR_UNKNOWN_URL_SCHEME'', Some InvalidSchema),
     (-310, ''ERR_TOO_MANY_REDIRECTS'', Some TooManyRedirects),
     (-311, ''ERR_UNSAFE_REDIRECT'', Some TooManyRedirects),
     (-312, ''ERR_UNSAFE_PORT'', Some InvalidURL),
     (-320, ''ERR_INVALID_RESPONSE'', Some ConnectionError),
     (-321, ''ERR_INVALID_CHUNKED_ENCODING'', Some ChunkedEncodingError),
     (-324, ''ERR_EMPTY_RESPONSE'', Some ConnectionError),
     (-325, ''ERR_RESPONSE_HEADERS_TOO_BIG'', Some InvalidHeader),
     (-336, ''ERR_NO_SUPPORTED_PROXIES'', Some ProxyError),
     (-337, ''ERR_HTTP2_PROTOCOL_ERROR'', Some ConnectionError),
     (-348, ''ERR_PAC_NOT_IN_DHCP'', Some ProxyError),
     (-350, ''ERR_RESPONSE_HEADERS_MULTIPLE_LOCATION'', Some ContentDecodingError),
     (-354, ''ERR_CONTENT_LENGTH_MISMATCH'', Some IncompleteRead),
     (-358, ''ERR_QUIC_HANDSHAKE_FAILED'', Some ConnectionError),
     (-371, ''ERR_CONTENT_DECODING_INIT_FAILED'', Some ContentDecodingError),
     (-400, ''ERR_CACHE_MISS'', None),
     (-111, ''ERR_TUNNEL_CONNECTION_FAILED'', Some ProxyError),
     (-115, ''ERR_PROXY_AUTH_UNSUPPORTED'', Some ProxyError),
     (-120, ''ERR_SOCKS_CONNECTION_FAILED'', Some ProxyError),
     (-127, ''ERR_PROXY_AUTH_REQUESTED'', Some ProxyError),
     (-131, ''ERR_MANDATORY_PROXY_CONFIGURATION_FAILED'', Some ProxyError),
     (-136, ''ERR_PROXY_CERTIFICATE_INVALID'', Some ProxyError),
     (-375, ''ERR_TOO_MANY_RETRIES'', Some ProxyError)]"

definition named_error :: "int \<Rightarrow> (string \<times> exc_class option) option" where
  "named_error code = map_of NET_ERRORS code"

definition describe_net_error :: "int \<Rightarrow> string option" where
  "describe_net_error code = map_option fst (named_error code)"

text \<open>The pattern \<open>net error (-?\d+)\<close>, searched from the left.\<close>

definition match_int :: "string \<Rightarrow> int option" where
  "match_int s =
     (case s of [] \<Rightarrow> None
      | c # r \<Rightarrow>
        (if c = CHR ''-''
         then (case takeWhile ascii_digit r of [] \<Rightarrow> None | ds \<Rightarrow> Some (- int (read_nat ds)))
         else (case takeWhile ascii_digit s of [] \<Rightarrow> None | ds \<Rightarrow> Some (int (read_nat ds)))))"

fun net_error_code :: "string \<Rightarrow> int option" where
  "net_error_code [] = None"
| "net_error_code (c # s) =
     (if startswith (c # s) ''net error ''
      then (case match_int (drop 10 (c # s)) of Some i \<Rightarrow> Some i | None \<Rightarrow> net_error_code s)
      else net_error_code s)"

definition net_error_text :: "string \<Rightarrow> int \<Rightarrow> string" where
  "net_error_text name code = name @ '' (net error '' @ show_int code @ '')''"

definition name_net_error :: "string \<Rightarrow> string" where
  "name_net_error text =
     (case net_error_code text of None \<Rightarrow> text
      | Some code \<Rightarrow> (case named_error code of None \<Rightarrow> text
          | Some (name, _) \<Rightarrow> net_error_text name code))"

section \<open>Mapping a native error\<close>

definition NATIVE_ERRORS :: "(string \<times> exc_class) list" where
  "NATIVE_ERRORS = [
     (''ProfileUnsupported'', ImpersonateError),
     (''ProfileConflict'', ImpersonateError),
     (''InvalidArgument'', InvalidURL),
     (''UnsupportedAbi'', RequestException),
     (''OutOfMemory'', RequestException),
     (''InitializationFailed'', RequestException),
     (''InvalidState'', RequestException),
     (''Timeout'', Timeout),
     (''Canceled'', RequestException),
     (''Tls'', SSLError),
     (''Proxy'', ProxyError),
     (''Protocol'', ConnectionError),
     (''Redirect'', TooManyRedirects),
     (''CacheMiss'', RequestException),
     (''CallbackPanic'', RequestException),
     (''BufferLimit'', RequestException),
     (''Network'', ConnectionError)]"

definition native_category :: "string \<Rightarrow> exc_class option" where
  "native_category text = map_option snd (find (\<lambda>(needle, kind). occurs_in needle text) NATIVE_ERRORS)"

definition map_native_error :: "string \<Rightarrow> exc" where
  "map_native_error text =
     (let code = net_error_code text;
          named = (case code of None \<Rightarrow> None | Some c \<Rightarrow> named_error c);
          message = (case (code, named) of
                       (Some c, Some (name, _)) \<Rightarrow> net_error_text name c | _ \<Rightarrow> text);
          specific = (case named of None \<Rightarrow> None | Some (_, k) \<Rightarrow> k)
      in case native_category text of
           Some kind \<Rightarrow>
             \<lparr>exc_kind = (case specific of Some k \<Rightarrow> k | None \<Rightarrow> kind), exc_msg = message\<rparr>
         | None \<Rightarrow>
             (case specific of
                Some k \<Rightarrow> \<lparr>exc_kind = k, exc_msg = message\<rparr>
              | None \<Rightarrow>
                  (let lowered = py_lower message
                   in if occurs_in ''timeout'' lowered \<or> occurs_in ''timed out'' lowered
                      then \<lparr>exc_kind = Timeout, exc_msg = message\<rparr>
                      else \<lparr>exc_kind = RequestException, exc_msg = message\<rparr>)))"

section \<open>Lemmas\<close>

lemma subclass_RequestException: "\<not> builtin c \<Longrightarrow> is_subclass c RequestException"
proof (induction c rule: measure_induct_rule [where f = depth])
  case (less c)
  then show ?case
    by (cases c; simp add: builtin_def; subst is_subclass.simps; simp)
qed

lemma named_kind_not_builtin: "named_error c = Some (n, Some k) \<Longrightarrow> \<not> builtin k"
  by (auto simp: named_error_def NET_ERRORS_def builtin_def split: if_splits)

lemma category_not_builtin: "native_category t = Some k \<Longrightarrow> \<not> builtin k"
proof -
  assume "native_category t = Some k"
  then obtain n where "(n, k) \<in> set NATIVE_ERRORS"
    unfolding native_category_def find_Some_iff by (auto simp: find_Some_iff) (metis nth_mem)
  then show ?thesis by (auto simp: NATIVE_ERRORS_def builtin_def)
qed

lemma named_name_no_n: "named_error c = Some (n, k) \<Longrightarrow> CHR ''n'' \<notin> set n"
  by (auto simp: named_error_def NET_ERRORS_def split: if_splits)

lemma takeWhile_show_nat:
  "takeWhile ascii_digit (show_nat n @ CHR '')'' # s) = show_nat n"
proof -
  have "\<not> ascii_digit CHR '')''" by (simp add: ascii_digit_def)
  with show_nat_digits [of n] show ?thesis
    by (subst takeWhile_append2) (auto simp: list_all_iff)
qed

lemma show_nat_hd: "show_nat n = c # r \<Longrightarrow> c \<noteq> CHR ''-''"
  using show_nat_digits [of n] by (auto simp: ascii_digit_def)

lemma match_int_show: "match_int (show_int i @ CHR '')'' # s) = Some i"
proof (cases "i < 0")
  case True
  then have "match_int (show_int i @ CHR '')'' # s) =
      (case show_nat (nat (- i)) of [] \<Rightarrow> None | ds \<Rightarrow> Some (- int (read_nat ds)))"
    using takeWhile_show_nat [of "nat (- i)" s] by (simp add: match_int_def show_int_def)
  also have "\<dots> = Some (- int (read_nat (show_nat (nat (- i)))))"
    by (cases "show_nat (nat (- i))") auto
  finally show ?thesis using True by simp
next
  case False
  obtain c r where cr: "show_nat (nat i) = c # r"
    by (cases "show_nat (nat i)") auto
  then have "match_int (show_nat (nat i) @ CHR '')'' # s) =
      (case takeWhile ascii_digit (show_nat (nat i) @ CHR '')'' # s) of
         [] \<Rightarrow> None | ds \<Rightarrow> Some (int (read_nat ds)))"
    using show_nat_hd [OF cr] by (simp add: match_int_def)
  also have "\<dots> = Some (int (read_nat (show_nat (nat i))))"
    unfolding takeWhile_show_nat by (cases "show_nat (nat i)") auto
  finally show ?thesis using False by (simp add: show_int_def)
qed

lemma net_error_code_skip:
  "CHR ''n'' \<notin> set p \<Longrightarrow> net_error_code (p @ s) = net_error_code s"
  by (induction p) auto

lemma net_error_code_text:
  assumes "CHR ''n'' \<notin> set name"
  shows "net_error_code (net_error_text name i) = Some i"
proof -
  have "net_error_code (''net error '' @ show_int i @ '')'') = Some i"
    using match_int_show [of i "[]"] by simp
  then have "net_error_code ('' ('' @ ''net error '' @ show_int i @ '')'') = Some i"
    by (subst net_error_code_skip) simp_all
  then show ?thesis
    unfolding net_error_text_def using net_error_code_skip [OF assms] by simp
qed

section \<open>Properties\<close>

text \<open>
  C35: Whatever the Core reports, the exception the facade raises is a
  \<open>RequestException\<close> (so \<open>except RequestException\<close> catches every native failure).
\<close>

theorem native_error_is_request_exception:
  "is_subclass (exc_kind (map_native_error text)) RequestException"
proof (rule subclass_RequestException)
  show "\<not> builtin (exc_kind (map_native_error text))"
    by (auto simp: map_native_error_def Let_def named_kind_not_builtin category_not_builtin
        split: option.splits) (auto simp: builtin_def)
qed

text \<open>
  When the message carries a net error code that the table names with a class, the
  code alone decides the class and the text, whatever category word the message has.
\<close>

theorem native_error_code_decides:
  assumes "net_error_code text = Some c" and "named_error c = Some (name, Some k)"
  shows "map_native_error text = \<lparr>exc_kind = k, exc_msg = net_error_text name c\<rparr>"
  using assms by (simp add: map_native_error_def Let_def split: option.splits)

theorem native_error_code_decides_witness:
  "map_native_error ''Network (Chromium net error -118)'' =
     \<lparr>exc_kind = ConnectTimeout, exc_msg = ''ERR_CONNECTION_TIMED_OUT (net error -118)''\<rparr>"
proof -
  have c: "net_error_code ''Network (Chromium net error -118)'' = Some (- 118)"
    by (simp add: match_int_def read_eval)
  have n: "named_error (- 118) = Some (''ERR_CONNECTION_TIMED_OUT'', Some ConnectTimeout)"
    by (simp add: named_error_def NET_ERRORS_def)
  have t: "net_error_text ''ERR_CONNECTION_TIMED_OUT'' (- 118) =
      ''ERR_CONNECTION_TIMED_OUT (net error -118)''" by (simp add: net_error_text_def show_eval)
  show ?thesis using native_error_code_decides [OF c n] unfolding t .
qed

text \<open>
  Naming the net error of a message twice changes nothing the second time: the text
  the facade writes is read back as the same code.
\<close>

theorem name_net_error_idempotent:
  "name_net_error (name_net_error text) = name_net_error text"
proof (cases "\<exists>c n k. net_error_code text = Some c \<and> named_error c = Some (n, k)")
  case True
  then obtain c n k where c: "net_error_code text = Some c" "named_error c = Some (n, k)" by auto
  then have "name_net_error text = net_error_text n c" by (simp add: name_net_error_def)
  moreover have "net_error_code (net_error_text n c) = Some c"
    using c(2) by (intro net_error_code_text) (rule named_name_no_n)
  ultimately show ?thesis using c(2) by (simp add: name_net_error_def)
next
  case False
  then have "name_net_error text = text"
    by (auto simp: name_net_error_def split: option.splits)
  then show ?thesis by simp
qed

end
