(* ===== verification/Impersonate.thy ===== *)
theory Impersonate
  imports Exceptions
begin

text \<open>
  \<open>bindings/python/chrome_client/_python_impl/impersonate.py\<close>: the choice of the pinned
  profile and of the protocol, and the rejection of fingerprint overrides.  A rejected
  request is \<open>Inl\<close> the exception class; the messages are not modelled.
\<close>

section \<open>Protocol version\<close>

datatype argument = ArgNone | ArgStr string | ArgOther

definition HTTP_VERSIONS :: "(string \<times> string option) list" where
  "HTTP_VERSIONS = [
     ('''', None), (''native'', None), (''auto'', None),
     (''v1'', Some ''v1''), (''1'', Some ''v1''), (''1.0'', Some ''v1''), (''1.1'', Some ''v1''),
     (''h1'', Some ''v1''), (''http/1.1'', Some ''v1''), (''http1'', Some ''v1''),
     (''v2'', Some ''v2''), (''2'', Some ''v2''), (''2.0'', Some ''v2''), (''h2'', Some ''v2''),
     (''http/2'', Some ''v2''), (''http2'', Some ''v2''),
     (''v3'', Some ''v3''), (''3'', Some ''v3''), (''3.0'', Some ''v3''), (''h3'', Some ''v3''),
     (''http/3'', Some ''v3''), (''http3'', Some ''v3'')]"

definition normalize_http_version :: "argument \<Rightarrow> exc_class + string option" where
  "normalize_http_version value =
     (case value of
        ArgNone \<Rightarrow> Inr None
      | ArgStr s \<Rightarrow> (case map_of HTTP_VERSIONS (py_lower (py_strip s)) of
                       Some v \<Rightarrow> Inr v | None \<Rightarrow> Inl UnsupportedFeature)
      | ArgOther \<Rightarrow> Inl UnsupportedFeature)"

section \<open>Profiles\<close>

definition LATEST_CHROME :: nat where "LATEST_CHROME = 153"
definition OLDEST_CHROME :: nat where "OLDEST_CHROME = 99"

definition chrome_id :: "nat \<Rightarrow> string" where
  "chrome_id n = ''chrome_'' @ show_nat n"

definition ALIASES :: "(string \<times> string) list" where
  "ALIASES = [(''chrome'', chrome_id LATEST_CHROME), (''chromium'', chrome_id LATEST_CHROME)]"

definition UNSUPPORTED_FAMILIES :: "string list" where
  "UNSUPPORTED_FAMILIES = [''edge'', ''safari'', ''firefox'', ''tor'', ''chrome_android'',
     ''chrome-android'', ''safari_ios'', ''okhttp'']"

text \<open>
  The \<open>impersonate=\<close> argument: nothing, a name, or an object of which the attributes
  \<open>profile\<close> and then \<open>impersonate\<close> are read.
\<close>

datatype target = TNone | TStr string | TObj "string option" "string option"

definition py_or :: "string option \<Rightarrow> string option \<Rightarrow> string option" where
  "py_or a b = (case a of Some (c # s) \<Rightarrow> Some (c # s) | _ \<Rightarrow> b)"

text \<open>\<open>int(s)\<close> for a string that \<open>isdigit\<close> accepts: the superscripts are no decimal digits.\<close>

definition int_of_digits :: "string \<Rightarrow> exc_class + nat" where
  "int_of_digits s = (if list_all ascii_digit s then Inr (read_nat s) else Inl ValueError)"

definition chrome_major :: "string \<Rightarrow> string option" where
  "chrome_major lowered =
     (if startswith lowered ''chrome''
      then Some (hd (split_on CHR ''.'' (lstrip_by (\<lambda>c. c \<in> set ''_-'') (drop 6 lowered))))
      else None)"

definition normalize_name :: "string \<Rightarrow> exc_class + string option" where
  "normalize_name value =
     (let name = py_strip value; lowered = py_lower name
      in case map_of ALIASES lowered of
           Some p \<Rightarrow> Inr (Some p)
         | None \<Rightarrow>
             if list_ex (\<lambda>family. startswith lowered family) UNSUPPORTED_FAMILIES
             then Inl ImpersonateError
             else (case chrome_major lowered of
                     Some major \<Rightarrow>
                       if py_isdigit major
                       then bind_res (int_of_digits major) (\<lambda>number.
                              if \<not> (OLDEST_CHROME \<le> number \<and> number \<le> LATEST_CHROME)
                              then Inl ImpersonateError
                              else Inr (Some (chrome_id number)))
                       else Inr (Some name)
                   | None \<Rightarrow> Inr (Some name)))"

fun normalize_impersonate :: "target \<Rightarrow> exc_class + string option" where
  "normalize_impersonate TNone = Inr None"
| "normalize_impersonate (TStr s) = normalize_name s"
| "normalize_impersonate (TObj profile impersonate) =
     (case py_or profile impersonate of
        None \<Rightarrow> Inl ImpersonateError
      | Some s \<Rightarrow> normalize_name s)"

definition available_profiles :: "string list" where
  "available_profiles = map chrome_id [OLDEST_CHROME ..< LATEST_CHROME + 1]"

section \<open>Fingerprint overrides\<close>

datatype fp_value = FNone | FBool bool | FInt int | FStr string | FSeq "string list"

text \<open>Python's \<open>==\<close>: a Boolean equals the integer it stands for.\<close>

fun fp_num :: "fp_value \<Rightarrow> int option" where
  "fp_num (FBool b) = Some (if b then 1 else 0)"
| "fp_num (FInt i) = Some i"
| "fp_num _ = None"

definition fp_eq :: "fp_value \<Rightarrow> fp_value \<Rightarrow> bool" where
  "fp_eq a b \<longleftrightarrow> a = b \<or> (fp_num a \<noteq> None \<and> fp_num a = fp_num b)"

definition fp_in :: "fp_value \<Rightarrow> fp_value list \<Rightarrow> bool" where
  "fp_in v vs \<longleftrightarrow> list_ex (fp_eq v) vs"

fun truthy :: "fp_value \<Rightarrow> bool" where
  "truthy FNone = False"
| "truthy (FBool b) = b"
| "truthy (FInt i) = (i \<noteq> 0)"
| "truthy (FStr s) = (s \<noteq> [])"
| "truthy (FSeq xs) = (xs \<noteq> [])"

definition FP_DEFAULTS :: "(string, fp_value) odict" where
  "FP_DEFAULTS = [
     (''tls_min_version'', FNone), (''tls_grease'', FNone), (''tls_permute_extensions'', FNone),
     (''tls_cert_compression'', FNone), (''tls_signature_algorithms'', FNone),
     (''tls_delegated_credential'', FStr ''''), (''tls_record_size_limit'', FInt 0),
     (''http2_stream_weight'', FNone), (''http2_stream_exclusive'', FNone),
     (''http2_no_priority'', FBool False), (''header_order'', FNone), (''split_cookies'', FNone),
     (''form_boundary'', FNone), (''http3_sig_hash_algs'', FNone),
     (''http3_tls_extension_order'', FNone)]"

text \<open>\<open>ExtraFingerprints(**kwargs).as_dict()\<close>\<close>

definition extra_fingerprints :: "(string \<times> fp_value) list \<Rightarrow> exc_class + (string, fp_value) odict" where
  "extra_fingerprints kwargs =
     (if list_all (\<lambda>(k, v). od_has FP_DEFAULTS k) kwargs then Inr (od_update FP_DEFAULTS kwargs)
      else Inl TypeError)"

definition HONOURED_EXTRA_FP :: "string list" where
  "HONOURED_EXTRA_FP = [''header_order'', ''form_boundary'']"

definition NEUTRAL_EXTRA_FP :: "(string \<times> fp_value list) list" where
  "NEUTRAL_EXTRA_FP = [(''tls_delegated_credential'', [FStr '''', FNone]),
     (''tls_record_size_limit'', [FInt 0, FNone]), (''http2_no_priority'', [FBool False, FNone])]"

definition fp_supported :: "string \<Rightarrow> fp_value \<Rightarrow> bool" where
  "fp_supported name value \<longleftrightarrow>
     name \<in> set HONOURED_EXTRA_FP
     \<or> (case map_of NEUTRAL_EXTRA_FP name of Some vs \<Rightarrow> fp_in value vs | None \<Rightarrow> False)
     \<or> fp_in value [FNone, FBool False]"

definition validate_extra_fp ::
    "(string, fp_value) odict option \<Rightarrow> exc_class + fp_value option \<times> fp_value option" where
  "validate_extra_fp extra_fp =
     (case extra_fp of
        None \<Rightarrow> Inr (None, None)
      | Some values \<Rightarrow>
          if filter (\<lambda>(name, value). \<not> fp_supported name value) values \<noteq> []
          then Inl UnsupportedFeature
          else Inr (od_get values ''header_order'', od_get values ''form_boundary''))"

definition reject_fingerprint_overrides :: "fp_value \<Rightarrow> fp_value \<Rightarrow> fp_value \<Rightarrow> exc_class + unit" where
  "reject_fingerprint_overrides ja3 akamai perk =
     (if list_ex truthy [ja3, akamai, perk] then Inl UnsupportedFeature else Inr ())"

section \<open>Lemmas\<close>

lemma show_nat_Cons: "\<exists>c r. show_nat n = c # r \<and> ascii_digit c"
  using show_nat_digits [of n] by (cases "show_nat n") auto

lemma ascii_digit_cp: "ascii_digit c \<Longrightarrow> 48 \<le> cp c \<and> cp c \<le> 57"
  by (simp add: ascii_digit_def)

lemma lower_digit: "ascii_digit c \<Longrightarrow> lower_char c = c"
  by (auto simp: lower_char_def ascii_digit_def Let_def)

lemma py_lower_digits: "list_all ascii_digit s \<Longrightarrow> py_lower s = s"
  by (induction s) (auto simp: py_lower_Cons lower_digit)

lemma py_lower_chrome: "py_lower ''chrome'' = ''chrome''" "py_lower ''_'' = ''_''"
  by (simp_all add: py_lower_def py_str)

lemma strip_no_space: "s \<noteq> [] \<Longrightarrow> \<not> py_isspace (hd s) \<Longrightarrow> \<not> py_isspace (last s) \<Longrightarrow> py_strip s = s"
proof -
  assume a: "s \<noteq> []" "\<not> py_isspace (hd s)" "\<not> py_isspace (last s)"
  then have "dropWhile py_isspace s = s" by (cases s) auto
  moreover have "dropWhile py_isspace (rev s) = rev s"
    using a by (cases s rule: rev_cases) auto
  ultimately show ?thesis by (simp add: py_strip_def strip_by_def)
qed

lemma digit_not_space: "ascii_digit c \<Longrightarrow> \<not> py_isspace c"
  by (auto simp: ascii_digit_def py_isspace_def Let_def)

lemma last_show_nat: "ascii_digit (last (show_nat n))"
  using show_nat_digits [of n] by (auto simp: list_all_iff)

lemma split_dot_digits: "list_all ascii_digit s \<Longrightarrow> split_on CHR ''.'' s = [s]"
  by (rule split_on_no_sep) (auto simp: list_all_iff ascii_digit_def)

lemma normalize_chrome_number:
  assumes "OLDEST_CHROME \<le> n" and "n \<le> LATEST_CHROME" and "sep = [] \<or> sep = ''_''"
  shows "normalize_name (''chrome'' @ sep @ show_nat n) = Inr (Some (chrome_id n))"
proof -
  obtain c r where cr: "show_nat n = c # r" "ascii_digit c" using show_nat_Cons by blast
  have digits: "list_all ascii_digit (c # r)" using show_nat_digits [of n] cr by simp
  have c: "c \<notin> set ''_-am''" using ascii_digit_cp [OF cr(2)] by auto
  let ?s = "''chrome'' @ sep @ show_nat n"
  have "last ?s = last (show_nat n)" using cr by simp
  then have strip: "py_strip ?s = ?s"
    using digit_not_space [OF last_show_nat [of n]]
    by (intro strip_no_space) (auto simp: py_isspace_def)
  have lower: "py_lower ?s = ?s"
    using assms(3) digits by (auto simp: cr py_lower_chrome py_lower_digits simp del: append_Cons append_Nil
        intro: arg_cong2 [where f = "(@)"])
  have no_alias: "map_of ALIASES ?s = None"
    using assms(3) c by (auto simp: ALIASES_def cr)
  have family: "\<not> list_ex (startswith ?s) UNSUPPORTED_FAMILIES"
    using assms(3) c by (auto simp: UNSUPPORTED_FAMILIES_def cr)
  have major: "chrome_major ?s = Some (show_nat n)"
    using assms(3) c split_dot_digits [OF digits]
    by (auto simp: chrome_major_def lstrip_by_def cr)
  show ?thesis
    unfolding normalize_name_def Let_def strip lower no_alias
    using assms(1,2) isdigit_show_nat [of n] show_nat_digits [of n]
    by (simp add: family major int_of_digits_def del: append_Cons append_Nil)
qed

lemma chrome_id_split: "chrome_id n = ''chrome'' @ ''_'' @ show_nat n"
  by (simp add: chrome_id_def)

lemma normalize_cases:
  assumes "normalize_name v = Inr (Some s)"
  obtains (profile) n where "OLDEST_CHROME \<le> n" "n \<le> LATEST_CHROME" "s = chrome_id n"
  | (verbatim) "s = py_strip v"
      "\<not> (\<exists>m. chrome_major (py_lower s) = Some m \<and> py_isdigit m)"
proof (cases "map_of ALIASES (py_lower (py_strip v))")
  case (Some p)
  then have "p = chrome_id LATEST_CHROME" by (auto simp: ALIASES_def split: if_splits)
  with Some assms profile [of LATEST_CHROME] show ?thesis
    by (simp add: normalize_name_def Let_def OLDEST_CHROME_def LATEST_CHROME_def)
next
  case None
  show ?thesis
  proof (cases "\<exists>m. chrome_major (py_lower (py_strip v)) = Some m \<and> py_isdigit m")
    case True
    with None assms show ?thesis
      by (auto simp: normalize_name_def Let_def int_of_digits_def bind_res_Inr split: if_splits
          intro: profile)
  next
    case False
    with None assms show ?thesis
      by (auto simp: normalize_name_def Let_def split: if_splits option.splits intro: verbatim)
  qed
qed

section \<open>Properties\<close>

text \<open>
  A name that is accepted is either mapped to one of the pinned profiles or handed on
  verbatim, and a name that gives a Chrome major number is never handed on: a major
  outside the pinned range is rejected, not replaced by another one.
\<close>

theorem impersonate_pinned_or_verbatim:
  assumes "normalize_impersonate (TStr v) = Inr (Some s)"
  shows "s \<in> set available_profiles
     \<or> s = py_strip v \<and> \<not> (\<exists>m. chrome_major (py_lower s) = Some m \<and> py_isdigit m)"
proof -
  from assms have "normalize_name v = Inr (Some s)" by simp
  then show ?thesis
    by (cases rule: normalize_cases) (auto simp: available_profiles_def less_Suc_eq_le simp del: upt_Suc)
qed

theorem impersonate_pinned_or_verbatim_witness:
  "chrome_id 120 \<in> set available_profiles \<or> chrome_id 120 = py_strip (''chrome'' @ [] @ show_nat 120)
     \<and> \<not> (\<exists>m. chrome_major (py_lower (chrome_id 120)) = Some m \<and> py_isdigit m)"
  by (rule impersonate_pinned_or_verbatim)
     (simp only: normalize_impersonate.simps, rule normalize_chrome_number,
      simp_all add: OLDEST_CHROME_def LATEST_CHROME_def)

text \<open>
  Resolving a profile twice gives the profile of the first time, and both spellings of
  every pinned major resolve to its identifier.
\<close>

theorem impersonate_idempotent:
  assumes "normalize_impersonate (TStr v) = Inr (Some s)"
  shows "normalize_impersonate (TStr s) = Inr (Some s)"
proof -
  from assms have n: "normalize_name v = Inr (Some s)" by simp
  then show ?thesis
  proof (cases rule: normalize_cases)
    case (profile k)
    then show ?thesis
      using normalize_chrome_number [of k "''_''"] by (simp add: chrome_id_split)
  next
    case verbatim
    have "normalize_name (py_strip v) = normalize_name v"
      by (simp add: normalize_name_def)
    with n verbatim(1) show ?thesis by simp
  qed
qed

theorem impersonate_idempotent_witness:
  "normalize_impersonate (TStr (chrome_id 99)) = Inr (Some (chrome_id 99))"
  by (rule impersonate_idempotent [of "''chrome'' @ [] @ show_nat 99"])
     (simp only: normalize_impersonate.simps, rule normalize_chrome_number,
      simp_all add: OLDEST_CHROME_def LATEST_CHROME_def)

text \<open>
  An accepted set of fingerprint overrides asks for nothing but the header order and
  the multipart boundary: every other field has a false value.
\<close>

theorem extra_fp_accepts_only_neutral:
  assumes "validate_extra_fp (Some values) = Inr r"
  shows "(\<forall>(name, value) \<in> set values. name \<in> set HONOURED_EXTRA_FP \<or> \<not> truthy value)
     \<and> r = (od_get values ''header_order'', od_get values ''form_boundary'')"
proof -
  have "n \<in> set HONOURED_EXTRA_FP \<or> \<not> truthy v" if "fp_supported n v" for n v
    using that
    by (cases v) (auto simp: fp_supported_def fp_in_def fp_eq_def NEUTRAL_EXTRA_FP_def
        split: if_splits option.splits)
  with assms show ?thesis
    by (auto simp: validate_extra_fp_def filter_empty_conv split: if_splits)
qed

theorem extra_fp_accepts_only_neutral_witness:
  "(\<forall>(name, value) \<in> set [(''header_order'', FSeq [''Host'']), (''tls_grease'', FBool False)].
      name \<in> set HONOURED_EXTRA_FP \<or> \<not> truthy value)
   \<and> (Some (FSeq [''Host'']), None) =
      (od_get [(''header_order'', FSeq [''Host'']), (''tls_grease'', FBool False)] ''header_order'',
       od_get [(''header_order'', FSeq [''Host'']), (''tls_grease'', FBool False)] ''form_boundary'')"
  by (rule extra_fp_accepts_only_neutral) code_simp

text \<open>
  Every field of the overrides may be asked to be off (\<open>False\<close> or \<open>0\<close>) and is then
  accepted without effect, also \<open>tls_grease\<close> and \<open>tls_permute_extensions\<close>, which the
  profiles have on.
\<close>

theorem extra_fp_false_ignored:
  "validate_extra_fp (Some [(name, FBool False)]) =
     Inr (od_get [(name, FBool False)] ''header_order'', od_get [(name, FBool False)] ''form_boundary'')
   \<and> validate_extra_fp (Some [(name, FInt 0)]) =
     Inr (od_get [(name, FInt 0)] ''header_order'', od_get [(name, FInt 0)] ''form_boundary'')"
  by (simp add: validate_extra_fp_def fp_supported_def fp_in_def fp_eq_def)

end
