(* ===== verification/Status_Codes.thy ===== *)
theory Status_Codes
  imports Structures
begin

text \<open>
  \<open>bindings/python/chrome_client/_python_impl/status_codes.py\<close> and \<open>LookupDict\<close> of
  \<open>structures.py\<close>: the status titles, the reason phrases, and the table \<open>codes\<close> that
  the module builds from the titles when it is imported.  The two titles that are a check
  mark and a cross (U+2713, U+2717) are outside the 8-bit string model and left out.
\<close>

section \<open>LookupDict\<close>

text \<open>
  A dictionary that also has instance attributes; \<open>get\<close> looks in the attributes first,
  and one attribute is the table's own name.
\<close>

datatype ld_value = LdName string | LdCode nat

record lookup_dict =
  ld_attrs :: "(string, ld_value) odict"
  ld_items :: "(string, ld_value) odict"

definition ld_init :: "string \<Rightarrow> lookup_dict" where
  "ld_init name = \<lparr>ld_attrs = [(''name'', LdName name)], ld_items = []\<rparr>"

definition ld_setattr :: "string \<Rightarrow> ld_value \<Rightarrow> lookup_dict \<Rightarrow> lookup_dict" where
  "ld_setattr k v d = d\<lparr>ld_attrs := od_put k v (ld_attrs d)\<rparr>"

definition ld_setitem :: "string \<Rightarrow> ld_value \<Rightarrow> lookup_dict \<Rightarrow> lookup_dict" where
  "ld_setitem k v d = d\<lparr>ld_items := od_put k v (ld_items d)\<rparr>"

text \<open>Attribute access: the instance attribute, else the item, else \<open>AttributeError\<close>.\<close>

datatype attr_error = AttributeError string

definition ld_getattr :: "lookup_dict \<Rightarrow> string \<Rightarrow> attr_error + ld_value" where
  "ld_getattr d k = (case od_get (ld_attrs d) k of Some v \<Rightarrow> Inr v
     | None \<Rightarrow> (case od_get (ld_items d) k of Some v \<Rightarrow> Inr v | None \<Rightarrow> Inl (AttributeError k)))"

definition ld_get :: "lookup_dict \<Rightarrow> string \<Rightarrow> ld_value option" where
  "ld_get d k = (case od_get (ld_attrs d) k of Some v \<Rightarrow> Some v | None \<Rightarrow> od_get (ld_items d) k)"

section \<open>The tables\<close>

definition TITLES :: "(nat \<times> string list) list" where
  "TITLES = [
     (100, [''continue'']),
     (101, [''switching_protocols'']),
     (102, [''processing'', ''early-hints'']),
     (103, [''checkpoint'']),
     (122, [''uri_too_long'', ''request_uri_too_long'']),
     (200, [''ok'', ''okay'', ''all_ok'', ''all_okay'', ''all_good'', [CHR 0x5C, CHR ''o'', CHR ''/'']]),
     (201, [''created'']),
     (202, [''accepted'']),
     (203, [''non_authoritative_info'', ''non_authoritative_information'']),
     (204, [''no_content'']),
     (205, [''reset_content'', ''reset'']),
     (206, [''partial_content'', ''partial'']),
     (207, [''multi_status'', ''multiple_status'', ''multi_stati'', ''multiple_stati'']),
     (208, [''already_reported'']),
     (226, [''im_used'']),
     (300, [''multiple_choices'']),
     (301, [''moved_permanently'', ''moved'', [CHR 0x5C, CHR ''o'', CHR ''-'']]),
     (302, [''found'']),
     (303, [''see_other'', ''other'']),
     (304, [''not_modified'']),
     (305, [''use_proxy'']),
     (306, [''switch_proxy'']),
     (307, [''temporary_redirect'', ''temporary_moved'', ''temporary'']),
     (308, [''permanent_redirect'', ''resume_incomplete'', ''resume'']),
     (400, [''bad_request'', ''bad'']),
     (401, [''unauthorized'']),
     (402, [''payment_required'', ''payment'']),
     (403, [''forbidden'']),
     (404, [''not_found'', ''-o-'']),
     (405, [''method_not_allowed'', ''not_allowed'']),
     (406, [''not_acceptable'']),
     (407, [''proxy_authentication_required'', ''proxy_auth'', ''proxy_authentication'']),
     (408, [''request_timeout'', ''timeout'']),
     (409, [''conflict'']),
     (410, [''gone'']),
     (411, [''length_required'']),
     (412, [''precondition_failed'', ''precondition'']),
     (413, [''request_entity_too_large'', ''content_too_large'']),
     (414, [''request_uri_too_large'', ''uri_too_long'']),
     (415, [''unsupported_media_type'', ''unsupported_media'', ''media_type'']),
     (416, [''requested_range_not_satisfiable'', ''requested_range'', ''range_not_satisfiable'']),
     (417, [''expectation_failed'']),
     (418, [''im_a_teapot'', ''teapot'', ''i_am_a_teapot'']),
     (421, [''misdirected_request'']),
     (422, [''unprocessable_entity'', ''unprocessable'', ''unprocessable_content'']),
     (423, [''locked'']),
     (424, [''failed_dependency'', ''dependency'']),
     (425, [''unordered_collection'', ''unordered'', ''too_early'']),
     (426, [''upgrade_required'', ''upgrade'']),
     (428, [''precondition_required'', ''precondition'']),
     (429, [''too_many_requests'', ''too_many'']),
     (431, [''header_fields_too_large'', ''fields_too_large'']),
     (444, [''no_response'', ''none'']),
     (449, [''retry_with'', ''retry'']),
     (450, [''blocked_by_windows_parental_controls'', ''parental_controls'']),
     (451, [''unavailable_for_legal_reasons'', ''legal_reasons'']),
     (499, [''client_closed_request'']),
     (500, [''internal_server_error'', ''server_error'', [CHR ''/'', CHR ''o'', CHR 0x5C]]),
     (501, [''not_implemented'']),
     (502, [''bad_gateway'']),
     (503, [''service_unavailable'', ''unavailable'']),
     (504, [''gateway_timeout'']),
     (505, [''http_version_not_supported'', ''http_version'']),
     (506, [''variant_also_negotiates'']),
     (507, [''insufficient_storage'']),
     (509, [''bandwidth_limit_exceeded'', ''bandwidth'']),
     (510, [''not_extended'']),
     (511, [''network_authentication_required'', ''network_auth'', ''network_authentication''])]"

definition REASONS :: "(nat \<times> string) list" where
  "REASONS = [
     (100, ''Continue''), (101, ''Switching Protocols''),
     (102, ''Processing''), (103, ''Early Hints''),
     (200, ''OK''), (201, ''Created''),
     (202, ''Accepted''), (203, ''Non-Authoritative Information''),
     (204, ''No Content''), (205, ''Reset Content''),
     (206, ''Partial Content''), (207, ''Multi-Status''),
     (208, ''Already Reported''), (226, ''IM Used''),
     (300, ''Multiple Choices''), (301, ''Moved Permanently''),
     (302, ''Found''), (303, ''See Other''),
     (304, ''Not Modified''), (305, ''Use Proxy''),
     (307, ''Temporary Redirect''), (308, ''Permanent Redirect''),
     (400, ''Bad Request''), (401, ''Unauthorized''),
     (402, ''Payment Required''), (403, ''Forbidden''),
     (404, ''Not Found''), (405, ''Method Not Allowed''),
     (406, ''Not Acceptable''), (407, ''Proxy Authentication Required''),
     (408, ''Request Timeout''), (409, ''Conflict''),
     (410, ''Gone''), (411, ''Length Required''),
     (412, ''Precondition Failed''), (413, ''Content Too Large''),
     (414, ''URI Too Long''), (415, ''Unsupported Media Type''),
     (416, ''Range Not Satisfiable''), (417, ''Expectation Failed''),
     (418, (''I'' @ [char_of (39::nat)] @ ''m a teapot'')), (421, ''Misdirected Request''),
     (422, ''Unprocessable Content''), (423, ''Locked''),
     (424, ''Failed Dependency''), (425, ''Too Early''),
     (426, ''Upgrade Required''), (428, ''Precondition Required''),
     (429, ''Too Many Requests''), (431, ''Request Header Fields Too Large''),
     (451, ''Unavailable For Legal Reasons''), (500, ''Internal Server Error''),
     (501, ''Not Implemented''), (502, ''Bad Gateway''),
     (503, ''Service Unavailable''), (504, ''Gateway Timeout''),
     (505, ''HTTP Version Not Supported''), (506, ''Variant Also Negotiates''),
     (507, ''Insufficient Storage''), (508, ''Loop Detected''),
     (510, ''Not Extended''), (511, ''Network Authentication Required'')]"

text \<open>One title: itself, and its upper-case alias unless it starts with a slash or backslash.\<close>

definition add_title :: "nat \<Rightarrow> string \<Rightarrow> lookup_dict \<Rightarrow> lookup_dict" where
  "add_title c t d =
     (let d1 = ld_setitem t (LdCode c) (ld_setattr t (LdCode c) d)
      in if startswith t [CHR 0x5C] \<or> startswith t ''/'' then d1
         else ld_setitem (py_upper t) (LdCode c) (ld_setattr (py_upper t) (LdCode c) d1))"

definition build_codes :: "(nat \<times> string list) list \<Rightarrow> lookup_dict \<Rightarrow> lookup_dict" where
  "build_codes rows d = fold (\<lambda>(c, ts) d. fold (add_title c) ts d) rows d"

definition codes :: lookup_dict where
  "codes = build_codes TITLES (ld_init ''status_codes'')"

section \<open>Attributes and items agree\<close>

definition ld_agree :: "lookup_dict \<Rightarrow> bool" where
  "ld_agree d \<longleftrightarrow> (\<forall>k. k \<noteq> ''name'' \<longrightarrow> od_get (ld_attrs d) k = od_get (ld_items d) k)"

lemma ld_agree_add_title: "ld_agree d \<Longrightarrow> ld_agree (add_title c t d)"
  by (auto simp: ld_agree_def add_title_def Let_def ld_setitem_def ld_setattr_def od_get_put)

lemma ld_agree_titles: "ld_agree d \<Longrightarrow> ld_agree (fold (add_title c) ts d)"
  by (induction ts arbitrary: d) (auto simp: ld_agree_add_title)

lemma ld_agree_build: "ld_agree d \<Longrightarrow> ld_agree (build_codes rows d)"
  by (induction rows arbitrary: d) (auto simp: build_codes_def ld_agree_titles)

text \<open>The names one row defines.\<close>

definition title_names :: "string list \<Rightarrow> string list" where
  "title_names ts = ts @ map py_upper (filter (\<lambda>t. \<not> startswith t [CHR 0x5C] \<and> \<not> startswith t ''/'') ts)"

lemma ld_items_add_title:
  "od_get (ld_items (add_title c t d)) k =
     (if k \<in> set (title_names [t]) then Some (LdCode c) else od_get (ld_items d) k)"
  by (auto simp: title_names_def add_title_def Let_def ld_setitem_def ld_setattr_def od_get_put)

lemma ld_items_titles:
  "od_get (ld_items (fold (add_title c) ts d)) k =
     (if k \<in> set (title_names ts) then Some (LdCode c) else od_get (ld_items d) k)"
proof (induction ts arbitrary: d)
  case (Cons t ts)
  have "set (title_names (t # ts)) = set (title_names [t]) \<union> set (title_names ts)"
    by (auto simp: title_names_def)
  with Cons show ?case by (auto simp: ld_items_add_title)
qed (simp add: title_names_def)

text \<open>
  A status name (or its upper-case alias) resolves to the last status of the table
  that lists it, and reading it as an attribute or as an item gives the same number.
\<close>

theorem codes_resolve_last:
  assumes "k \<noteq> ''name''"
  shows "ld_get codes k = map_option (LdCode \<circ> fst) (find (\<lambda>(c, ts). k \<in> set (title_names ts)) (rev TITLES))
       \<and> ld_getattr codes k = (case ld_get codes k of None \<Rightarrow> Inl (AttributeError k) | Some v \<Rightarrow> Inr v)"
proof -
  have build: "od_get (ld_items (build_codes rows d)) k =
      (case find (\<lambda>(c, ts). k \<in> set (title_names ts)) (rev rows) of
         Some (c, ts) \<Rightarrow> Some (LdCode c) | None \<Rightarrow> od_get (ld_items d) k)" for rows d
  proof (induction rows rule: rev_induct)
    case (snoc r rows)
    then show ?case by (cases r) (auto simp: build_codes_def ld_items_titles)
  qed (simp add: build_codes_def)
  have "ld_agree codes"
    unfolding codes_def
    by (rule ld_agree_build) (simp add: ld_agree_def ld_init_def od_get_def)
  then have "od_get (ld_attrs codes) k = od_get (ld_items codes) k"
    using assms by (simp add: ld_agree_def)
  then show ?thesis
    using build [of TITLES "ld_init ''status_codes''"]
    by (auto simp: ld_get_def ld_getattr_def codes_def ld_init_def comp_def
        split: option.splits prod.splits)
qed

theorem codes_resolve_last_witness:
  "ld_get codes ''network_auth'' = Some (LdCode 511)"
proof -
  have "hd (rev TITLES) = (511, [''network_authentication_required'', ''network_auth'', ''network_authentication''])"
    unfolding hd_rev by (simp add: TITLES_def)
  then have "find (\<lambda>(c, ts). ''network_auth'' \<in> set (title_names ts)) (rev TITLES) =
      Some (511, [''network_authentication_required'', ''network_auth'', ''network_authentication''])"
    by (cases "rev TITLES") (auto simp: TITLES_def title_names_def)
  then show ?thesis using codes_resolve_last [of "''network_auth''"] by simp
qed

end
