(* ===== verification/Engine.thy ===== *)
theory Engine
  imports Exceptions
begin

text \<open>
  \<open>bindings/python/chrome_client/_python_impl/engine.py\<close>: the configuration of a Core
  engine, and the bounded cache of engines a session keeps.  The Core itself is not under
  \<open>_python_impl\<close>: constructing an engine is a parameter \<open>new_engine\<close> from the
  arguments handed to \<open>PyEngine\<close> to an error text or an engine.
\<close>

section \<open>EngineConfig\<close>

record config =
  cfg_impersonate :: "string option"
  cfg_proxy :: "string option"
  cfg_verify :: bool
  cfg_ca_pem :: "string option"
  cfg_user_agent :: "string option"
  cfg_accept_language :: "string option"
  cfg_proxy_username :: "string option"
  cfg_proxy_password :: "string option"
  cfg_http_version :: "string option"
  cfg_cache :: bool
  cfg_profile_namespace :: "string option"
  cfg_generation :: nat

text \<open>The eleven arguments of \<open>PyEngine\<close>: everything but the generation.\<close>

datatype engine_args = EngineArgs "string option" "string option" bool "string option"
  "string option" "string option" "string option" "string option" "string option" bool
  "string option"

definition engine_args :: "config \<Rightarrow> engine_args" where
  "engine_args c = EngineArgs (cfg_impersonate c) (cfg_proxy c) (cfg_verify c) (cfg_ca_pem c)
     (cfg_user_agent c) (cfg_accept_language c) (cfg_proxy_username c) (cfg_proxy_password c)
     (cfg_http_version c) (cfg_cache c) (cfg_profile_namespace c)"

definition config_build :: "(engine_args \<Rightarrow> string + 'e) \<Rightarrow> config \<Rightarrow> exc + 'e" where
  "config_build new_engine c =
     (case new_engine (engine_args c) of
        Inl message \<Rightarrow> Inl (map_native_error message)
      | Inr e \<Rightarrow> Inr e)"

text \<open>\<open>config.replace(generation=g)\<close>; the key is the tuple of all twelve fields.\<close>

definition config_replace :: "nat \<Rightarrow> config \<Rightarrow> config" where
  "config_replace g c = c\<lparr>cfg_generation := g\<rparr>"

lemma config_replace_same [simp]: "cfg_generation (config_replace g c) = g"
  by (simp add: config_replace_def)

lemma engine_args_replace [simp]: "engine_args (config_replace g c) = engine_args c"
  by (simp add: engine_args_def config_replace_def)

section \<open>EngineCache\<close>

record 's cache =
  ec_slots :: "(config, 's) odict"
  ec_order :: "config list"
  ec_max :: nat
  ec_pid :: int
  ec_closed :: bool

definition DEFAULT_MAX_ENGINES :: int where "DEFAULT_MAX_ENGINES = 8"

definition ec_init :: "int \<Rightarrow> int \<Rightarrow> 's cache" where
  "ec_init max_engines pid =
     \<lparr>ec_slots = [], ec_order = [], ec_max = nat (max 1 max_engines), ec_pid = pid, ec_closed = False\<rparr>"

definition ec_reset_after_fork :: "int \<Rightarrow> 's cache \<Rightarrow> 's cache" where
  "ec_reset_after_fork pid c =
     (if pid \<noteq> ec_pid c then c\<lparr>ec_slots := [], ec_order := [], ec_pid := pid\<rparr> else c)"

text \<open>\<open>while len(order) > max: slots.pop(order.pop(0), None)\<close>\<close>

fun ec_evict :: "nat \<Rightarrow> config list \<Rightarrow> (config, 's) odict \<Rightarrow> config list \<times> (config, 's) odict" where
  "ec_evict m [] slots = ([], slots)"
| "ec_evict m (k # ks) slots =
     (if m < length (k # ks) then ec_evict m ks (od_del k slots) else (k # ks, slots))"

text \<open>
  \<open>get(config)\<close>.  \<open>pid\<close> is the process asking and \<open>built\<close> what constructing the slot
  gives; it is looked at only when the configuration is not cached.
\<close>

definition ec_get :: "int \<Rightarrow> exc + 's \<Rightarrow> config \<Rightarrow> 's cache \<Rightarrow> (exc + 's) \<times> 's cache" where
  "ec_get pid built cfg c =
     (if ec_closed c then (raise_exc RequestException ''Session is closed'', c)
      else
        let c1 = ec_reset_after_fork pid c
        in case od_get (ec_slots c1) cfg of
             Some slot \<Rightarrow> (Inr slot, c1\<lparr>ec_order := remove1 cfg (ec_order c1) @ [cfg]\<rparr>)
           | None \<Rightarrow>
               (case built of
                  Inl e \<Rightarrow> (Inl e, c1)
                | Inr slot \<Rightarrow>
                    (let (order, slots) = ec_evict (ec_max c1) (ec_order c1 @ [cfg])
                                            (od_put cfg slot (ec_slots c1))
                     in (Inr slot, c1\<lparr>ec_slots := slots, ec_order := order\<rparr>))))"

definition ec_discard :: "config \<Rightarrow> 's cache \<Rightarrow> 's cache" where
  "ec_discard cfg c =
     (if od_has (ec_slots c) cfg
      then c\<lparr>ec_slots := od_del cfg (ec_slots c), ec_order := remove1 cfg (ec_order c)\<rparr>
      else c)"

definition ec_clear :: "'s cache \<Rightarrow> 's cache" where
  "ec_clear c = c\<lparr>ec_slots := [], ec_order := []\<rparr>"

definition ec_close :: "'s cache \<Rightarrow> 's cache" where
  "ec_close c = c\<lparr>ec_closed := True, ec_slots := [], ec_order := []\<rparr>"

definition ec_len :: "'s cache \<Rightarrow> nat" where
  "ec_len c = length (ec_slots c)"

section \<open>Invariant\<close>

definition ec_inv :: "'s cache \<Rightarrow> bool" where
  "ec_inv c \<longleftrightarrow> distinct (ec_order c) \<and> od_wf (ec_slots c)
     \<and> set (ec_order c) = set (od_keys (ec_slots c))
     \<and> length (ec_order c) \<le> ec_max c \<and> 1 \<le> ec_max c
     \<and> (ec_closed c \<longrightarrow> ec_slots c = [])"

lemma ec_inv_init: "ec_inv (ec_init m pid)"
  by (auto simp: ec_inv_def ec_init_def od_keys_def)

lemma ec_inv_len: "ec_inv c \<Longrightarrow> ec_len c = length (ec_order c)"
  unfolding ec_inv_def ec_len_def od_keys_def od_wf_def by (metis distinct_card length_map)

lemma ec_inv_reset: "ec_inv c \<Longrightarrow> ec_inv (ec_reset_after_fork pid c)"
  by (auto simp: ec_inv_def ec_reset_after_fork_def od_keys_def)

lemma keys_od_del: "set (od_keys (od_del k m)) = set (od_keys m) - {k}"
  by (auto simp: od_keys_get od_get_del split: if_splits)

lemma keys_od_put: "set (od_keys (od_put k v m)) = insert k (set (od_keys m))"
  by (auto simp: od_keys_get od_get_put split: if_splits)

lemma ec_evict_drop:
  "fst (ec_evict m ks slots) = drop (length ks - m) ks"
  by (induction m ks slots rule: ec_evict.induct) (auto simp: Suc_diff_le not_less_eq_eq)

lemma ec_evict_slots:
  "od_get (snd (ec_evict m ks slots)) k =
     (if k \<in> set (take (length ks - m) ks) then None else od_get slots k)"
  by (induction m ks slots rule: ec_evict.induct) (auto simp: od_get_del Suc_diff_le not_less_eq_eq)

lemma ec_evict_wf: "od_wf slots \<Longrightarrow> od_wf (snd (ec_evict m ks slots))"
  by (induction m ks slots rule: ec_evict.induct) (auto simp: od_wf_del)

lemma ec_evict_keys:
  "set (od_keys (snd (ec_evict m ks slots))) = set (od_keys slots) - set (take (length ks - m) ks)"
  by (auto simp: od_keys_get ec_evict_slots split: if_splits)

lemma distinct_take_drop: "distinct xs \<Longrightarrow> set xs - set (take n xs) = set (drop n xs)"
proof -
  assume "distinct xs"
  then have "set (take n xs) \<inter> set (drop n xs) = {}"
    by (rule set_take_disj_set_drop_if_distinct) simp
  moreover have "set xs = set (take n xs) \<union> set (drop n xs)"
    by (metis append_take_drop_id set_append)
  ultimately show ?thesis by blast
qed

lemma ec_inv_get: "ec_inv c \<Longrightarrow> ec_inv (snd (ec_get pid built cfg c))"
proof (cases "ec_closed c")
  case False
  assume "ec_inv c"
  then have inv: "ec_inv (ec_reset_after_fork pid c)" (is "ec_inv ?c") by (rule ec_inv_reset)
  have open_c: "\<not> ec_closed ?c" using False by (simp add: ec_reset_after_fork_def)
  show ?thesis
  proof (cases "od_get (ec_slots ?c) cfg")
    case (Some slot)
    then have mem: "cfg \<in> set (ec_order ?c)"
      using inv by (simp add: ec_inv_def od_keys_get)
    then show ?thesis
      using inv False Some length_pos_if_in_set [OF mem]
      by (auto simp: ec_get_def Let_def ec_inv_def length_remove1)
  next
    case None
    then have nmem: "cfg \<notin> set (ec_order ?c)"
      using inv by (simp add: ec_inv_def od_keys_get)
    show ?thesis
    proof (cases built)
      case (Inl e)
      then show ?thesis using inv False None by (simp add: ec_get_def Let_def)
    next
      case (Inr slot)
      let ?ks = "ec_order ?c @ [cfg]" and ?sl = "od_put cfg slot (ec_slots ?c)"
      let ?e = "ec_evict (ec_max ?c) ?ks ?sl"
      have d: "distinct ?ks" using inv nmem by (simp add: ec_inv_def)
      have keys: "set (od_keys ?sl) = set ?ks"
        using inv by (simp add: ec_inv_def keys_od_put)
      have "set (od_keys (snd ?e)) = set (fst ?e)"
        by (simp only: ec_evict_keys ec_evict_drop keys distinct_take_drop [OF d])
      moreover have "distinct (fst ?e)"
        unfolding ec_evict_drop using d by (rule distinct_drop)
      moreover have "length (fst ?e) \<le> ec_max ?c"
        unfolding ec_evict_drop length_drop using inv by (simp add: ec_inv_def)
      moreover have "od_wf (snd ?e)"
        using inv by (intro ec_evict_wf) (simp add: ec_inv_def od_wf_put)
      ultimately show ?thesis
        using inv False None Inr open_c
        by (simp add: ec_get_def Let_def ec_inv_def split_beta)
    qed
  qed
qed (simp add: ec_get_def)

lemma ec_inv_discard: "ec_inv c \<Longrightarrow> ec_inv (ec_discard cfg c)"
  by (auto simp: ec_inv_def ec_discard_def od_wf_del keys_od_del length_remove1 od_has_def)

lemma ec_inv_clear: "ec_inv c \<Longrightarrow> ec_inv (ec_clear c)"
  by (auto simp: ec_inv_def ec_clear_def od_keys_def)

lemma ec_inv_close: "ec_inv c \<Longrightarrow> ec_inv (ec_close c)"
  by (auto simp: ec_inv_def ec_close_def od_keys_def)

datatype 's ec_op =
    EcGet int "exc + 's" config
  | EcDiscard config
  | EcClear
  | EcClose

fun ec_apply :: "'s ec_op \<Rightarrow> 's cache \<Rightarrow> 's cache" where
  "ec_apply (EcGet pid built cfg) c = snd (ec_get pid built cfg c)"
| "ec_apply (EcDiscard cfg) c = ec_discard cfg c"
| "ec_apply EcClear c = ec_clear c"
| "ec_apply EcClose c = ec_close c"

interpretation ecm: safe_machine ec_apply ec_inv
proof
  show "ec_inv c \<Longrightarrow> ec_inv (ec_apply op c)" for op :: "'a ec_op" and c
    by (cases op) (auto simp: ec_inv_get ec_inv_discard ec_inv_clear ec_inv_close)
qed

definition ec_run :: "'s ec_op list \<Rightarrow> 's cache \<Rightarrow> 's cache" where
  "ec_run ops c = fold ec_apply ops c"

lemma ec_run_eq: "ec_run ops c = ecm.run ops c"
  by (simp add: ec_run_def ecm.run_def)

section \<open>The cache as a least-recently-used list\<close>

text \<open>
  What the cache promises: a list of configurations with their engines, the least recently
  used first, bounded by \<open>m\<close>.
\<close>

definition lru_get :: "nat \<Rightarrow> exc + 's \<Rightarrow> config \<Rightarrow> (config \<times> 's) list \<Rightarrow> (exc + 's) \<times> (config \<times> 's) list" where
  "lru_get m built cfg l =
     (case map_of l cfg of
        Some s \<Rightarrow> (Inr s, filter (\<lambda>p. fst p \<noteq> cfg) l @ [(cfg, s)])
      | None \<Rightarrow> (case built of
          Inl e \<Rightarrow> (Inl e, l)
        | Inr s \<Rightarrow> (Inr s, drop (Suc (length l) - m) (l @ [(cfg, s)]))))"

definition ec_abs :: "'s cache \<Rightarrow> (config \<times> 's) list" where
  "ec_abs c = map (\<lambda>k. (k, the (od_get (ec_slots c) k))) (ec_order c)"

lemma map_of_ec_abs: "ec_inv c \<Longrightarrow> map_of (ec_abs c) k = od_get (ec_slots c) k"
proof -
  assume inv: "ec_inv c"
  have "map_of (ec_abs c) k = (if k \<in> set (ec_order c) then Some (the (od_get (ec_slots c) k)) else None)"
    unfolding ec_abs_def by (induction "ec_order c") (auto simp: map_of_map_restrict)
  also have "\<dots> = od_get (ec_slots c) k"
    using inv by (auto simp: ec_inv_def od_keys_get)
  finally show ?thesis .
qed

lemma remove1_filter: "distinct xs \<Longrightarrow> remove1 x xs = filter (\<lambda>y. y \<noteq> x) xs"
  by (simp add: distinct_remove1_removeAll removeAll_filter_not_eq neq_commute)

lemma map_filter_abs:
  "map (\<lambda>k. (k, f k)) (filter (\<lambda>y. y \<noteq> x) ks) = filter (\<lambda>p. fst p \<noteq> x) (map (\<lambda>k. (k, f k)) ks)"
  by (induction ks) auto

lemma ec_get_open:
  "\<not> ec_closed c \<Longrightarrow> pid = ec_pid c \<Longrightarrow> ec_reset_after_fork pid c = c"
  by (simp add: ec_reset_after_fork_def)

section \<open>Properties\<close>

text \<open>
  C12: within one process an open cache is a least-recently-used list of at most
  \<open>max_engines\<close> engines: a request answers and changes the cache exactly as the list
  does.
\<close>

theorem ec_get_refines_lru:
  assumes "ec_inv c" and "\<not> ec_closed c" and "pid = ec_pid c"
  shows "fst (ec_get pid built cfg c) = fst (lru_get (ec_max c) built cfg (ec_abs c))
       \<and> ec_abs (snd (ec_get pid built cfg c)) = snd (lru_get (ec_max c) built cfg (ec_abs c))"
proof -
  have c: "ec_reset_after_fork pid c = c" using assms by (simp add: ec_get_open)
  have lookup: "map_of (ec_abs c) cfg = od_get (ec_slots c) cfg"
    by (rule map_of_ec_abs [OF assms(1)])
  have dist: "distinct (ec_order c)" using assms(1) by (simp add: ec_inv_def)
  show ?thesis
  proof (cases "od_get (ec_slots c) cfg")
    case (Some s)
    then show ?thesis using assms(2) dist
      by (simp add: ec_get_def Let_def c lru_get_def lookup)
         (simp add: ec_abs_def remove1_filter map_filter_abs)
  next
    case None
    then have nmem: "cfg \<notin> set (ec_order c)" using assms(1) by (simp add: ec_inv_def od_keys_get)
    show ?thesis
    proof (cases built)
      case (Inl e)
      with None assms(2) show ?thesis by (simp add: ec_get_def Let_def c lru_get_def lookup)
    next
      case (Inr s)
      let ?ks = "ec_order c @ [cfg]"
      have kept: "k \<notin> set (take (length ?ks - ec_max c) ?ks)"
        if "k \<in> set (drop (length ?ks - ec_max c) ?ks)" for k
        using that dist nmem set_take_disj_set_drop_if_distinct [of ?ks "length ?ks - ec_max c" "length ?ks - ec_max c"]
        by auto
      have "ec_abs (snd (ec_get pid built cfg c)) =
          map (\<lambda>k. (k, the (od_get (od_put cfg s (ec_slots c)) k))) (drop (length ?ks - ec_max c) ?ks)"
        using None Inr assms(2) kept
        by (simp add: ec_get_def Let_def c split_beta ec_abs_def ec_evict_drop ec_evict_slots del: drop_append take_append)
      also have "\<dots> = drop (length ?ks - ec_max c) (map (\<lambda>k. (k, the (od_get (od_put cfg s (ec_slots c)) k))) ?ks)"
        by (simp only: drop_map)
      also have "map (\<lambda>k. (k, the (od_get (od_put cfg s (ec_slots c)) k))) ?ks = ec_abs c @ [(cfg, s)]"
        using nmem by (auto simp: ec_abs_def od_get_put)
      finally have "ec_abs (snd (ec_get pid built cfg c)) = drop (Suc (length (ec_abs c)) - ec_max c) (ec_abs c @ [(cfg, s)])"
        by (simp add: ec_abs_def)
      with None Inr assms(2) show ?thesis
        by (simp add: lru_get_def lookup) (simp add: ec_get_def Let_def c split_beta)
    qed
  qed
qed

definition example_config :: config where
  "example_config = \<lparr>cfg_impersonate = Some ''chrome_153'', cfg_proxy = None, cfg_verify = True,
     cfg_ca_pem = None, cfg_user_agent = None, cfg_accept_language = None,
     cfg_proxy_username = None, cfg_proxy_password = None, cfg_http_version = None,
     cfg_cache = True, cfg_profile_namespace = None, cfg_generation = 0\<rparr>"

theorem ec_get_refines_lru_witness:
  "fst (ec_get 1 (Inr (7::nat)) example_config (ec_init 8 1)) = Inr 7"
  using ec_get_refines_lru [of "ec_init 8 1" 1 "Inr (7::nat)" example_config]
  by (simp add: ec_inv_init) (simp add: ec_init_def lru_get_def ec_abs_def)

text \<open>
  Whatever sequence of requests, discards, clears and closes a session makes, the
  cache holds at most \<open>max_engines\<close> engines (at least one), its order lists each cached
  configuration once, and once closed it stays empty and answers every request with an
  error.
\<close>

theorem ec_run_bounded:
  "ec_len (ec_run ops (ec_init m p)) \<le> nat (max 1 m)
   \<and> distinct (ec_order (ec_run ops (ec_init m p)))
   \<and> set (ec_order (ec_run ops (ec_init m p))) = set (od_keys (ec_slots (ec_run ops (ec_init m p))))
   \<and> fst (ec_get pid built cfg (ec_run later (ec_close (ec_run ops (ec_init m p))))) =
       raise_exc RequestException ''Session is closed''"
proof -
  let ?c = "ec_run ops (ec_init m p) :: 'a cache"
  have inv: "ec_inv ?c" by (simp add: ec_run_eq ecm.inv_run ec_inv_init)
  have "ec_max (ec_apply op c) = ec_max c" for op and c :: "'a cache"
    by (cases op) (auto simp: ec_get_def ec_discard_def ec_clear_def ec_close_def
        ec_reset_after_fork_def Let_def split_beta split: option.splits sum.splits)
  then have "ec_max (ecm.run ops (ec_init m p :: 'a cache)) = ec_max (ec_init m p :: 'a cache)"
    by (intro ecm.value_run) (auto simp: ec_inv_init)
  then have max: "ec_max ?c = nat (max 1 m)" by (simp add: ec_run_eq ec_init_def)
  have "ec_closed (ec_apply op c)" if "ec_closed c" for op and c :: "'a cache"
    using that by (cases op) (auto simp: ec_get_def ec_discard_def ec_clear_def ec_close_def)
  then have "ec_closed (ecm.run later (ec_close ?c))"
    using ec_inv_close [OF inv] by (intro ecm.stable_run [where P = ec_closed]) (auto simp: ec_close_def)
  then have "fst (ec_get pid built cfg (ec_run later (ec_close ?c))) =
      raise_exc RequestException ''Session is closed''"
    by (simp add: ec_run_eq [of later] ec_get_def)
  with inv max ec_inv_len [OF inv] show ?thesis by (auto simp: ec_inv_def)
qed

text \<open>
  A child process never uses an engine of its parent: after a fork the answer is the
  engine built now, and only that engine is cached.
\<close>

theorem ec_get_after_fork:
  assumes "ec_inv c" and "\<not> ec_closed c" and "pid \<noteq> ec_pid c"
  shows "fst (ec_get pid built cfg c) = built
    \<and> ec_slots (snd (ec_get pid built cfg c)) = (case built of Inl e \<Rightarrow> [] | Inr s \<Rightarrow> [(cfg, s)])
    \<and> ec_pid (snd (ec_get pid built cfg c)) = pid"
  using assms
  by (auto simp: ec_get_def ec_reset_after_fork_def Let_def od_put_def ec_inv_def split: sum.splits)

theorem ec_get_after_fork_witness:
  "fst (ec_get 2 (Inr 9) example_config (snd (ec_get 1 (Inr (7::nat)) example_config (ec_init 8 1)))) = Inr 9"
  using ec_get_after_fork [of "snd (ec_get 1 (Inr (7::nat)) example_config (ec_init 8 1))" 2 "Inr 9" example_config]
  by (simp add: ec_inv_get ec_inv_init)
     (simp add: ec_get_def ec_init_def ec_reset_after_fork_def Let_def split_beta)

end
