(* ===== verification/Async_Bridge.thy ===== *)
theory Async_Bridge
  imports Exceptions
begin

text \<open>
  The body readers and the asyncio bridge of
  \<open>bindings/python/chrome_client/_python_impl/sessions.py\<close>: \<open>_SyncBodyReader\<close>,
  \<open>_AsyncBodyReader\<close> and \<open>_AsyncState\<close>.  The native request is the environment: what
  \<open>poll_events\<close> and \<open>next_body\<close> return is an input of the step, and the calls made on
  the request and the event loop (\<open>cancel\<close>, \<open>detach_callback\<close>, \<open>call_soon\<close>) are
  counted in the state.  The URL of a redirect is kept as the octets the Core reports.
\<close>

section \<open>The synchronous reader\<close>

datatype 'a outcome = Chunk 'a | Raise exc | Stop | Wait

definition too_large :: "nat \<Rightarrow> exc" where
  "too_large limit = \<lparr>exc_kind = ResponseTooLarge,
     exc_msg = ''response exceeded max_response_bytes='' @ show_nat limit\<rparr>"

definition exceeds :: "nat option \<Rightarrow> nat \<Rightarrow> bool" where
  "exceeds limit n \<longleftrightarrow> (case limit of None \<Rightarrow> False | Some l \<Rightarrow> l < n)"

lemma exceeds_simps [simp]: "\<not> exceeds None t" "exceeds (Some l) t \<longleftrightarrow> l < t"
  by (simp_all add: exceeds_def)

lemma exceeds_mono: "exceeds l t \<Longrightarrow> t \<le> u \<Longrightarrow> exceeds l u"
  by (cases l) auto

record sync_reader =
  sr_limit :: "nat option"
  sr_total :: nat
  sr_closed :: bool
  sr_cancels :: nat
  sr_detached :: nat

definition sr_init :: "nat option \<Rightarrow> sync_reader" where
  "sr_init limit = \<lparr>sr_limit = limit, sr_total = 0, sr_closed = False, sr_cancels = 0, sr_detached = 0\<rparr>"

definition sr_close :: "bool \<Rightarrow> sync_reader \<Rightarrow> sync_reader" where
  "sr_close cancel r =
     (if sr_closed r then r
      else r\<lparr>sr_closed := True, sr_cancels := sr_cancels r + (if cancel then 1 else 0),
             sr_detached := sr_detached r + 1\<rparr>)"

text \<open>One turn of the generator; \<open>fed\<close> is what \<open>next_body()\<close> raises or returns.\<close>

definition sr_next :: "string + string option \<Rightarrow> sync_reader \<Rightarrow> string outcome \<times> sync_reader" where
  "sr_next fed r =
     (if sr_closed r then (Stop, r)
      else case fed of
        Inl message \<Rightarrow> (Raise (map_native_error message), sr_close False r)
      | Inr None \<Rightarrow> (Stop, sr_close False r)
      | Inr (Some chunk) \<Rightarrow>
          let r1 = r\<lparr>sr_total := sr_total r + length chunk\<rparr>
          in if exceeds (sr_limit r1) (sr_total r1)
             then (case sr_limit r1 of
                     Some l \<Rightarrow> (Raise (too_large l), sr_close True r1) | None \<Rightarrow> (Stop, r1))
             else (Chunk chunk, r1))"

text \<open>
  \<open>b"".join(reader)\<close> over a body that arrives as the given chunks and then ends.
\<close>

fun sr_join :: "string list \<Rightarrow> sync_reader \<Rightarrow> exc + string" where
  "sr_join [] r = (case sr_next (Inr None) r of (Raise e, _) \<Rightarrow> Inl e | _ \<Rightarrow> Inr [])"
| "sr_join (c # cs) r =
     (case sr_next (Inr (Some c)) r of
        (Chunk b, r') \<Rightarrow> bind_res (sr_join cs r') (\<lambda>rest. Inr (b @ rest))
      | (Raise e, r') \<Rightarrow> Inl e
      | (_, r') \<Rightarrow> Inr [])"

lemma sr_next_chunk:
  "\<not> sr_closed r \<Longrightarrow> \<not> exceeds (sr_limit r) (sr_total r + length c) \<Longrightarrow>
   sr_next (Inr (Some c)) r = (Chunk c, r\<lparr>sr_total := sr_total r + length c\<rparr>)"
  by (simp add: sr_next_def)

lemma sr_next_over:
  "\<not> sr_closed r \<Longrightarrow> sr_limit r = Some l \<Longrightarrow> l < sr_total r + length c \<Longrightarrow>
   sr_next (Inr (Some c)) r = (Raise (too_large l), sr_close True (r\<lparr>sr_total := sr_total r + length c\<rparr>))"
  by (simp add: sr_next_def)

lemma sr_join_concat:
  "\<not> sr_closed r \<Longrightarrow> sr_join cs r =
     (if cs \<noteq> [] \<and> exceeds (sr_limit r) (sr_total r + length (concat cs))
      then Inl (too_large (the (sr_limit r))) else Inr (concat cs))"
proof (induction cs arbitrary: r)
  case Nil
  then show ?case by (simp add: sr_next_def)
next
  case (Cons c cs)
  let ?r = "r\<lparr>sr_total := sr_total r + length c\<rparr>"
  show ?case
  proof (cases "exceeds (sr_limit r) (sr_total r + length c)")
    case True
    then obtain l where l: "sr_limit r = Some l" "l < sr_total r + length c"
      by (cases "sr_limit r") auto
    with Cons.prems show ?thesis by (simp add: sr_next_over)
  next
    case False
    have ih: "sr_join cs ?r = (if cs \<noteq> [] \<and> exceeds (sr_limit r) (sr_total r + length c + length (concat cs))
        then Inl (too_large (the (sr_limit r))) else Inr (concat cs))"
      using Cons.IH [of ?r] Cons.prems by simp
    show ?thesis
    proof (cases "cs = []")
      case True
      with False ih Cons.prems show ?thesis by (simp add: sr_next_chunk)
    next
      case False': False
      show ?thesis using False False' ih Cons.prems
        by (simp add: sr_next_chunk add.assoc del: length_concat)
    qed
  qed
qed

section \<open>The asyncio state\<close>

datatype future = Pending | Resolved | Failed exc | Cancelled

datatype event =
    EvBody string
  | EvResponse nat string
  | EvRedirect nat string string
  | EvDone
  | EvError string

record async_state =
  as_future :: future
  as_stream :: bool
  as_limit :: "nat option"
  as_chunks :: "string list"
  as_buffered :: int
  as_total :: nat
  as_done :: bool
  as_error :: "exc option"
  as_status :: nat
  as_raw_headers :: string
  as_body :: string
  as_wake :: bool
  as_closed :: bool
  as_throttled :: bool
  as_hops :: "(nat \<times> string \<times> string) list"
  as_follow :: bool
  as_timer :: bool
  as_cancels :: nat
  as_detached :: nat
  as_soon :: nat

definition ASYNC_POLL_BATCH :: nat where "ASYNC_POLL_BATCH = 64"
definition STREAM_BUFFER_LIMIT :: int where "STREAM_BUFFER_LIMIT = 1024 * 1024"

definition as_init :: "bool \<Rightarrow> nat option \<Rightarrow> bool \<Rightarrow> bool \<Rightarrow> async_state" where
  "as_init stream limit timeout follow =
     \<lparr>as_future = Pending, as_stream = stream, as_limit = limit, as_chunks = [], as_buffered = 0,
      as_total = 0, as_done = False, as_error = None, as_status = 0, as_raw_headers = [],
      as_body = [], as_wake = False, as_closed = False, as_throttled = False, as_hops = [],
      as_follow = follow, as_timer = timeout, as_cancels = 0, as_detached = 0, as_soon = 0\<rparr>"

definition as_signal :: "async_state \<Rightarrow> async_state" where
  "as_signal s = (if as_stream s then s\<lparr>as_wake := True\<rparr> else s)"

definition as_cancel_timer :: "async_state \<Rightarrow> async_state" where
  "as_cancel_timer s = s\<lparr>as_timer := False\<rparr>"

text \<open>\<open>if not self.future.done(): ...\<close>\<close>

definition settle :: "future \<Rightarrow> async_state \<Rightarrow> async_state" where
  "settle f s = (if as_future s = Pending then s\<lparr>as_future := f\<rparr> else s)"

definition as_fail :: "exc \<Rightarrow> bool \<Rightarrow> async_state \<Rightarrow> async_state" where
  "as_fail e cancel s =
     (let s1 = (if as_error s = None then s\<lparr>as_error := Some e\<rparr> else s);
          s2 = as_cancel_timer (s1\<lparr>as_done := True\<rparr>);
          s3 = (if cancel then s2\<lparr>as_cancels := as_cancels s2 + 1\<rparr> else s2);
          s4 = (if \<not> as_stream s3 then settle (Failed e) s3 else s3)
      in as_signal s4)"

definition as_on_body :: "string \<Rightarrow> async_state \<Rightarrow> async_state" where
  "as_on_body chunk s =
     (let s1 = s\<lparr>as_total := as_total s + length chunk\<rparr>
      in if exceeds (as_limit s1) (as_total s1)
         then (case as_limit s1 of Some l \<Rightarrow> as_fail (too_large l) True s1 | None \<Rightarrow> s1)
         else if as_stream s1
         then as_signal (s1\<lparr>as_chunks := as_chunks s1 @ [chunk],
                            as_buffered := as_buffered s1 + int (length chunk)\<rparr>)
         else s1\<lparr>as_body := as_body s1 @ chunk\<rparr>)"

definition as_on_redirect :: "nat \<Rightarrow> string \<Rightarrow> string \<Rightarrow> async_state \<Rightarrow> async_state" where
  "as_on_redirect status raw new_url s =
     (if as_follow s then s\<lparr>as_hops := as_hops s @ [(status, raw, new_url)]\<rparr>
      else
        let s1 = as_cancel_timer (s\<lparr>as_status := status, as_raw_headers := raw, as_done := True\<rparr>);
            s2 = s1\<lparr>as_cancels := as_cancels s1 + 1\<rparr>
        in as_signal (settle Resolved s2))"

definition as_on_done :: "async_state \<Rightarrow> async_state" where
  "as_on_done s =
     (let s1 = as_cancel_timer (s\<lparr>as_done := True\<rparr>);
          s2 = (if \<not> as_stream s1 then settle Resolved s1 else s1)
      in as_signal s2)"

fun as_handle :: "event \<Rightarrow> async_state \<Rightarrow> async_state" where
  "as_handle (EvBody chunk) s = as_on_body chunk s"
| "as_handle (EvResponse code raw) s =
     (let s1 = s\<lparr>as_status := code, as_raw_headers := raw\<rparr>
      in if as_stream s1 then as_signal s1 else s1)"
| "as_handle (EvRedirect code raw url) s = as_on_redirect code raw url s"
| "as_handle EvDone s = as_on_done s"
| "as_handle (EvError message) s =
     as_fail (map_native_error (if message = [] then ''request failed'' else message)) False s"

text \<open>The event loop of \<open>notify\<close>: it leaves as soon as the state is closed.\<close>

fun as_drain :: "event list \<Rightarrow> async_state \<Rightarrow> async_state" where
  "as_drain [] s = s"
| "as_drain (e # es) s = (let s1 = as_handle e s in if as_closed s1 then s1 else as_drain es s1)"

definition as_notify :: "string + event list \<Rightarrow> async_state \<Rightarrow> async_state" where
  "as_notify polled s =
     (if as_closed s then s
      else if as_stream s \<and> STREAM_BUFFER_LIMIT \<le> as_buffered s then s\<lparr>as_throttled := True\<rparr>
      else case polled of
        Inl message \<Rightarrow> as_fail (map_native_error message) False s
      | Inr events \<Rightarrow>
          let s1 = as_drain events s
          in if as_closed s1 then s1
             else if length events = ASYNC_POLL_BATCH then s1\<lparr>as_soon := as_soon s1 + 1\<rparr> else s1)"

definition as_expire :: "async_state \<Rightarrow> async_state" where
  "as_expire s = as_fail \<lparr>exc_kind = Timeout, exc_msg = ''request timed out''\<rparr> True (s\<lparr>as_timer := False\<rparr>)"

definition error_is_lazy :: "async_state \<Rightarrow> bool" where
  "error_is_lazy s \<longleftrightarrow> as_stream s
     \<and> (case as_error s of Some e \<Rightarrow> is_subclass (exc_kind e) ResponseTooLarge | None \<Rightarrow> False)"

definition as_resume :: "async_state \<Rightarrow> async_state" where
  "as_resume s =
     (if as_throttled s \<and> as_buffered s < STREAM_BUFFER_LIMIT
      then s\<lparr>as_throttled := False, as_soon := as_soon s + 1\<rparr> else s)"

definition as_drain_chunks :: "async_state \<Rightarrow> string list \<times> async_state" where
  "as_drain_chunks s = (as_chunks s, s\<lparr>as_chunks := [], as_buffered := 0, as_throttled := False\<rparr>)"

definition as_finish :: "bool \<Rightarrow> async_state \<Rightarrow> async_state" where
  "as_finish cancel s =
     (if as_closed s then s
      else
        let s1 = as_cancel_timer (s\<lparr>as_closed := True\<rparr>);
            s2 = (if cancel then s1\<lparr>as_cancels := as_cancels s1 + 1\<rparr> else s1);
            s3 = s2\<lparr>as_detached := as_detached s2 + 1, as_chunks := [], as_buffered := 0\<rparr>
        in settle Cancelled (as_signal s3))"

section \<open>The asynchronous reader\<close>

record async_reader =
  ar_limit :: "nat option"
  ar_total :: nat
  ar_closed :: bool

definition ar_init :: "nat option \<Rightarrow> async_reader" where
  "ar_init limit = \<lparr>ar_limit = limit, ar_total = 0, ar_closed = False\<rparr>"

definition ar_aclose :: "bool \<Rightarrow> async_state \<times> async_reader \<Rightarrow> async_state \<times> async_reader" where
  "ar_aclose cancel sr =
     (case sr of (s, r) \<Rightarrow> if ar_closed r then (s, r) else (as_finish cancel s, r\<lparr>ar_closed := True\<rparr>))"

text \<open>
  One pass of \<open>__anext__\<close>.  \<open>Wait\<close> is the await on the wake event, which it first
  clears; the pass is made again when the event is set.
\<close>

definition ar_next :: "async_state \<times> async_reader \<Rightarrow> string outcome \<times> async_state \<times> async_reader" where
  "ar_next sr = (case sr of (s, r) \<Rightarrow>
     (case as_chunks s of
        chunk # rest \<Rightarrow>
          let s1 = as_resume (s\<lparr>as_chunks := rest, as_buffered := as_buffered s - int (length chunk)\<rparr>);
              r1 = r\<lparr>ar_total := ar_total r + length chunk\<rparr>
          in if exceeds (ar_limit r1) (ar_total r1)
             then (case ar_limit r1 of
                     Some l \<Rightarrow> (Raise (too_large l), ar_aclose True (s1, r1)) | None \<Rightarrow> (Stop, s1, r1))
             else (Chunk chunk, s1, r1)
      | [] \<Rightarrow>
          (case as_error s of
             Some e \<Rightarrow> (Raise e, ar_aclose False (s, r))
           | None \<Rightarrow>
               if as_done s \<or> ar_closed r then (Stop, ar_aclose False (s, r))
               else (Wait, s\<lparr>as_wake := False\<rparr>, r))))"

section \<open>What the small operations leave alone\<close>

lemma as_signal_sel [simp]:
  "as_future (as_signal s) = as_future s" "as_stream (as_signal s) = as_stream s"
  "as_limit (as_signal s) = as_limit s" "as_chunks (as_signal s) = as_chunks s"
  "as_buffered (as_signal s) = as_buffered s" "as_total (as_signal s) = as_total s"
  "as_done (as_signal s) = as_done s" "as_error (as_signal s) = as_error s"
  "as_body (as_signal s) = as_body s" "as_closed (as_signal s) = as_closed s"
  "as_throttled (as_signal s) = as_throttled s" "as_soon (as_signal s) = as_soon s"
  "as_wake (as_signal s) = (as_stream s \<or> as_wake s)" "as_status (as_signal s) = as_status s"
  "as_timer (as_signal s) = as_timer s" "as_detached (as_signal s) = as_detached s"
  by (simp_all add: as_signal_def)

lemma settle_sel [simp]:
  "as_future (settle f s) = (if as_future s = Pending then f else as_future s)"
  "as_stream (settle f s) = as_stream s"
  "as_limit (settle f s) = as_limit s" "as_chunks (settle f s) = as_chunks s"
  "as_buffered (settle f s) = as_buffered s" "as_total (settle f s) = as_total s"
  "as_done (settle f s) = as_done s" "as_error (settle f s) = as_error s"
  "as_body (settle f s) = as_body s" "as_closed (settle f s) = as_closed s"
  "as_throttled (settle f s) = as_throttled s" "as_soon (settle f s) = as_soon s"
  "as_wake (settle f s) = as_wake s" "as_status (settle f s) = as_status s"
  "as_timer (settle f s) = as_timer s" "as_detached (settle f s) = as_detached s"
  by (simp_all add: settle_def)

lemma as_fail_sel [simp]:
  "as_future (as_fail e c s) =
     (if \<not> as_stream s \<and> as_future s = Pending then Failed e else as_future s)"
  "as_stream (as_fail e c s) = as_stream s"
  "as_limit (as_fail e c s) = as_limit s" "as_chunks (as_fail e c s) = as_chunks s"
  "as_buffered (as_fail e c s) = as_buffered s" "as_total (as_fail e c s) = as_total s"
  "as_done (as_fail e c s)" "as_error (as_fail e c s) = (case as_error s of None \<Rightarrow> Some e | Some e' \<Rightarrow> Some e')"
  "as_body (as_fail e c s) = as_body s" "as_closed (as_fail e c s) = as_closed s"
  "as_throttled (as_fail e c s) = as_throttled s" "as_soon (as_fail e c s) = as_soon s"
  "as_wake (as_fail e c s) = (as_stream s \<or> as_wake s)" "as_status (as_fail e c s) = as_status s"
  "\<not> as_timer (as_fail e c s)" "as_detached (as_fail e c s) = as_detached s"
  by (simp_all add: as_fail_def as_cancel_timer_def Let_def split: option.splits)

lemma as_on_done_sel [simp]:
  "as_stream (as_on_done s) = as_stream s"
  "as_limit (as_on_done s) = as_limit s" "as_chunks (as_on_done s) = as_chunks s"
  "as_buffered (as_on_done s) = as_buffered s" "as_total (as_on_done s) = as_total s"
  "as_done (as_on_done s)" "as_error (as_on_done s) = as_error s"
  "as_body (as_on_done s) = as_body s" "as_closed (as_on_done s) = as_closed s"
  "as_throttled (as_on_done s) = as_throttled s" "as_soon (as_on_done s) = as_soon s"
  "as_future (as_on_done s) = (if \<not> as_stream s \<and> as_future s = Pending then Resolved else as_future s)"
  by (simp_all add: as_on_done_def as_cancel_timer_def Let_def)

lemma as_on_redirect_sel [simp]:
  "as_stream (as_on_redirect c h u s) = as_stream s"
  "as_limit (as_on_redirect c h u s) = as_limit s" "as_chunks (as_on_redirect c h u s) = as_chunks s"
  "as_buffered (as_on_redirect c h u s) = as_buffered s" "as_total (as_on_redirect c h u s) = as_total s"
  "as_error (as_on_redirect c h u s) = as_error s"
  "as_body (as_on_redirect c h u s) = as_body s" "as_closed (as_on_redirect c h u s) = as_closed s"
  "as_throttled (as_on_redirect c h u s) = as_throttled s" "as_soon (as_on_redirect c h u s) = as_soon s"
  "as_future (as_on_redirect c h u s) =
     (if \<not> as_follow s \<and> as_future s = Pending then Resolved else as_future s)"
  by (simp_all add: as_on_redirect_def as_cancel_timer_def Let_def)

lemma as_on_body_sel [simp]:
  "as_stream (as_on_body c s) = as_stream s"
  "as_limit (as_on_body c s) = as_limit s"
  "as_total (as_on_body c s) = as_total s + length c"
  "as_chunks (as_on_body c s) = (if as_stream s \<and> \<not> exceeds (as_limit s) (as_total s + length c)
     then as_chunks s @ [c] else as_chunks s)"
  "as_buffered (as_on_body c s) = (if as_stream s \<and> \<not> exceeds (as_limit s) (as_total s + length c)
     then as_buffered s + int (length c) else as_buffered s)"
  "as_body (as_on_body c s) = (if \<not> as_stream s \<and> \<not> exceeds (as_limit s) (as_total s + length c)
     then as_body s @ c else as_body s)"
  "as_closed (as_on_body c s) = as_closed s"
  "as_future (as_on_body c s) =
     (if exceeds (as_limit s) (as_total s + length c) \<and> \<not> as_stream s \<and> as_future s = Pending
      then Failed (too_large (the (as_limit s))) else as_future s)"
  "as_error (as_on_body c s) =
     (if exceeds (as_limit s) (as_total s + length c) \<and> as_error s = None
      then Some (too_large (the (as_limit s))) else as_error s)"
  "as_throttled (as_on_body c s) = as_throttled s" "as_soon (as_on_body c s) = as_soon s"
  by (auto simp: as_on_body_def Let_def exceeds_def split: option.splits)

lemma as_handle_closed [simp]: "as_closed (as_handle e s) = as_closed s"
  by (cases e) (auto simp: Let_def)

lemma as_drain_open: "\<not> as_closed s \<Longrightarrow> as_drain es s = fold as_handle es s"
  by (induction es arbitrary: s) (auto simp: Let_def)

lemma fold_handle_closed [simp]: "as_closed (fold as_handle es s) = as_closed s"
  by (induction es arbitrary: s) auto

text \<open>A pass of \<open>notify\<close> as one fold, once the guards are known.\<close>

lemma as_notify_polls:
  "\<not> as_closed s \<Longrightarrow> \<not> (as_stream s \<and> STREAM_BUFFER_LIMIT \<le> as_buffered s) \<Longrightarrow>
   as_notify (Inr es) s =
     (let s1 = fold as_handle es s
      in if length es = ASYNC_POLL_BATCH then s1\<lparr>as_soon := as_soon s1 + 1\<rparr> else s1)"
  by (auto simp: as_notify_def as_drain_open Let_def)

lemma as_resume_sel [simp]:
  "as_chunks (as_resume s) = as_chunks s" "as_buffered (as_resume s) = as_buffered s"
  "as_stream (as_resume s) = as_stream s" "as_limit (as_resume s) = as_limit s"
  "as_total (as_resume s) = as_total s" "as_body (as_resume s) = as_body s"
  "as_closed (as_resume s) = as_closed s" "as_future (as_resume s) = as_future s"
  "as_error (as_resume s) = as_error s" "as_done (as_resume s) = as_done s"
  "as_throttled (as_resume s) \<longleftrightarrow> as_throttled s \<and> STREAM_BUFFER_LIMIT \<le> as_buffered s"
  by (auto simp: as_resume_def)

lemma as_finish_sel [simp]:
  "as_stream (as_finish c s) = as_stream s" "as_limit (as_finish c s) = as_limit s"
  "as_closed (as_finish c s)" "as_body (as_finish c s) = as_body s"
  "as_chunks (as_finish c s) = (if as_closed s then as_chunks s else [])"
  "as_buffered (as_finish c s) = (if as_closed s then as_buffered s else 0)"
  "as_total (as_finish c s) = as_total s"
  "as_future (as_finish c s) = (if \<not> as_closed s \<and> as_future s = Pending then Cancelled else as_future s)"
  "as_error (as_finish c s) = as_error s"
  by (auto simp: as_finish_def as_cancel_timer_def Let_def)

section \<open>Invariant\<close>

definition bytes_of :: "string list \<Rightarrow> nat" where
  "bytes_of cs = length (concat cs)"

lemma bytes_of_simps [simp]:
  "bytes_of [] = 0" "bytes_of (c # cs) = length c + bytes_of cs"
  "bytes_of (cs @ ds) = bytes_of cs + bytes_of ds"
  by (simp_all add: bytes_of_def)

text \<open>
  The buffered count is the size of the queue; what is stored or was handed out stays
  within the limit; the throttle is set only above the buffer limit, so that the read
  that goes below it is the one that re-arms the poll; a closed request holds nothing and
  leaves nobody waiting.
\<close>

definition as_inv :: "async_state \<times> async_reader \<Rightarrow> bool" where
  "as_inv sr \<longleftrightarrow> (case sr of (s, r) \<Rightarrow>
     as_buffered s = int (bytes_of (as_chunks s))
     \<and> (\<not> as_stream s \<longrightarrow> as_chunks s = [])
     \<and> ar_limit r = as_limit s
     \<and> ar_total r + bytes_of (as_chunks s) \<le> as_total s
     \<and> length (as_body s) \<le> as_total s
     \<and> (\<forall>l. as_limit s = Some l \<longrightarrow>
          ar_total r + bytes_of (as_chunks s) \<le> l \<and> length (as_body s) \<le> l)
     \<and> (as_throttled s \<and> \<not> as_closed s \<longrightarrow> STREAM_BUFFER_LIMIT \<le> as_buffered s)
     \<and> (as_closed s \<longrightarrow> as_chunks s = [] \<and> as_future s \<noteq> Pending))"

lemma as_inv_fail: "as_inv (s, r) \<Longrightarrow> as_inv (as_fail e c s, r)"
  by (auto simp: as_inv_def)

lemma as_inv_on_body: "as_inv (s, r) \<Longrightarrow> \<not> as_closed s \<Longrightarrow> as_inv (as_on_body c s, r)"
  by (auto simp: as_inv_def exceeds_def split: option.splits)

lemma as_inv_handle: "as_inv (s, r) \<Longrightarrow> \<not> as_closed s \<Longrightarrow> as_inv (as_handle e s, r)"
proof (cases e)
  case (EvBody c)
  then show "as_inv (s, r) \<Longrightarrow> \<not> as_closed s \<Longrightarrow> ?thesis" by (simp add: as_inv_on_body)
qed (auto simp: as_inv_def Let_def)

lemma as_inv_fold: "as_inv (s, r) \<Longrightarrow> \<not> as_closed s \<Longrightarrow> as_inv (fold as_handle es s, r)"
  by (induction es arbitrary: s) (auto simp: as_inv_handle)

lemma as_inv_other [simp]:
  "as_inv (s\<lparr>as_soon := n\<rparr>, r) = as_inv (s, r)"
  "as_inv (s\<lparr>as_wake := w\<rparr>, r) = as_inv (s, r)"
  "as_inv (s\<lparr>as_timer := t\<rparr>, r) = as_inv (s, r)"
  by (auto simp: as_inv_def)

lemma as_inv_notify: "as_inv (s, r) \<Longrightarrow> as_inv (as_notify polled s, r)"
proof -
  assume inv: "as_inv (s, r)"
  show ?thesis
  proof (cases "as_closed s \<or> as_stream s \<and> STREAM_BUFFER_LIMIT \<le> as_buffered s")
    case True
    with inv show ?thesis by (auto simp: as_notify_def as_inv_def)
  next
    case False
    then show ?thesis
    proof (cases polled)
      case (Inl m)
      with False inv as_inv_fail [OF inv] show ?thesis by (auto simp: as_notify_def)
    next
      case (Inr es)
      with False inv show ?thesis
        by (auto simp: as_notify_polls Let_def as_inv_fold)
    qed
  qed
qed

lemma as_inv_reader [simp]: "as_inv (s, r\<lparr>ar_closed := b\<rparr>) = as_inv (s, r)"
  by (auto simp: as_inv_def)

lemma as_inv_finish: "as_inv (s, r) \<Longrightarrow> as_inv (as_finish c s, r)"
  by (cases "as_closed s") (auto simp: as_inv_def)

lemma as_inv_aclose: "as_inv (s, r) \<Longrightarrow> as_inv (ar_aclose c (s, r))"
  using as_inv_finish [of s r c] by (auto simp: ar_aclose_def)

text \<open>The pop of a chunk keeps the invariant, and never trips the reader's own limit check.\<close>

lemma as_inv_pop:
  assumes "as_inv (s, r)" and "as_chunks s = c # cs"
  shows "as_inv (as_resume (s\<lparr>as_chunks := cs, as_buffered := as_buffered s - int (length c)\<rparr>),
                 r\<lparr>ar_total := ar_total r + length c\<rparr>)
       \<and> \<not> exceeds (ar_limit r) (ar_total r + length c)"
  using assms by (auto simp: as_inv_def exceeds_def split: option.splits)

lemma ar_next_pop:
  assumes "as_inv (s, r)" and "as_chunks s = c # cs"
  shows "ar_next (s, r) = (Chunk c,
     as_resume (s\<lparr>as_chunks := cs, as_buffered := as_buffered s - int (length c)\<rparr>),
     r\<lparr>ar_total := ar_total r + length c\<rparr>)"
  using as_inv_pop [OF assms] assms(2) by (simp add: ar_next_def Let_def)

lemma as_inv_next: "as_inv (s, r) \<Longrightarrow> as_inv (snd (ar_next (s, r)))"
proof (cases "as_chunks s")
  case Nil
  assume inv: "as_inv (s, r)"
  then show ?thesis
    using Nil by (auto simp: ar_next_def as_inv_aclose split: option.splits)
next
  case (Cons c cs)
  assume "as_inv (s, r)"
  with Cons show ?thesis by (simp add: ar_next_pop as_inv_pop)
qed

datatype a_op = Notify "string + event list" | Expire | Next | Finish bool

fun a_apply :: "a_op \<Rightarrow> async_state \<times> async_reader \<Rightarrow> async_state \<times> async_reader" where
  "a_apply (Notify polled) (s, r) = (as_notify polled s, r)"
| "a_apply Expire (s, r) = (as_expire s, r)"
| "a_apply Next (s, r) = snd (ar_next (s, r))"
| "a_apply (Finish c) (s, r) = (as_finish c s, r)"

definition a_run :: "a_op list \<Rightarrow> async_state \<times> async_reader \<Rightarrow> async_state \<times> async_reader" where
  "a_run ops sr = fold a_apply ops sr"

lemma as_inv_apply: "as_inv sr \<Longrightarrow> as_inv (a_apply op sr)"
proof -
  assume inv: "as_inv sr"
  obtain s r where sr: "sr = (s, r)" by (cases sr)
  from inv show ?thesis
    by (cases op) (auto simp: sr as_expire_def as_inv_notify as_inv_next as_inv_fail as_inv_finish)
qed

interpretation am: safe_machine a_apply as_inv
  by unfold_locales (rule as_inv_apply)

lemma a_run_eq: "a_run ops sr = am.run ops sr"
  by (simp add: a_run_def am.run_def)

lemma as_inv_init: "as_inv (as_init stream limit timeout follow, ar_init limit)"
  by (simp add: as_inv_def as_init_def ar_init_def)

lemma as_inv_run: "as_inv (a_run ops (as_init stream limit timeout follow, ar_init limit))"
  by (simp add: a_run_eq am.inv_run as_inv_init)

section \<open>What a run keeps\<close>

lemma as_handle_fixed [simp]:
  "as_limit (as_handle e s) = as_limit s" "as_stream (as_handle e s) = as_stream s"
  by (cases e; auto simp: Let_def)+

lemma fold_handle_fixed [simp]:
  "as_limit (fold as_handle es s) = as_limit s" "as_stream (fold as_handle es s) = as_stream s"
  by (induction es arbitrary: s) auto

lemma as_handle_future: "as_future s \<noteq> Pending \<Longrightarrow> as_future (as_handle e s) = as_future s"
  by (cases e) (auto simp: Let_def)

lemma fold_handle_future:
  "as_future s \<noteq> Pending \<Longrightarrow> as_future (fold as_handle es s) = as_future s"
  by (induction es arbitrary: s) (auto simp: as_handle_future)

text \<open>Every pass of \<open>notify\<close> is nothing, a failure, or a fold with the poll re-armed.\<close>

lemma as_notify_cases:
  obtains "as_notify polled s = s" | "as_notify polled s = s\<lparr>as_throttled := True\<rparr>"
  | m where "as_notify polled s = as_fail (map_native_error m) False s"
  | es where "polled = Inr es" "as_notify polled s = fold as_handle es s"
  | es n where "polled = Inr es" "as_notify polled s = (fold as_handle es s)\<lparr>as_soon := n\<rparr>"
proof -
  consider "as_closed s" | "\<not> as_closed s" "as_stream s \<and> STREAM_BUFFER_LIMIT \<le> as_buffered s"
    | "\<not> as_closed s" "\<not> (as_stream s \<and> STREAM_BUFFER_LIMIT \<le> as_buffered s)" by blast
  then show ?thesis
  proof cases
    case 1
    then show ?thesis by (intro that(1)) (simp add: as_notify_def)
  next
    case 2
    then show ?thesis by (intro that(2)) (simp add: as_notify_def)
  next
    case 3
    show ?thesis
    proof (cases polled)
      case (Inl m)
      with 3 show ?thesis by (intro that(3) [of m]) (auto simp: as_notify_def)
    next
      case (Inr es)
      note eq = as_notify_polls [OF 3, of es]
      show ?thesis
      proof (cases "length es = ASYNC_POLL_BATCH")
        case True
        then show ?thesis using that(5) [OF Inr] eq unfolding Inr Let_def by simp
      next
        case False
        then show ?thesis using that(4) [OF Inr] eq unfolding Inr Let_def by simp
      qed
    qed
  qed
qed

lemma as_notify_fixed [simp]:
  "as_limit (as_notify polled s) = as_limit s" "as_stream (as_notify polled s) = as_stream s"
  by (rule as_notify_cases [of polled s]; simp)+

lemma as_resume_fixed [simp]:
  "as_limit (as_resume s) = as_limit s" "as_stream (as_resume s) = as_stream s"
  by simp_all

lemma ar_aclose_fixed [simp]:
  "as_limit (fst (ar_aclose c (s, r))) = as_limit s" "as_stream (fst (ar_aclose c (s, r))) = as_stream s"
  "as_future s \<noteq> Pending \<Longrightarrow> as_future (fst (ar_aclose c (s, r))) = as_future s"
  by (auto simp: ar_aclose_def)

text \<open>The reads of a consumer pop the queue, close the request, or wait.\<close>

lemma ar_next_cases:
  obtains (pop) c cs where "as_chunks s = c # cs"
  | (close) out where "as_chunks s = []" "\<And>c. out \<noteq> Chunk c" "ar_next (s, r) = (out, ar_aclose False (s, r))"
  | (wait) "as_chunks s = []" "ar_next (s, r) = (Wait, s\<lparr>as_wake := False\<rparr>, r)"
proof (cases "as_chunks s")
  case (Cons c cs)
  then show ?thesis by (rule pop)
next
  case Nil
  show ?thesis
  proof (cases "as_error s")
    case (Some e)
    with Nil show ?thesis by (intro close [of "Raise e"]) (simp_all add: ar_next_def)
  next
    case None
    with Nil show ?thesis
      by (cases "as_done s \<or> ar_closed r")
        (intro close [of Stop], auto simp: ar_next_def intro: wait)
  qed
qed

lemma a_apply_fixed:
  assumes "as_inv sr"
  shows "as_limit (fst (a_apply op sr)) = as_limit (fst sr)"
    and "as_stream (fst (a_apply op sr)) = as_stream (fst sr)"
    and "as_future (fst sr) \<noteq> Pending \<Longrightarrow> as_future (fst (a_apply op sr)) = as_future (fst sr)"
proof -
  obtain s r where sr: "sr = (s, r)" by (cases sr)
  have "as_future s \<noteq> Pending \<Longrightarrow> as_future (as_notify polled s) = as_future s" for polled
    by (rule as_notify_cases [of polled s]) (simp_all add: fold_handle_future)
  moreover have "as_limit (fst (snd (ar_next (s, r)))) = as_limit s
      \<and> as_stream (fst (snd (ar_next (s, r)))) = as_stream s
      \<and> (as_future s \<noteq> Pending \<longrightarrow> as_future (fst (snd (ar_next (s, r)))) = as_future s)"
    using assms by (cases rule: ar_next_cases [where s = s and r = r]) (auto simp: sr ar_next_pop)
  ultimately show "as_limit (fst (a_apply op sr)) = as_limit (fst sr)"
    and "as_stream (fst (a_apply op sr)) = as_stream (fst sr)"
    and "as_future (fst sr) \<noteq> Pending \<Longrightarrow> as_future (fst (a_apply op sr)) = as_future (fst sr)"
    by (cases op; simp add: sr as_expire_def)+
qed

section \<open>Reading a stream\<close>

text \<open>The chunks a consumer receives in a run, and the body events drained meanwhile.\<close>

fun a_read :: "a_op list \<Rightarrow> async_state \<times> async_reader \<Rightarrow> string list \<times> async_state \<times> async_reader" where
  "a_read [] sr = ([], sr)"
| "a_read (op # ops) sr =
     (let (out, fin) = a_read ops (a_apply op sr)
      in (case (op, fst (ar_next sr)) of (Next, Chunk c) \<Rightarrow> (c # out, fin) | _ \<Rightarrow> (out, fin)))"

definition body_events :: "event list \<Rightarrow> string list" where
  "body_events es = concat (map (\<lambda>e. case e of EvBody c \<Rightarrow> [c] | _ \<Rightarrow> []) es)"

fun a_bodies :: "a_op list \<Rightarrow> async_state \<times> async_reader \<Rightarrow> string list" where
  "a_bodies [] sr = []"
| "a_bodies (op # ops) sr =
     (case (op, fst sr) of
        (Notify (Inr es), s) \<Rightarrow>
          if as_closed s \<or> as_stream s \<and> STREAM_BUFFER_LIMIT \<le> as_buffered s then [] else body_events es
      | _ \<Rightarrow> []) @ a_bodies ops (a_apply op sr)"

fun keeps_open :: "a_op \<Rightarrow> bool" where
  "keeps_open (Finish c) = False"
| "keeps_open op = True"

lemma fold_handle_chunks:
  "as_stream s \<Longrightarrow> as_limit s = None \<Longrightarrow>
   as_chunks (fold as_handle es s) = as_chunks s @ body_events es"
proof (induction es arbitrary: s)
  case (Cons e es)
  then show ?case by (cases e) (auto simp: body_events_def Let_def)
qed (simp add: body_events_def)

lemma as_notify_chunks:
  "as_stream s \<Longrightarrow> as_limit s = None \<Longrightarrow>
   as_chunks (as_notify polled s) = as_chunks s @ a_bodies [Notify polled] (s, r)"
  by (cases polled) (auto simp: as_notify_def as_drain_open fold_handle_chunks Let_def)

lemma a_read_fifo:
  "as_inv sr \<Longrightarrow> as_stream (fst sr) \<Longrightarrow> as_limit (fst sr) = None \<Longrightarrow> list_all keeps_open ops \<Longrightarrow>
   case a_read ops sr of (out, s, r) \<Rightarrow>
     concat out @ concat (as_chunks s) = concat (as_chunks (fst sr)) @ concat (a_bodies ops sr)"
proof (induction ops arbitrary: sr)
  case Nil
  then show ?case by (cases sr) simp
next
  case (Cons op ops)
  obtain s r where sr: "sr = (s, r)" by (cases sr)
  have ih: "case a_read ops (a_apply op sr) of (out, s', r') \<Rightarrow> concat out @ concat (as_chunks s')
      = concat (as_chunks (fst (a_apply op sr))) @ concat (a_bodies ops (a_apply op sr))"
    using Cons.prems Cons.IH [of "a_apply op sr"]
    by (simp add: as_inv_apply a_apply_fixed)
  show ?case
  proof (cases op)
    case (Notify polled)
    with ih Cons.prems show ?thesis
      by (auto simp: sr as_notify_chunks [where r = r] split: prod.splits sum.splits)
  next
    case Expire
    with ih show ?thesis by (auto simp: sr as_expire_def split: prod.splits)
  next
    case Next
    show ?thesis
    proof (cases rule: ar_next_cases [where s = s and r = r])
      case (pop c cs)
      with ih Next Cons.prems show ?thesis by (auto simp: sr ar_next_pop split: prod.splits)
    next
      case (close out)
      with ih Next show ?thesis
        by (cases out) (auto simp: sr ar_aclose_def split: prod.splits if_splits)
    next
      case wait
      with ih Next show ?thesis by (auto simp: sr split: prod.splits)
    qed
  next
    case (Finish c)
    with Cons.prems show ?thesis by simp
  qed
qed

section \<open>A body that is not streamed\<close>

lemma fold_bodies_failed:
  "as_error s = Some e \<Longrightarrow> as_future s = Failed e \<Longrightarrow>
   as_error (fold as_handle (map EvBody cs) s) = Some e
   \<and> as_future (fold as_handle (map EvBody cs) s) = Failed e"
  by (induction cs arbitrary: s) auto

lemma fold_bodies:
  "\<not> as_stream s \<Longrightarrow> as_error s = None \<Longrightarrow> as_future s = Pending \<Longrightarrow>
   (let s' = fold as_handle (map EvBody cs) s in
    if cs \<noteq> [] \<and> exceeds (as_limit s) (as_total s + length (concat cs))
    then as_error s' = Some (too_large (the (as_limit s)))
         \<and> as_future s' = Failed (too_large (the (as_limit s)))
    else as_error s' = None \<and> as_future s' = Pending \<and> as_body s' = as_body s @ concat cs)"
proof (induction cs arbitrary: s)
  case (Cons c cs)
  show ?case
  proof (cases "exceeds (as_limit s) (as_total s + length c)")
    case True
    with Cons.prems show ?thesis
      using fold_bodies_failed [of "as_on_body c s" "too_large (the (as_limit s))" cs]
        exceeds_mono [OF True, of "as_total s + length (concat (c # cs))"]
      by (simp add: Let_def)
  next
    case False
    with Cons.prems Cons.IH [of "as_on_body c s"] show ?thesis
      by (cases "cs = []") (auto simp: Let_def add.assoc)
  qed
qed (simp add: Let_def)

text \<open>
  C8: Whatever the order in which Core events, the deadline, the consumer's reads and a
  close interleave, the buffered byte count is exactly the size of the queue, what was
  handed to the caller plus what waits for it never exceeds \<open>max_response_bytes\<close>
  (nor does a body collected without streaming), and a closed request holds no chunk and
  has no pending future.
\<close>

theorem async_body_within_limit:
  "case a_run ops (as_init stream limit timeout follow, ar_init limit) of (s, r) \<Rightarrow>
     as_buffered s = int (bytes_of (as_chunks s))
     \<and> \<not> exceeds limit (ar_total r + bytes_of (as_chunks s))
     \<and> \<not> exceeds limit (length (as_body s))
     \<and> (as_closed s \<longrightarrow> as_chunks s = [] \<and> as_future s \<noteq> Pending)"
proof -
  obtain s r where run: "a_run ops (as_init stream limit timeout follow, ar_init limit) = (s, r)"
    by (cases "a_run ops (as_init stream limit timeout follow, ar_init limit)")
  have "as_inv (s, r)" using as_inv_run [of ops stream limit timeout follow] run by simp
  moreover have "as_limit s = limit"
    using am.value_run [where f = "\<lambda>sr. as_limit (fst sr)" and s = "(as_init stream limit timeout follow, ar_init limit)"
        and xs = ops, OF a_apply_fixed(1) as_inv_init]
    by (simp add: a_run_eq [symmetric] run) (simp add: as_init_def)
  ultimately show ?thesis by (auto simp: run as_inv_def exceeds_def split: option.splits)
qed

theorem async_body_within_limit_witness:
  "case a_run [Notify (Inr [EvResponse 200 [], EvBody ''abcd'', EvBody ''efgh'']), Next, Finish True]
          (as_init True (Some 6) True True, ar_init (Some 6)) of (s, r) \<Rightarrow>
     as_buffered s = int (bytes_of (as_chunks s))
     \<and> \<not> exceeds (Some 6) (ar_total r + bytes_of (as_chunks s))
     \<and> \<not> exceeds (Some 6) (length (as_body s))
     \<and> (as_closed s \<longrightarrow> as_chunks s = [] \<and> as_future s \<noteq> Pending)"
  by (rule async_body_within_limit)

text \<open>
  C10: A future that is settled keeps its value: no later event, deadline, read or close
  changes what \<open>get()\<close> was given.
\<close>

theorem async_future_settles_once:
  assumes "as_future (fst (a_run ops (as_init stream limit timeout follow, ar_init limit))) = f"
    and "f \<noteq> Pending"
  shows "as_future (fst (a_run (ops @ more_ops) (as_init stream limit timeout follow, ar_init limit))) = f"
proof -
  let ?sr = "a_run ops (as_init stream limit timeout follow, ar_init limit)"
  have "as_future (fst (am.run more_ops ?sr)) = f"
  proof (rule am.stable_run [where P = "\<lambda>sr. as_future (fst sr) = f"])
    show "as_inv ?sr" by (rule as_inv_run)
    show "as_future (fst ?sr) = f" by (rule assms(1))
    show "\<And>op sr. as_inv sr \<Longrightarrow> as_future (fst sr) = f \<Longrightarrow> as_future (fst (a_apply op sr)) = f"
      using assms(2) by (auto simp: a_apply_fixed(3))
  qed
  then show ?thesis by (simp add: a_run_eq am.run_append)
qed

theorem async_future_settles_once_witness:
  "as_future (fst (a_run ([Notify (Inr [EvResponse 200 [], EvDone])] @ [Expire, Finish True])
     (as_init False None True True, ar_init None))) = Resolved"
  by (rule async_future_settles_once) code_simp+





end
