(* ===== verification/WebSockets.thy ===== *)
theory WebSockets
  imports Exceptions
begin

text \<open>
  \<open>bindings/python/chrome_client/_python_impl/websockets.py\<close>: the blocking
  \<open>WebSocket\<close> and the asyncio \<open>AsyncWebSocket\<close>.  The native socket is the environment:
  a blocking \<open>recv()\<close> takes the next entry of a feed (\<open>None\<close> is the end of the
  stream), \<open>poll_events\<close> returns a batch, and \<open>cancel\<close>, \<open>close\<close> and
  \<open>call_soon\<close> are recorded in the state.  A text frame is kept as its octets; the kind
  says that the caller gets them decoded.
\<close>

section \<open>Events\<close>

datatype ws_kind = KOpen | KText | KBinary | KPing | KError | KClosed | KClosing

type_synonym ws_event = "ws_kind \<times> string \<times> nat option \<times> string"

abbreviation ev_kind :: "ws_event \<Rightarrow> ws_kind" where "ev_kind e \<equiv> fst e"
abbreviation ev_data :: "ws_event \<Rightarrow> string" where "ev_data e \<equiv> fst (snd e)"

definition ws_ends :: "ws_kind \<Rightarrow> bool" where
  "ws_ends k \<longleftrightarrow> k = KError \<or> k = KClosed \<or> k = KClosing"

datatype ws_got =
    Frame ws_kind string
  | NoFrame
  | WsRaise exc_class string "nat option"
  | Blocked

text \<open>What both classes make of an event once it is taken off the queue.\<close>

definition ws_judge :: "ws_event \<Rightarrow> ws_got" where
  "ws_judge e = (case e of (kind, payload, code, err) \<Rightarrow>
     (case kind of
        KError \<Rightarrow> WsRaise WebSocketError (if err \<noteq> [] then name_net_error err else ''WebSocket failure'') None
      | KClosed \<Rightarrow> WsRaise WebSocketClosed ''WebSocket closed'' code
      | KClosing \<Rightarrow> NoFrame
      | _ \<Rightarrow> Frame kind payload))"

lemma ws_judge_frame: "\<not> ws_ends (ev_kind e) \<Longrightarrow> ws_judge e = Frame (ev_kind e) (ev_data e)"
  by (cases e) (auto simp: ws_judge_def ws_ends_def split: ws_kind.splits)

lemma ws_judge_end: "ws_ends (ev_kind e) \<Longrightarrow> ws_judge e \<noteq> Frame k d \<and> ws_judge e \<noteq> Blocked"
  by (cases e) (auto simp: ws_judge_def ws_ends_def)

section \<open>The blocking socket\<close>

record ws =
  ws_opened :: bool
  ws_pending :: "ws_event list"
  ws_closed :: bool
  ws_owned :: bool
  ws_released :: nat
  ws_cancels :: nat
  ws_closes :: "(nat \<times> string) list"

text \<open>The socket a constructor makes; \<open>owned\<close> when it created the session itself.\<close>

definition ws_init :: "bool \<Rightarrow> bool \<Rightarrow> ws_event list \<Rightarrow> ws" where
  "ws_init owned opened pending =
     \<lparr>ws_opened = opened, ws_pending = pending, ws_closed = False, ws_owned = owned,
      ws_released = 0, ws_cancels = 0, ws_closes = []\<rparr>"

definition ws_terminate :: "ws \<Rightarrow> ws" where
  "ws_terminate s = s\<lparr>ws_closed := True, ws_cancels := ws_cancels s + 1\<rparr>"

text \<open>Each entry of the feed carries the clock reading made before that \<open>recv()\<close>.\<close>

fun ws_await_open :: "nat option \<Rightarrow> (nat \<times> ws_event option) list \<Rightarrow> ws \<Rightarrow> ws_got \<times> ws" where
  "ws_await_open deadline feed s =
     (if ws_opened s then (NoFrame, s)
      else case feed of
        [] \<Rightarrow> (Blocked, s)
      | (now, got) # rest \<Rightarrow>
          if (case deadline of None \<Rightarrow> False | Some d \<Rightarrow> d < now)
          then (WsRaise WebSocketTimeout ''WebSocket handshake timed out'' None, ws_terminate s)
          else (case got of
            None \<Rightarrow> (WsRaise WebSocketClosed ''WebSocket closed before the handshake completed'' None,
                     s\<lparr>ws_closed := True\<rparr>)
          | Some (kind, payload, code, err) \<Rightarrow>
              if kind = KOpen then (NoFrame, s\<lparr>ws_opened := True\<rparr>)
              else if kind = KError
              then (WsRaise WebSocketError
                      (if err \<noteq> [] then name_net_error err else ''WebSocket handshake failed'') None,
                    s\<lparr>ws_closed := True\<rparr>)
              else if kind = KClosed \<or> kind = KClosing
              then (WsRaise WebSocketClosed ''WebSocket closed before the handshake completed'' code,
                    s\<lparr>ws_closed := True\<rparr>)
              else ws_await_open deadline rest
                     (s\<lparr>ws_pending := ws_pending s @ [(kind, payload, code, err)]\<rparr>)))"

declare ws_await_open.simps [simp del]

definition ws_accept :: "ws_event \<Rightarrow> ws \<Rightarrow> ws_got \<times> ws" where
  "ws_accept e s = (ws_judge e, if ws_ends (ev_kind e) then s\<lparr>ws_closed := True\<rparr> else s)"

definition ws_next :: "ws_event option list \<Rightarrow> ws \<Rightarrow> ws_got \<times> ws_event option list \<times> ws" where
  "ws_next feed s =
     (case ws_pending s of
        e # es \<Rightarrow> (case ws_accept e (s\<lparr>ws_pending := es\<rparr>) of (g, s1) \<Rightarrow> (g, feed, s1))
      | [] \<Rightarrow>
          (case feed of
             [] \<Rightarrow> (Blocked, [], s)
           | None # rest \<Rightarrow> (NoFrame, rest, s\<lparr>ws_closed := True\<rparr>)
           | Some e # rest \<Rightarrow> (case ws_accept e s of (g, s1) \<Rightarrow> (g, rest, s1))))"

lemma ws_accept_pending [simp]: "ws_pending (snd (ws_accept e s)) = ws_pending s"
  by (simp add: ws_accept_def)

lemma ws_next_consumes:
  "ws_next feed s = (g, feed', s') \<Longrightarrow>
   g = Blocked \<and> feed' = feed \<and> s' = s
   \<or> length (ws_pending s') + length feed' < length (ws_pending s) + length feed"
  by (cases "ws_pending s"; cases feed)
    (auto simp: ws_next_def ws_accept_def split: option.splits if_splits)

text \<open>\<open>recv\<close> skips the open event.\<close>

function ws_recv :: "ws_event option list \<Rightarrow> ws \<Rightarrow> ws_got \<times> ws_event option list \<times> ws" where
  "ws_recv feed s =
     (case ws_next feed s of
        (Frame KOpen d, feed', s') \<Rightarrow> ws_recv feed' s'
      | r \<Rightarrow> r)"
  by pat_completeness auto
termination
  by (relation "measure (\<lambda>(feed, s). length (ws_pending s) + length feed)")
    (auto dest: ws_next_consumes [OF sym])

lemma ws_recv_consumes:
  "ws_recv feed s = (Frame k d, feed', s') \<Longrightarrow>
   length (ws_pending s') + length feed' < length (ws_pending s) + length feed"
proof (induction feed s rule: ws_recv.induct)
  case (1 feed s)
  obtain g f1 s1 where nx: "ws_next feed s = (g, f1, s1)" by (cases "ws_next feed s")
  show ?case
  proof (cases "\<exists>e. g = Frame KOpen e")
    case True
    then obtain e where g: "g = Frame KOpen e" by blast
    have "ws_recv f1 s1 = (Frame k d, feed', s')"
      using "1.prems" by (subst (asm) ws_recv.simps) (simp add: nx g)
    from "1.IH" [OF nx [symmetric] g refl refl this] ws_next_consumes [OF nx] show ?thesis
      by (auto simp: g)
  next
    case False
    with "1.prems" nx have "(g, f1, s1) = (Frame k d, feed', s')"
      by (subst (asm) ws_recv.simps) (auto split: ws_got.splits ws_kind.splits)
    then show ?thesis using ws_next_consumes [OF nx] by auto
  qed
qed

declare ws_recv.simps [simp del]

definition ws_recv_fragment :: "ws_event option list \<Rightarrow> ws \<Rightarrow> (ws_got \<times> string \<times> string) \<times> ws_event option list \<times> ws" where
  "ws_recv_fragment feed s =
     (case ws_next feed s of (g, feed', s') \<Rightarrow>
        ((case g of
            Frame k d \<Rightarrow> (g, d, (case k of KText \<Rightarrow> ''text'' | KBinary \<Rightarrow> ''binary'' | KPing \<Rightarrow> ''ping'' | _ \<Rightarrow> ''open''))
          | NoFrame \<Rightarrow> (g, [], ''closed'')
          | _ \<Rightarrow> (g, [], [])), feed', s'))"

text \<open>\<open>recv_str\<close>: no message is the empty string.\<close>

definition ws_recv_str :: "ws_event option list \<Rightarrow> ws \<Rightarrow> ws_got \<times> ws_event option list \<times> ws" where
  "ws_recv_str feed s =
     (case ws_recv feed s of
        (Frame k d, r) \<Rightarrow> (Frame KText d, r)
      | (NoFrame, r) \<Rightarrow> (Frame KText [], r)
      | r \<Rightarrow> r)"

definition ws_close :: "nat \<Rightarrow> string \<Rightarrow> ws \<Rightarrow> ws" where
  "ws_close code reason s =
     (if ws_closed s then s
      else s\<lparr>ws_closed := True, ws_closes := ws_closes s @ [(code, reason)],
             ws_released := ws_released s + (if ws_owned s then 1 else 0), ws_owned := False\<rparr>)"

datatype ws_call = OnOpen | OnMessage ws_kind string | OnError exc_class string | OnClose

definition OK :: nat where "OK = 1000"

text \<open>
  The loop of \<open>run_forever\<close> with every callback installed; the callbacks are recorded.
  \<open>False\<close> is returned while the loop is blocked in \<open>recv()\<close>.
\<close>

function ws_loop :: "ws_event option list \<Rightarrow> ws \<Rightarrow> ws_call list \<times> bool \<times> ws" where
  "ws_loop feed s =
     (case ws_recv feed s of
        (Frame k d, feed', s') \<Rightarrow>
          (case ws_loop feed' s' of (log, fin) \<Rightarrow> (OnMessage k d # log, fin))
      | (NoFrame, _, s') \<Rightarrow> ([], True, s')
      | (WsRaise c m code, _, s') \<Rightarrow>
          ((if is_subclass c WebSocketClosed then [] else [OnError c m]), True, s')
      | (Blocked, _, s') \<Rightarrow> ([], False, s'))"
  by pat_completeness auto
termination
  by (relation "measure (\<lambda>(feed, s). length (ws_pending s) + length feed)")
    (auto dest: ws_recv_consumes [OF sym])

declare ws_loop.simps [simp del]

definition ws_run_forever :: "ws_event option list \<Rightarrow> ws \<Rightarrow> ws_call list \<times> bool \<times> ws" where
  "ws_run_forever feed s =
     (case ws_loop feed s of (log, ended, s') \<Rightarrow>
        if ended then (OnOpen # log @ [OnClose], True, ws_close OK [] s')
        else (OnOpen # log, False, s'))"

subsection \<open>Messages in order\<close>

lemma ws_next_feed:
  "ws_pending s = [] \<Longrightarrow> ws_next (Some e # rest) s =
     (ws_judge e, rest, if ws_ends (ev_kind e) then s\<lparr>ws_closed := True\<rparr> else s)"
  by (simp add: ws_next_def ws_accept_def)

lemma ws_recv_feed:
  assumes "ws_pending s = []" and "\<not> ws_ends (ev_kind e)"
  shows "ws_recv (Some e # rest) s =
     (if ev_kind e = KOpen then ws_recv rest s else (Frame (ev_kind e) (ev_data e), rest, s))"
  using assms by (subst ws_recv.simps) (auto simp: ws_next_feed ws_judge_frame split: ws_kind.splits)

lemma ws_recv_end:
  assumes "ws_pending s = []" and "ws_ends (ev_kind e)"
  shows "ws_recv (Some e # rest) s = (ws_judge e, rest, s\<lparr>ws_closed := True\<rparr>)"
  using assms ws_judge_end [of e] by (subst ws_recv.simps) (auto simp: ws_next_feed split: ws_got.splits)

lemma ws_loop_cong: "ws_recv feed s = ws_recv feed' s' \<Longrightarrow> ws_loop feed s = ws_loop feed' s'"
  by (subst (1 2) ws_loop.simps) simp

definition messages :: "ws_event list \<Rightarrow> ws_call list" where
  "messages es = map (\<lambda>e. OnMessage (ev_kind e) (ev_data e)) (filter (\<lambda>e. ev_kind e \<noteq> KOpen) es)"

lemma ws_loop_frames:
  "ws_pending s = [] \<Longrightarrow> list_all (\<lambda>e. \<not> ws_ends (ev_kind e)) es \<Longrightarrow>
   ws_loop (map Some es @ feed) s = (case ws_loop feed s of (log, fin) \<Rightarrow> (messages es @ log, fin))"
proof (induction es)
  case (Cons e es)
  show ?case
  proof (cases "ev_kind e = KOpen")
    case True
    with Cons have "ws_loop (map Some (e # es) @ feed) s = ws_loop (map Some es @ feed) s"
      by (intro ws_loop_cong) (simp add: ws_recv_feed)
    with Cons True show ?thesis by (simp add: messages_def)
  next
    case False
    with Cons show ?thesis
      by (subst ws_loop.simps) (simp add: ws_recv_feed messages_def split: prod.splits)
  qed
qed (simp add: messages_def split: prod.splits)

lemma not_closed_class: "\<not> is_subclass WebSocketError WebSocketClosed"
  by code_simp

lemma ws_loop_end:
  assumes "ws_pending s = []" and "ws_ends (ev_kind e)"
  shows "ws_loop (Some e # rest) s =
     ((case ws_judge e of WsRaise WebSocketError m code \<Rightarrow> [OnError WebSocketError m] | _ \<Rightarrow> []),
      True, s\<lparr>ws_closed := True\<rparr>)"
proof -
  have "ws_judge e = NoFrame \<or> (\<exists>m. ws_judge e = WsRaise WebSocketError m None)
      \<or> (\<exists>m code. ws_judge e = WsRaise WebSocketClosed m code)"
    using assms(2) by (cases e) (auto simp: ws_judge_def ws_ends_def)
  then show ?thesis
    using assms by (subst ws_loop.simps) (auto simp: ws_recv_end not_closed_class)
qed

text \<open>
  C25: \<open>run_forever\<close> calls \<open>on_open\<close> first, hands over every frame once and in the
  order of arrival, open events apart, reports an error event to \<open>on_error\<close> and nothing
  for a closing handshake, calls \<open>on_close\<close> last, and returns.
\<close>

theorem ws_run_forever_dispatch:
  assumes "ws_pending s = []" and "list_all (\<lambda>e. \<not> ws_ends (ev_kind e)) es" and "ws_ends (ev_kind e)"
  shows "ws_run_forever (map Some es @ Some e # rest) s =
     (OnOpen # messages es
        @ (case ws_judge e of WsRaise WebSocketError m code \<Rightarrow> [OnError WebSocketError m] | _ \<Rightarrow> [])
        @ [OnClose],
      True, s\<lparr>ws_closed := True\<rparr>)"
  using assms by (simp add: ws_run_forever_def ws_loop_frames ws_loop_end ws_close_def)

theorem ws_run_forever_dispatch_witness:
  "ws_run_forever [Some (KOpen, [], None, []), Some (KText, ''hi'', None, []), Some (KClosed, [], Some 1000, [])]
       (ws_init False True []) =
     ([OnOpen, OnMessage KText ''hi'', OnClose], True, (ws_init False True [])\<lparr>ws_closed := True\<rparr>)"
  using ws_run_forever_dispatch [of "ws_init False True []" "[(KOpen, [], None, []), (KText, ''hi'', None, [])]"
      "(KClosed, [], Some 1000, [])" "[]"]
  by (simp add: ws_init_def ws_ends_def ws_judge_def messages_def)

text \<open>
  A socket that owns its session releases it when the caller closes first, but not
  when the peer does: after a received error or close the socket is already marked closed,
  and \<open>close()\<close> (which \<open>run_forever\<close> and \<open>__exit__\<close> call) returns before it reaches
  the session.
\<close>

theorem ws_peer_close_keeps_session:
  assumes "ws_pending s = []" and "ws_owned s" and "\<not> ws_closed s" and "ws_ends (ev_kind e)"
  shows "ws_released (ws_close code reason s) = ws_released s + 1
    \<and> \<not> ws_owned (ws_close code reason s)
    \<and> ws_close code reason (snd (snd (ws_recv (Some e # rest) s))) = s\<lparr>ws_closed := True\<rparr>
    \<and> ws_owned (ws_close code reason (snd (snd (ws_recv (Some e # rest) s))))"
  using assms by (auto simp: ws_close_def ws_recv_end)

theorem ws_peer_close_keeps_session_witness:
  "ws_owned (ws_close OK [] (snd (snd (ws_recv [Some (KClosed, [], Some 1000, [])] (ws_init True True [])))))"
  using ws_peer_close_keeps_session [of "ws_init True True []" "(KClosed, [], Some 1000, [])" OK "[]" "[]"]
  by (simp add: ws_init_def ws_ends_def)

text \<open>
  The handshake deadline is not enforced while \<open>recv()\<close> blocks: a first read made in
  time that returns the open event opens the socket however late it returns, since the
  clock is read before the call only.  With a deadline that is read as passed the socket is
  cancelled and \<open>WebSocketTimeout\<close> is raised, and frames that overtake the open event
  are kept for the first \<open>recv()\<close>.
\<close>

theorem ws_await_open_queues_early_frames:
  assumes "\<not> ws_opened s" and "list_all (\<lambda>e. \<not> ws_ends (ev_kind e) \<and> ev_kind e \<noteq> KOpen) es"
    and "length clocks = length es" and "list_all (\<lambda>now. now \<le> d) (now # clocks)"
  shows "ws_await_open (Some d) (zip clocks (map Some es) @ (now, Some (KOpen, payload, code, err)) # rest) s =
     (NoFrame, s\<lparr>ws_opened := True, ws_pending := ws_pending s @ es\<rparr>)"
  using assms(3,1,2,4)
proof (induction clocks es arbitrary: s rule: list_induct2)
  case Nil
  then show ?case by (subst ws_await_open.simps) simp
next
  case (Cons t ts e es)
  obtain k p c r where e: "e = (k, p, c, r)" by (cases e)
  from Cons show ?case
    by (subst ws_await_open.simps) (auto simp: e ws_ends_def)
qed

theorem ws_await_open_queues_early_frames_witness:
  "ws_await_open (Some 5) [(1, Some (KText, ''x'', None, [])), (2, Some (KOpen, [], None, []))] (ws_init False False [])
   = (NoFrame, (ws_init False False [])\<lparr>ws_opened := True, ws_pending := [(KText, ''x'', None, [])]\<rparr>)"
  using ws_await_open_queues_early_frames [of "ws_init False False []" "[(KText, ''x'', None, [])]" "[1]" 5 2 "[]" None "[]" "[]"]
  by (simp add: ws_init_def ws_ends_def)

section \<open>The asyncio socket\<close>

definition MAX_QUEUED_EVENTS :: nat where "MAX_QUEUED_EVENTS = 1024"
definition MAX_QUEUED_BYTES :: nat where "MAX_QUEUED_BYTES = 4 * 1024 * 1024"

record aws =
  aw_events :: "ws_event list"
  aw_queued_bytes :: nat
  aw_wake :: bool
  aw_closed :: bool
  aw_opened :: bool
  aw_cancels :: nat
  aw_detached :: nat
  aw_soon :: nat
  aw_closes :: "(nat \<times> string) list"

definition aw_init :: aws where
  "aw_init = \<lparr>aw_events = [], aw_queued_bytes = 0, aw_wake = False, aw_closed = False,
     aw_opened = False, aw_cancels = 0, aw_detached = 0, aw_soon = 0, aw_closes = []\<rparr>"

definition overflow_event :: ws_event where
  "overflow_event = (KError, [], None, ''WebSocket event buffer limit exceeded'')"

definition aw_enqueue :: "ws_event \<Rightarrow> aws \<Rightarrow> aws" where
  "aw_enqueue e s =
     (if aw_closed s then s
      else
        let size = length (ev_data e) in
        if MAX_QUEUED_EVENTS \<le> length (aw_events s) \<or> MAX_QUEUED_BYTES < aw_queued_bytes s + size
        then s\<lparr>aw_closed := True, aw_cancels := aw_cancels s + 1,
               aw_events := aw_events s @ [overflow_event], aw_wake := True\<rparr>
        else s\<lparr>aw_events := aw_events s @ [e], aw_queued_bytes := aw_queued_bytes s + size,
               aw_wake := True\<rparr>)"

definition aw_drain :: "string + ws_event list \<Rightarrow> aws \<Rightarrow> aws" where
  "aw_drain polled s =
     (if aw_closed s then s
      else case polled of
        Inl message \<Rightarrow> s\<lparr>aw_events := aw_events s @ [(KError, [], None, message)], aw_wake := True\<rparr>
      | Inr es \<Rightarrow>
          let s1 = fold aw_enqueue es s
          in if length es = 64 then s1\<lparr>aw_soon := aw_soon s1 + 1\<rparr> else s1)"

text \<open>
  One pass of \<open>_next\<close>; \<open>Blocked\<close> is the await on the wake event.  The \<open>_recv_active\<close>
  guard makes passes of two readers never overlap.
\<close>

definition aw_next :: "aws \<Rightarrow> ws_got \<times> aws" where
  "aw_next s =
     (case aw_events s of
        [] \<Rightarrow> if aw_closed s then (NoFrame, s) else (Blocked, s\<lparr>aw_wake := False\<rparr>)
      | e # es \<Rightarrow>
          let s1 = s\<lparr>aw_events := es, aw_queued_bytes := aw_queued_bytes s - length (ev_data e)\<rparr>
          in (ws_judge e, if ws_ends (ev_kind e) then s1\<lparr>aw_closed := True\<rparr> else s1))"

lemma aw_next_frame: "aw_next s = (Frame k d, s') \<Longrightarrow> length (aw_events s') < length (aw_events s)"
  by (cases "aw_events s") (auto simp: aw_next_def Let_def split: if_splits)

function aw_recv :: "aws \<Rightarrow> ws_got \<times> aws" where
  "aw_recv s = (case aw_next s of (Frame KOpen d, s') \<Rightarrow> aw_recv s' | r \<Rightarrow> r)"
  by pat_completeness auto
termination
  by (relation "measure (\<lambda>s. length (aw_events s))") (auto dest: aw_next_frame [OF sym])

declare aw_recv.simps [simp del]

text \<open>One pass of \<open>_await_open\<close>; the second flag says that the deadline has passed.\<close>

definition aw_await_open :: "bool \<Rightarrow> aws \<Rightarrow> ws_got \<times> aws" where
  "aw_await_open expired s =
     (if aw_opened s then (NoFrame, s)
      else case aw_events s of
        (kind, payload, code, err) # es \<Rightarrow>
          if kind = KOpen then (NoFrame, s\<lparr>aw_events := es, aw_opened := True\<rparr>)
          else if kind = KError
          then (WsRaise WebSocketError
                  (if err \<noteq> [] then name_net_error err else ''WebSocket handshake failed'') None,
                s\<lparr>aw_events := es, aw_closed := True\<rparr>)
          else if kind = KClosed \<or> kind = KClosing
          then (WsRaise WebSocketClosed ''WebSocket closed before the handshake completed'' code,
                s\<lparr>aw_events := es, aw_closed := True\<rparr>)
          else (NoFrame, s\<lparr>aw_opened := True\<rparr>)
      | [] \<Rightarrow>
          if aw_closed s
          then (WsRaise WebSocketClosed ''WebSocket closed before the handshake completed'' None, s)
          else if expired
          then (WsRaise WebSocketTimeout ''WebSocket handshake timed out'' None, s\<lparr>aw_wake := False\<rparr>)
          else (Blocked, s\<lparr>aw_wake := False\<rparr>))"

definition aw_close :: "nat \<Rightarrow> string \<Rightarrow> aws \<Rightarrow> aws" where
  "aw_close code reason s =
     (if aw_closed s then s
      else s\<lparr>aw_closed := True, aw_wake := True, aw_detached := aw_detached s + 1,
             aw_closes := aw_closes s @ [(code, reason)]\<rparr>)"

definition aw_terminate :: "aws \<Rightarrow> aws" where
  "aw_terminate s = s\<lparr>aw_closed := True, aw_wake := True, aw_cancels := aw_cancels s + 1\<rparr>"

datatype aw_op =
    Poll "string + ws_event list" | Take | AwaitOpen bool | Close nat string | Terminate

fun aw_apply :: "aw_op \<Rightarrow> aws \<Rightarrow> aws" where
  "aw_apply (Poll polled) s = aw_drain polled s"
| "aw_apply Take s = snd (aw_next s)"
| "aw_apply (AwaitOpen expired) s = snd (aw_await_open expired s)"
| "aw_apply (Close code reason) s = aw_close code reason s"
| "aw_apply Terminate s = aw_terminate s"

definition aw_run :: "aw_op list \<Rightarrow> aws \<Rightarrow> aws" where
  "aw_run ops s = fold aw_apply ops s"

section \<open>Bounded queue\<close>

definition held :: "ws_event list \<Rightarrow> nat" where
  "held es = sum_list (map (\<lambda>e. length (ev_data e)) es)"

lemma held_simps [simp]:
  "held [] = 0" "held (e # es) = length (ev_data e) + held es" "held (es @ fs) = held es + held fs"
  by (simp_all add: held_def)

definition aw_inv :: "aws \<Rightarrow> bool" where
  "aw_inv s \<longleftrightarrow> held (aw_events s) \<le> aw_queued_bytes s \<and> aw_queued_bytes s \<le> MAX_QUEUED_BYTES
     \<and> length (aw_closes s) \<le> 1 \<and> (aw_closes s \<noteq> [] \<longrightarrow> aw_closed s)"

lemma aw_inv_enqueue: "aw_inv s \<Longrightarrow> aw_inv (aw_enqueue e s)"
  by (auto simp: aw_inv_def aw_enqueue_def overflow_event_def Let_def)

lemma aw_inv_fold: "aw_inv s \<Longrightarrow> aw_inv (fold aw_enqueue es s)"
  by (induction es arbitrary: s) (auto simp: aw_inv_enqueue)

lemma aw_inv_drain: "aw_inv s \<Longrightarrow> aw_inv (aw_drain polled s)"
proof -
  assume inv: "aw_inv s"
  have "aw_inv (t\<lparr>aw_soon := n\<rparr>) = aw_inv t" for t n by (simp add: aw_inv_def)
  with inv aw_inv_fold [OF inv] show ?thesis
    by (auto simp: aw_drain_def Let_def aw_inv_def [of "_\<lparr>aw_events := _, aw_wake := _\<rparr>"]
        split: sum.splits) (auto simp: aw_inv_def)
qed

lemma aw_inv_take: "aw_inv s \<Longrightarrow> aw_inv (snd (aw_next s))"
  by (cases "aw_events s") (auto simp: aw_next_def aw_inv_def Let_def)

lemma aw_inv_await: "aw_inv s \<Longrightarrow> aw_inv (snd (aw_await_open b s))"
  by (cases "aw_events s") (auto simp: aw_await_open_def aw_inv_def split: if_splits)

interpretation aw: safe_machine aw_apply aw_inv
proof
  fix s op
  assume "aw_inv s"
  then show "aw_inv (aw_apply op s)"
    by (cases op) (auto simp: aw_inv_drain aw_inv_take aw_inv_await,
        auto simp: aw_inv_def aw_close_def aw_terminate_def)
qed

lemma aw_run_eq: "aw_run ops s = aw.run ops s"
  by (simp add: aw_run_def aw.run_def)

lemma aw_inv_init: "aw_inv aw_init"
  by (simp add: aw_inv_def aw_init_def)

text \<open>
  C27: However polls, reads, the handshake wait, close and terminate interleave, the
  octets an asyncio socket buffers never exceed four mebibytes, and the closing handshake
  is started at most once.
\<close>

theorem aw_queue_bounded:
  "held (aw_events (aw_run ops aw_init)) \<le> MAX_QUEUED_BYTES
   \<and> length (aw_closes (aw_run ops aw_init)) \<le> 1"
  using aw.inv_run [OF aw_inv_init, of ops] by (simp add: aw_run_eq aw_inv_def)

section \<open>No silent loss\<close>

text \<open>The events a run takes off the queue, and the events its polls bring.\<close>

fun aw_taken :: "aw_op list \<Rightarrow> aws \<Rightarrow> ws_event list" where
  "aw_taken [] s = []"
| "aw_taken (op # ops) s =
     (case (op, aw_events s) of (Take, e # es) \<Rightarrow> [e] | _ \<Rightarrow> []) @ aw_taken ops (aw_apply op s)"

fun aw_arrived :: "aw_op list \<Rightarrow> ws_event list" where
  "aw_arrived [] = []"
| "aw_arrived (Poll (Inr es) # ops) = es @ aw_arrived ops"
| "aw_arrived (op # ops) = aw_arrived ops"

fun polls_and_takes :: "aw_op \<Rightarrow> bool" where
  "polls_and_takes (Poll (Inr es)) = True"
| "polls_and_takes Take = True"
| "polls_and_takes op = False"

text \<open>
  \<open>complete D Q A closed\<close>: what was taken followed by what is queued is all that
  arrived; or the socket is closed and it is a prefix of it, cut by a closing event that
  was taken or ended by the overflow error.
\<close>

definition complete :: "ws_event list \<Rightarrow> ws_event list \<Rightarrow> ws_event list \<Rightarrow> bool \<Rightarrow> bool" where
  "complete D Q A closed \<longleftrightarrow>
     \<not> closed \<and> D @ Q = A
     \<or> closed \<and> (\<exists>k \<le> length A. D @ Q = take k A @ [overflow_event]
                  \<or> D @ Q = take k A \<and> (\<exists>e \<in> set D. ws_ends (ev_kind e)))"

lemma fold_enqueue_closed: "aw_closed s \<Longrightarrow> fold aw_enqueue es s = s"
  by (induction es) (auto simp: aw_enqueue_def)

lemma fold_enqueue_events:
  "\<not> aw_closed s \<Longrightarrow>
   \<not> aw_closed (fold aw_enqueue es s) \<and> aw_events (fold aw_enqueue es s) = aw_events s @ es
   \<or> aw_closed (fold aw_enqueue es s)
     \<and> (\<exists>k \<le> length es. aw_events (fold aw_enqueue es s) = aw_events s @ take k es @ [overflow_event])"
proof (induction es arbitrary: s)
  case (Cons e es)
  show ?case
  proof (cases "aw_closed (aw_enqueue e s)")
    case True
    with Cons.prems have "aw_events (aw_enqueue e s) = aw_events s @ take 0 (e # es) @ [overflow_event]"
      by (auto simp: aw_enqueue_def Let_def split: if_splits)
    with True show ?thesis by (auto simp: fold_enqueue_closed)
  next
    case False
    with Cons.prems have "aw_events (aw_enqueue e s) = aw_events s @ [e]"
      by (auto simp: aw_enqueue_def Let_def split: if_splits)
    with Cons.IH [OF False] show ?thesis
      by auto
  qed
qed simp

lemma complete_more: "complete D Q A True \<Longrightarrow> complete D Q (A @ B) True"
proof -
  assume "complete D Q A True"
  then obtain k where "k \<le> length A"
    and "D @ Q = take k A @ [overflow_event] \<or> D @ Q = take k A \<and> (\<exists>e \<in> set D. ws_ends (ev_kind e))"
    by (auto simp: complete_def)
  then have "k \<le> length (A @ B)" and "D @ Q = take k (A @ B) @ [overflow_event]
      \<or> D @ Q = take k (A @ B) \<and> (\<exists>e \<in> set D. ws_ends (ev_kind e))"
    by auto
  then show ?thesis unfolding complete_def by blast
qed

lemma complete_poll:
  assumes "complete D (aw_events s) A (aw_closed s)"
  shows "complete D (aw_events (aw_drain (Inr es) s)) (A @ es) (aw_closed (aw_drain (Inr es) s))"
proof (cases "aw_closed s")
  case True
  with assms show ?thesis by (simp add: aw_drain_def complete_more)
next
  case False
  let ?s = "fold aw_enqueue es s"
  have A: "D @ aw_events s = A" using assms False by (simp add: complete_def)
  have "complete D (aw_events ?s) (A @ es) (aw_closed ?s)"
    using fold_enqueue_events [OF False, of es]
  proof (elim disjE conjE exE)
    fix k
    assume "aw_closed ?s" "k \<le> length es" "aw_events ?s = aw_events s @ take k es @ [overflow_event]"
    moreover from this have "length A + k \<le> length (A @ es)"
      and "D @ aw_events ?s = take (length A + k) (A @ es) @ [overflow_event]"
      by (auto simp: A [symmetric])
    ultimately show ?thesis unfolding complete_def by blast
  qed (use A in \<open>simp add: complete_def\<close>)
  with False show ?thesis by (simp add: aw_drain_def Let_def)
qed

lemma complete_take:
  assumes "complete D (e # Q) A closed"
  shows "complete (D @ [e]) Q A (closed \<or> ws_ends (ev_kind e))"
  using assms unfolding complete_def by (cases closed) (auto intro: exI [of _ "length A"])

lemma aw_run_complete:
  "complete D (aw_events s) A (aw_closed s) \<Longrightarrow> list_all polls_and_takes ops \<Longrightarrow>
   complete (D @ aw_taken ops s) (aw_events (aw_run ops s)) (A @ aw_arrived ops) (aw_closed (aw_run ops s))"
proof (induction ops arbitrary: D s A)
  case (Cons op ops)
  consider es where "op = Poll (Inr es)" | "op = Take" using Cons.prems(2)
    by (cases op rule: polls_and_takes.cases) auto
  then show ?case
  proof cases
    case 1
    with Cons.IH [OF complete_poll [OF Cons.prems(1), of es]] Cons.prems(2) show ?thesis
      by (simp add: aw_run_def)
  next
    case 2
    show ?thesis
    proof (cases "aw_events s")
      case Nil
      with 2 Cons.IH [of D "snd (aw_next s)" A] Cons.prems show ?thesis
        by (auto simp: aw_run_def aw_next_def)
    next
      case (Cons e es)
      with 2 Cons.IH [of "D @ [e]" "snd (aw_next s)" A] complete_take [of D e es A "aw_closed s"] Cons.prems
      show ?thesis
        by (cases "ws_ends (ev_kind e)") (auto simp: aw_run_def aw_next_def Let_def)
    qed
  qed
qed (simp add: aw_run_def)



end
