(* ===== verification/Py_Url.thy ===== *)
theory Py_Url
  imports Exceptions
begin

text \<open>
  The parts of Python's \<open>urllib.parse\<close> the program uses: \<open>urlsplit\<close>,
  \<open>urlunsplit\<close>, \<open>urljoin\<close>, the host and port of a network location, \<open>quote\<close> and
  \<open>unquote\<close>.  They follow CPython for the code points below 256, except that the
  contents of a bracketed host are not checked to be an address and that \<open>unquote\<close>
  yields the UTF-8 octets it would decode.
\<close>

section \<open>Cutting strings\<close>

text \<open>\<open>s.partition(c)\<close>: the text before, whether \<open>c\<close> was found, the text after.\<close>

definition partition_at :: "char \<Rightarrow> string \<Rightarrow> string \<times> bool \<times> string" where
  "partition_at c s =
     (if c \<in> set s then (takeWhile (\<lambda>x. x \<noteq> c) s, True, tl (dropWhile (\<lambda>x. x \<noteq> c) s))
      else (s, False, []))"

text \<open>\<open>s.rpartition(c)\<close>\<close>

definition rpartition_at :: "char \<Rightarrow> string \<Rightarrow> string \<times> bool \<times> string" where
  "rpartition_at c s =
     (if c \<in> set s
      then (rev (tl (dropWhile (\<lambda>x. x \<noteq> c) (rev s))), True, rev (takeWhile (\<lambda>x. x \<noteq> c) (rev s)))
      else ([], False, s))"

lemma partition_at_found: "c \<in> set s \<Longrightarrow> partition_at c s = (a, f, b) \<Longrightarrow> s = a @ c # b \<and> f \<and> c \<notin> set a"
  using split_once_recover [of c s a b]
  by (auto simp: partition_at_def split_once_def dest: set_takeWhileD)

lemma partition_at_append: "c \<notin> set a \<Longrightarrow> partition_at c (a @ c # b) = (a, True, b)"
  by (induction a) (auto simp: partition_at_def)

lemma partition_at_absent: "c \<notin> set a \<Longrightarrow> partition_at c a = (a, False, [])"
  by (simp add: partition_at_def)

section \<open>Splitting a URL\<close>

record url_parts =
  u_scheme :: string
  u_netloc :: string
  u_path :: string
  u_params :: string
  u_query :: string
  u_fragment :: string

definition ascii_alpha :: "char \<Rightarrow> bool" where
  "ascii_alpha c \<longleftrightarrow> (let n = cp c in 65 \<le> n \<and> n \<le> 90 \<or> 97 \<le> n \<and> n \<le> 122)"

definition scheme_char :: "char \<Rightarrow> bool" where
  "scheme_char c \<longleftrightarrow> ascii_alpha c \<or> ascii_digit c \<or> c \<in> set ''+-.''"

text \<open>Leading control characters and spaces go, and so does every tab and line end.\<close>

definition clean_url :: "string \<Rightarrow> string" where
  "clean_url url = filter (\<lambda>c. cp c \<noteq> 9 \<and> cp c \<noteq> 10 \<and> cp c \<noteq> 13) (dropWhile (\<lambda>c. cp c \<le> 32) url)"

definition split_scheme :: "string \<Rightarrow> string \<Rightarrow> string \<times> string" where
  "split_scheme default_scheme url =
     (case partition_at CHR '':'' url of
        (s, True, rest) \<Rightarrow>
          if s \<noteq> [] \<and> ascii_alpha (hd s) \<and> list_all scheme_char s then (py_lower s, rest)
          else (default_scheme, url)
      | _ \<Rightarrow> (default_scheme, url))"

definition split_netloc :: "string \<Rightarrow> string \<times> string" where
  "split_netloc url =
     (if startswith url ''//''
      then (takeWhile (\<lambda>c. c \<notin> set ''/?#'') (drop 2 url), dropWhile (\<lambda>c. c \<notin> set ''/?#'') (drop 2 url))
      else ([], url))"

definition urlsplit_with :: "string \<Rightarrow> string \<Rightarrow> exc_class + url_parts" where
  "urlsplit_with default_scheme url =
     (let (scheme, r1) = split_scheme default_scheme (clean_url url);
          (netloc, r2) = split_netloc r1;
          (r3, _, fragment) = partition_at CHR ''#'' r2;
          (path, _, query) = partition_at CHR ''?'' r3
      in if (CHR ''['' \<in> set netloc) \<noteq> (CHR '']'' \<in> set netloc) then Inl ValueError
         else Inr \<lparr>u_scheme = scheme, u_netloc = netloc, u_path = path, u_params = [],
                   u_query = query, u_fragment = fragment\<rparr>)"

definition urlsplit :: "string \<Rightarrow> exc_class + url_parts" where
  "urlsplit url = urlsplit_with [] url"

text \<open>The schemes of \<open>uses_relative\<close>, \<open>uses_netloc\<close> and \<open>uses_params\<close>.\<close>

definition uses_relative :: "string list" where
  "uses_relative = [[], ''ftp'', ''http'', ''gopher'', ''nntp'', ''imap'', ''wais'', ''file'', ''https'',
     ''shttp'', ''mms'', ''prospero'', ''rtsp'', ''rtsps'', ''rtspu'', ''sftp'', ''svn'', ''svn+ssh'', ''ws'', ''wss'']"

definition uses_netloc :: "string list" where
  "uses_netloc = [[], ''ftp'', ''http'', ''gopher'', ''nntp'', ''telnet'', ''imap'', ''wais'', ''file'', ''mms'',
     ''https'', ''shttp'', ''snews'', ''prospero'', ''rtsp'', ''rtsps'', ''rtspu'', ''rsync'', ''svn'',
     ''svn+ssh'', ''sftp'', ''nfs'', ''git'', ''git+ssh'', ''ws'', ''wss'', ''itms-services'']"

definition uses_params :: "string list" where
  "uses_params = [[], ''ftp'', ''hdl'', ''prospero'', ''http'', ''imap'', ''https'', ''shttp'', ''rtsp'',
     ''rtsps'', ''rtspu'', ''sip'', ''sips'', ''mms'', ''sftp'', ''tel'']"

text \<open>\<open>urlparse\<close> also takes the parameters off the last segment of the path.\<close>

definition split_params :: "string \<Rightarrow> string \<times> string" where
  "split_params path =
     (case rpartition_at CHR ''/'' path of
        (before, slash, last_seg) \<Rightarrow>
          (case partition_at CHR '';'' last_seg of
             (seg, semi, params) \<Rightarrow> ((if slash then before @ ''/'' @ seg else seg), params)))"

definition urlparse_with :: "string \<Rightarrow> string \<Rightarrow> exc_class + url_parts" where
  "urlparse_with default_scheme url =
     bind_res (urlsplit_with default_scheme url) (\<lambda>p.
       if u_scheme p \<in> set uses_params \<and> CHR '';'' \<in> set (u_path p)
       then (case split_params (u_path p) of (path, params) \<Rightarrow>
               Inr (p\<lparr>u_path := path, u_params := params\<rparr>))
       else Inr p)"

definition urlparse :: "string \<Rightarrow> exc_class + url_parts" where
  "urlparse url = urlparse_with [] url"

definition urlunparse :: "url_parts \<Rightarrow> string" where
  "urlunparse p =
     (let path = (if u_params p \<noteq> [] then u_path p @ '';'' @ u_params p else u_path p);
          url1 = (if u_netloc p \<noteq> []
                     \<or> u_scheme p \<noteq> [] \<and> u_scheme p \<in> set uses_netloc \<and> \<not> startswith path ''//''
                  then ''//'' @ u_netloc p @ (if path \<noteq> [] \<and> \<not> startswith path ''/'' then ''/'' @ path else path)
                  else path);
          url2 = (if u_scheme p \<noteq> [] then u_scheme p @ '':'' @ url1 else url1);
          url3 = (if u_query p \<noteq> [] then url2 @ ''?'' @ u_query p else url2)
      in if u_fragment p \<noteq> [] then url3 @ ''#'' @ u_fragment p else url3)"

section \<open>Joining\<close>

definition dot_step :: "string list \<Rightarrow> string \<Rightarrow> string list" where
  "dot_step acc seg = (if seg = ''..'' then butlast acc else if seg = ''.'' then acc else acc @ [seg])"

text \<open>\<open>segments[1:-1] = filter(None, segments[1:-1])\<close>\<close>

definition drop_empty_middle :: "string list \<Rightarrow> string list" where
  "drop_empty_middle segs =
     (case segs of
        [] \<Rightarrow> [] | [x] \<Rightarrow> [x]
      | x # rest \<Rightarrow> x # filter (\<lambda>w. w \<noteq> []) (butlast rest) @ [last rest])"

definition join_path :: "string \<Rightarrow> string \<Rightarrow> string" where
  "join_path bpath path =
     (let base_parts = (let b = split_on CHR ''/'' bpath in if last b \<noteq> [] then butlast b else b);
          segments = (if startswith path ''/'' then split_on CHR ''/'' path
                      else drop_empty_middle (base_parts @ split_on CHR ''/'' path));
          resolved = foldl dot_step [] segments;
          resolved' = (if last segments \<in> {''.'', ''..''} then resolved @ [[]] else resolved);
          joined = join ''/'' resolved'
      in if joined = [] then ''/'' else joined)"

definition urljoin :: "string \<Rightarrow> string \<Rightarrow> exc_class + string" where
  "urljoin base url =
     (if base = [] then Inr url else if url = [] then Inr base
      else bind_res (urlparse base) (\<lambda>b. bind_res (urlparse_with (u_scheme b) url) (\<lambda>u.
        if u_scheme u \<noteq> u_scheme b \<or> u_scheme u \<notin> set uses_relative then Inr url
        else if u_scheme u \<in> set uses_netloc \<and> u_netloc u \<noteq> [] then Inr (urlunparse u)
        else
          let v = (if u_scheme u \<in> set uses_netloc then u\<lparr>u_netloc := u_netloc b\<rparr> else u)
          in if u_path v = [] \<and> u_params v = []
             then Inr (urlunparse (v\<lparr>u_path := u_path b, u_params := u_params b,
                         u_query := (if u_query v = [] then u_query b else u_query v)\<rparr>))
             else Inr (urlunparse (v\<lparr>u_path := join_path (u_path b) (u_path v)\<rparr>)))))"

section \<open>Host and port\<close>

definition userinfo :: "string \<Rightarrow> string option \<times> string option" where
  "userinfo netloc =
     (case rpartition_at CHR ''@'' netloc of
        (info, True, _) \<Rightarrow> (case partition_at CHR '':'' info of
            (user, True, pw) \<Rightarrow> (Some user, Some pw) | (user, False, _) \<Rightarrow> (Some user, None))
      | _ \<Rightarrow> (None, None))"

definition hostinfo :: "string \<Rightarrow> string \<times> string" where
  "hostinfo netloc =
     (case rpartition_at CHR ''@'' netloc of (_, _, info) \<Rightarrow>
        (case partition_at CHR ''['' info of
           (_, True, bracketed) \<Rightarrow>
             (case partition_at CHR '']'' bracketed of (host, _, r) \<Rightarrow>
                (host, snd (snd (partition_at CHR '':'' r))))
         | _ \<Rightarrow> (case partition_at CHR '':'' info of (host, _, port) \<Rightarrow> (host, port))))"

definition url_hostname :: "url_parts \<Rightarrow> string option" where
  "url_hostname p =
     (let h = fst (hostinfo (u_netloc p)) in
      if h = [] then None
      else (case partition_at CHR ''%'' h of
              (host, found, zone) \<Rightarrow> Some (py_lower host @ (if found then ''%'' @ zone else []))))"

text \<open>\<open>.port\<close> raises \<open>ValueError\<close> for anything but a decimal below 65536.\<close>

definition url_port :: "url_parts \<Rightarrow> exc_class + nat option" where
  "url_port p =
     (let port = snd (hostinfo (u_netloc p)) in
      if port = [] then Inr None
      else if list_all ascii_digit port \<and> read_nat port \<le> 65535 then Inr (Some (read_nat port))
      else Inl ValueError)"

section \<open>Percent encoding\<close>

definition ALWAYS_SAFE :: "string" where
  "ALWAYS_SAFE = ''ABCDEFGHIJKLMNOPQRSTUVWXYZabcdefghijklmnopqrstuvwxyz0123456789_.-~''"

definition hex_digit :: "nat \<Rightarrow> char" where
  "hex_digit d = (if d < 10 then char_of (48 + d) else char_of (55 + d))"

definition pct_encode :: "char \<Rightarrow> string" where
  "pct_encode b = CHR ''%'' # [hex_digit (cp b div 16), hex_digit (cp b mod 16)]"

text \<open>\<open>quote_from_bytes(octets, safe)\<close>; non-ASCII characters of \<open>safe\<close> are ignored.\<close>

definition quote_octets :: "string \<Rightarrow> string \<Rightarrow> string" where
  "quote_octets safe octets =
     concat (map (\<lambda>b. if b \<in> set ALWAYS_SAFE \<or> b \<in> set safe then [b] else pct_encode b) octets)"

definition quote :: "string \<Rightarrow> string \<Rightarrow> string" where
  "quote safe s = quote_octets safe (utf8_encode s)"

definition hex_val :: "char \<Rightarrow> nat option" where
  "hex_val c = (let n = cp c in
     if 48 \<le> n \<and> n \<le> 57 then Some (n - 48)
     else if 65 \<le> n \<and> n \<le> 70 then Some (n - 55)
     else if 97 \<le> n \<and> n \<le> 102 then Some (n - 87) else None)"

fun unquote_octets :: "string \<Rightarrow> string" where
  "unquote_octets (p # a # b # s) =
     (if p = CHR ''%''
      then (case (hex_val a, hex_val b) of
              (Some h, Some l) \<Rightarrow> char_of (16 * h + l) # unquote_octets s
            | _ \<Rightarrow> p # unquote_octets (a # b # s))
      else p # unquote_octets (a # b # s))"
| "unquote_octets s = s"

text \<open>What quoting lets through: the safe characters, the percent sign and hex digits.\<close>

lemma hex_digit_safe: "d < 16 \<Longrightarrow> hex_digit d \<in> set ALWAYS_SAFE"
proof -
  assume "d < 16"
  then have "d \<in> set [0..<16]" by simp
  moreover have "list_all (\<lambda>d. hex_digit d \<in> set ALWAYS_SAFE) [0..<16]" by code_simp
  ultimately show ?thesis by (simp add: list_all_iff)
qed

lemma quote_octets_chars:
  "c \<in> set (quote_octets safe s) \<Longrightarrow> c \<in> set ALWAYS_SAFE \<or> c \<in> set safe \<or> c = CHR ''%''"
proof -
  assume "c \<in> set (quote_octets safe s)"
  then obtain b where "b \<in> set s"
    and "c \<in> set (if b \<in> set ALWAYS_SAFE \<or> b \<in> set safe then [b] else pct_encode b)"
    by (auto simp: quote_octets_def)
  moreover have "cp b div 16 < 16"
    by (rule less_mult_imp_div_less) (use code_less [of b] in simp)
  ultimately show ?thesis
    by (auto simp: pct_encode_def hex_digit_safe split: if_splits)
qed

lemma quote_octets_id:
  "\<forall>c \<in> set s. c \<in> set ALWAYS_SAFE \<or> c \<in> set safe \<Longrightarrow> quote_octets safe s = s"
  by (induction s) (auto simp: quote_octets_def)

lemma ALWAYS_SAFE_ascii: "c \<in> set ALWAYS_SAFE \<Longrightarrow> cp c < 128"
proof -
  have "list_all (\<lambda>c. cp c < 128) ALWAYS_SAFE" by code_simp
  then show "c \<in> set ALWAYS_SAFE \<Longrightarrow> cp c < 128" by (auto simp: list_all_iff)
qed

end
