(* ===== verification/Multipart.thy ===== *)
theory Multipart
  imports Py_Url
begin

text \<open>
  \<open>bindings/python/chrome_client/_python_impl/multipart.py\<close>: form encoding, the
  multipart builder, \<open>files=\<close> entries, and the classification and chunking of upload
  bodies.  A file object is its name, its remaining content and whether it can seek; the
  \<open>mimetypes\<close> table and the random boundary are arguments.
\<close>

section \<open>Values\<close>

datatype mval = MNone | MBytes string | MText string | MInt int

definition to_bytes :: "codec \<Rightarrow> mval \<Rightarrow> string" where
  "to_bytes enc v = (case v of
     MNone \<Rightarrow> [] | MBytes b \<Rightarrow> b | MText t \<Rightarrow> py_encode enc t | MInt i \<Rightarrow> show_int i)"

datatype mvalue = One mval | Many "mval list"

definition value_items :: "mvalue \<Rightarrow> mval list" where
  "value_items v = filter (\<lambda>i. i \<noteq> MNone) (case v of One i \<Rightarrow> [i] | Many is \<Rightarrow> is)"

text \<open>
  \<open>to_key_val_list\<close>: nothing, pairs of a mapping or a sequence, or a scalar, which is
  refused.
\<close>

datatype 'v pairs_arg = NoPairs | Pairs "(string \<times> 'v) list" | Scalar mval

definition to_key_val_list :: "'v pairs_arg \<Rightarrow> exc_class + (string \<times> 'v) list" where
  "to_key_val_list d = (case d of NoPairs \<Rightarrow> Inr [] | Pairs ps \<Rightarrow> Inr ps | Scalar v \<Rightarrow> Inl ValueError)"

section \<open>Form encoding\<close>

text \<open>\<open>quote_plus\<close> of octets\<close>

definition quote_plus :: "string \<Rightarrow> string" where
  "quote_plus b = map (\<lambda>c. if c = CHR '' '' then CHR ''+'' else c) (quote_octets '' '' b)"

definition encode_params :: "codec \<Rightarrow> mvalue pairs_arg \<Rightarrow> exc_class + string" where
  "encode_params enc d =
     bind_res (to_key_val_list d) (\<lambda>ps.
       Inr (join ''&'' (concat (map (\<lambda>(key, v).
         map (\<lambda>i. quote_plus (py_encode enc key) @ ''='' @ quote_plus (to_bytes enc i)) (value_items v)) ps))))"

section \<open>Parts\<close>

record part =
  part_name :: string
  part_filename :: "string option"
  part_content_type :: "string option"
  part_data :: mval
  part_headers :: "(string \<times> string) list"
  part_cte :: "string option"

definition CRLF :: string where
  "CRLF = [CHR 0x0d, CHR 0x0a]"

text \<open>A present, non-empty optional header.\<close>

definition opt_line :: "codec \<Rightarrow> string \<Rightarrow> string option \<Rightarrow> string list" where
  "opt_line enc label v = (case v of None \<Rightarrow> [] | Some t \<Rightarrow> if t = [] then [] else [label @ py_encode enc t])"

definition part_head :: "codec \<Rightarrow> part \<Rightarrow> string" where
  "part_head enc p =
     (let disposition = ''form-data; name='' @ [CHR 0x22] @ part_name p @ [CHR 0x22]
            @ (case part_filename p of None \<Rightarrow> [] | Some f \<Rightarrow> ''; filename='' @ [CHR 0x22] @ f @ [CHR 0x22])
      in join CRLF ((''Content-Disposition: '' @ py_encode enc disposition)
           # opt_line enc ''Content-Type: '' (part_content_type p)
           @ opt_line enc ''Content-Transfer-Encoding: '' (part_cte p)
           @ map (\<lambda>(n, v). py_encode enc n @ '': '' @ py_encode enc v) (part_headers p)))"

definition render :: "codec \<Rightarrow> part \<Rightarrow> string" where
  "render enc p = part_head enc p @ CRLF @ CRLF @ to_bytes enc (part_data p) @ CRLF"

record mime =
  mime_parts :: "part list"
  mime_boundary :: "string option"

definition mime_empty :: mime where
  "mime_empty = \<lparr>mime_parts = [], mime_boundary = None\<rparr>"

text \<open>
  File objects.  \<open>guess_filename\<close> keeps the last path component of the name, unless the
  name looks like \<open><...>\<close>.
\<close>

record file_obj =
  file_name :: "string option"
  file_content :: string
  file_rewindable :: bool

definition basename :: "string \<Rightarrow> string" where
  "basename path = last (split_on CHR ''/'' path)"

definition guess_filename :: "file_obj \<Rightarrow> string option" where
  "guess_filename f = (case file_name f of
     None \<Rightarrow> None
   | Some n \<Rightarrow> if n \<noteq> [] \<and> hd n \<noteq> CHR ''<'' \<and> last n \<noteq> CHR ''>'' then Some (basename n) else None)"

datatype handle = Value mval | File file_obj

text \<open>\<open>addpart\<close>; \<open>local\<close> is the content of the file at \<open>local_path\<close>, with that path.\<close>

definition addpart ::
  "(string \<Rightarrow> string option) \<Rightarrow> string \<Rightarrow> string option \<Rightarrow> string option \<Rightarrow> (string \<times> string) option
   \<Rightarrow> handle \<Rightarrow> string option \<Rightarrow> (string \<times> string) list \<Rightarrow> mime \<Rightarrow> mime" where
  "addpart guess_type name content_type filename local_file payload cte headers m =
     (let (d, fn, ct) =
        (case local_file of
           Some (path, content) \<Rightarrow>
             (MBytes content, (if filename = None then Some (basename path) else filename),
              (if content_type = None
               then (case guess_type path of Some t \<Rightarrow> if t = [] then Some ''application/octet-stream'' else Some t
                     | None \<Rightarrow> Some ''application/octet-stream'')
               else content_type))
         | None \<Rightarrow>
             (case payload of
                File f \<Rightarrow> (MBytes (file_content f), (if filename = None then guess_filename f else filename), content_type)
              | Value v \<Rightarrow> (v, filename, content_type)))
      in m\<lparr>mime_parts := mime_parts m @
            [\<lparr>part_name = name, part_filename = fn, part_content_type = ct,
              part_data = (if d = MNone then MBytes [] else d), part_headers = headers, part_cte = cte\<rparr>]\<rparr>)"

definition mime_close :: "mime \<Rightarrow> mime" where
  "mime_close m = m\<lparr>mime_parts := []\<rparr>"

text \<open>\<open>boundary or self.boundary or uuid4().hex\<close>\<close>

definition pick_boundary :: "string option \<Rightarrow> mime \<Rightarrow> string \<Rightarrow> string" where
  "pick_boundary arg m fresh =
     (case arg of Some (c # b) \<Rightarrow> c # b
      | _ \<Rightarrow> (case mime_boundary m of Some (c # b) \<Rightarrow> c # b | _ \<Rightarrow> fresh))"

definition encode_parts :: "codec \<Rightarrow> string \<Rightarrow> part list \<Rightarrow> string" where
  "encode_parts enc boundary parts =
     (let marker = py_encode enc (''--'' @ boundary)
      in concat (map (\<lambda>p. marker @ CRLF @ render enc p) parts) @ marker @ ''--'' @ CRLF)"

definition mime_encode :: "codec \<Rightarrow> string option \<Rightarrow> string \<Rightarrow> mime \<Rightarrow> string \<times> string" where
  "mime_encode enc arg fresh m =
     (let b = pick_boundary arg m fresh
      in (encode_parts enc b (mime_parts m), ''multipart/form-data; boundary='' @ b))"

section \<open>\<open>files=\<close>\<close>

datatype file_entry =
    Bare handle
  | Tuple2 "string option" handle
  | Tuple3 "string option" handle "string option"
  | Tuple4 "string option" handle "string option" "(string \<times> string) list"
  | BadTuple nat

definition entry_part ::
  "(string \<Rightarrow> string option) \<Rightarrow> string \<Rightarrow> string option \<Rightarrow> handle \<Rightarrow> string option \<Rightarrow> (string \<times> string) list
   \<Rightarrow> exc_class + part" where
  "entry_part guess_type field filename h content_type headers =
     (let ct = (case (filename, content_type) of
                  (Some f, None) \<Rightarrow> (case guess_type f of
                     Some t \<Rightarrow> if t = [] then Some ''application/octet-stream'' else Some t
                   | None \<Rightarrow> Some ''application/octet-stream'')
                | _ \<Rightarrow> content_type);
          mk = (\<lambda>d. \<lparr>part_name = field, part_filename = filename, part_content_type = ct,
                     part_data = d, part_headers = headers, part_cte = None\<rparr>)
      in case h of
           File f \<Rightarrow> if file_rewindable f then Inr (mk (MBytes (file_content f))) else Inl UnrewindableBodyError
         | Value v \<Rightarrow> Inr (mk (if v = MNone then MBytes [] else v)))"

fun normalize_file_entry ::
  "(string \<Rightarrow> string option) \<Rightarrow> string \<Rightarrow> file_entry \<Rightarrow> exc_class + part" where
  "normalize_file_entry gt field (Bare h) =
     entry_part gt field (case h of File f \<Rightarrow> guess_filename f | Value v \<Rightarrow> None) h None []"
| "normalize_file_entry gt field (Tuple2 f h) = entry_part gt field f h None []"
| "normalize_file_entry gt field (Tuple3 f h ct) = entry_part gt field f h ct []"
| "normalize_file_entry gt field (Tuple4 f h ct hs) = entry_part gt field f h ct hs"
| "normalize_file_entry gt field (BadTuple n) = Inl ValueError"

text \<open>\<open>data=\<close> items may be values or file objects; a field of \<open>files=\<close> has a list of entries.\<close>

definition data_part :: "codec \<Rightarrow> (string \<Rightarrow> string option) \<Rightarrow> string \<Rightarrow> handle \<Rightarrow> exc_class + part" where
  "data_part enc gt key h =
     (case h of
        File f \<Rightarrow> normalize_file_entry gt key (Bare h)
      | Value v \<Rightarrow> Inr \<lparr>part_name = key, part_filename = None, part_content_type = None,
                       part_data = MBytes (to_bytes enc v), part_headers = [], part_cte = None\<rparr>)"

definition encode_multipart ::
  "codec \<Rightarrow> (string \<Rightarrow> string option) \<Rightarrow> handle list pairs_arg \<Rightarrow> file_entry list pairs_arg
   \<Rightarrow> string option \<Rightarrow> string \<Rightarrow> exc_class + string \<times> string" where
  "encode_multipart enc gt form files arg fresh =
     bind_res (to_key_val_list form) (\<lambda>ps.
     bind_res (map_res (\<lambda>(key, h). data_part enc gt key h)
       (concat (map (\<lambda>(key, hs). map (Pair key) (filter (\<lambda>h. h \<noteq> Value MNone) hs)) ps))) (\<lambda>data_parts.
     bind_res (to_key_val_list files) (\<lambda>fs.
     bind_res (map_res (\<lambda>(field, e). normalize_file_entry gt field e)
       (concat (map (\<lambda>(field, es). map (Pair field) es) fs))) (\<lambda>file_parts.
     Inr (mime_encode enc arg fresh (mime_empty\<lparr>mime_parts := data_parts @ file_parts\<rparr>))))))"

section \<open>Upload bodies\<close>

datatype body_source =
    SNone | SBytes string | SText string | SFile file_obj
  | SPairs "(string \<times> mvalue) list" | SIter "mval list"

text \<open>\<open>SIter\<close> is a generator or another one-shot iterator.\<close>

fun is_stream_body :: "body_source \<Rightarrow> bool" where
  "is_stream_body (SFile f) = True"
| "is_stream_body (SIter xs) = True"
| "is_stream_body src = False"

function blocks :: "nat \<Rightarrow> 'a list \<Rightarrow> 'a list list" where
  "blocks n xs = (if n = 0 \<or> xs = [] then [] else take n xs # blocks n (drop n xs))"
  by pat_completeness auto
termination
  by (relation "measure (\<lambda>(n, xs). length xs)") (auto simp: neq_Nil_conv)

declare blocks.simps [simp del]

lemma blocks_Nil [simp]: "blocks n [] = []"
  by (subst blocks.simps) simp

lemma concat_blocks: "0 < n \<Longrightarrow> concat (blocks n xs) = xs"
  by (induction n xs rule: blocks.induct) (subst blocks.simps, auto)

lemma blocks_sizes: "b \<in> set (blocks n xs) \<Longrightarrow> 0 < length b \<and> length b \<le> n"
proof (induction n xs rule: blocks.induct)
  case (1 n xs)
  show ?case
  proof (cases "n = 0 \<or> xs = []")
    case True
    then show ?thesis using "1.prems" by (subst (asm) blocks.simps) simp
  next
    case False
    then have "b = take n xs \<or> b \<in> set (blocks n (drop n xs))"
      using "1.prems" by (subst (asm) blocks.simps) simp
    then show ?thesis
    proof
      assume "b = take n xs"
      with False show ?thesis by simp
    next
      assume "b \<in> set (blocks n (drop n xs))"
      then show ?thesis by (rule "1.IH" [OF False])
    qed
  qed
qed

fun iter_body :: "nat \<Rightarrow> body_source \<Rightarrow> string list" where
  "iter_body n SNone = []"
| "iter_body n (SBytes b) = [b]"
| "iter_body n (SText t) = [utf8_encode t]"
| "iter_body n (SFile f) = blocks n (file_content f)"
| "iter_body n (SIter xs) = map (to_bytes Utf8) xs"
| "iter_body n (SPairs ps) = map (\<lambda>p. utf8_encode (fst p)) ps"

fun body_length :: "body_source \<Rightarrow> nat option" where
  "body_length (SBytes b) = Some (length b)"
| "body_length (SText t) = Some (length (utf8_encode t))"
| "body_length (SFile f) = (if file_rewindable f then Some (length (file_content f)) else None)"
| "body_length src = None"

section \<open>Reading a body back\<close>

text \<open>
  A receiver's view (RFC 2046): the first occurrence of the delimiter ends a section, and
  two hyphens after it end the body.
\<close>

fun find_sub :: "string \<Rightarrow> string \<Rightarrow> (string \<times> string) option" where
  "find_sub p [] = (if p = [] then Some ([], []) else None)"
| "find_sub p (c # s) =
     (if startswith (c # s) p then Some ([], drop (length p) (c # s))
      else map_option (\<lambda>(a, b). (c # a, b)) (find_sub p s))"

lemma find_sub_parts: "find_sub p s = Some (a, b) \<Longrightarrow> s = a @ p @ b"
proof (induction s arbitrary: a)
  case (Cons c s)
  then show ?case by (auto simp: startswith_iff split: if_splits)
qed (simp split: if_splits)

lemma find_sub_shorter:
  "find_sub delim (drop 2 s) = Some (section, rest) \<Longrightarrow> s \<noteq> [] \<Longrightarrow> length rest < length s"
proof -
  assume eq: "find_sub delim (drop 2 s) = Some (section, rest)" and ne: "s \<noteq> []"
  have "length (drop 2 s) = length section + length delim + length rest"
    unfolding find_sub_parts [OF eq] by simp
  with ne show ?thesis by (cases s) auto
qed

function read_sections :: "string \<Rightarrow> string \<Rightarrow> string list" where
  "read_sections delim s =
     (if s = [] \<or> startswith s ''--'' then []
      else case find_sub delim (drop 2 s) of
        None \<Rightarrow> []
      | Some (section, rest) \<Rightarrow> section # read_sections delim rest)"
  by pat_completeness auto
termination
  by (relation "measure (\<lambda>(delim, s). length s)") (auto dest: find_sub_shorter)

declare read_sections.simps [simp del]

definition read_multipart :: "string \<Rightarrow> string \<Rightarrow> string list" where
  "read_multipart marker body =
     (if startswith body marker then read_sections (CRLF @ marker) (drop (length marker) body) else [])"

text \<open>What a part stands for between its delimiters.\<close>

definition section_of :: "codec \<Rightarrow> part \<Rightarrow> string" where
  "section_of enc p = part_head enc p @ CRLF @ CRLF @ to_bytes enc (part_data p)"

lemma startswith_overlap:
  assumes "startswith (a @ c # q @ b) (c # q)" and "c \<notin> set q" and "a \<noteq> []"
  shows "startswith a (c # q)"
proof -
  obtain t where t: "a @ c # q @ b = c # q @ t" using assms(1) by (auto simp: startswith_iff)
  show ?thesis
  proof (cases "length (c # q) \<le> length a")
    case True
    have "take (length (c # q)) (a @ c # q @ b) = c # q" unfolding t by simp
    with True have "take (length (c # q)) a = c # q" by simp
    then have "a = (c # q) @ drop (length (c # q)) a" by (metis append_take_drop_id)
    then show ?thesis by (metis startswith_iff)
  next
    case False
    have "(a @ c # q @ b) ! length a = c" by simp
    moreover have less: "length a - 1 < length q" using False assms(3) by (cases a) auto
    moreover have "(c # q @ t) ! length a = q ! (length a - 1)"
      using less assms(3) by (cases a) (simp_all add: nth_append)
    ultimately show ?thesis using t assms(2) by (metis nth_mem)
  qed
qed

lemma occurs_in_startswith: "startswith s p \<Longrightarrow> occurs_in p s"
  by (cases s) (auto simp: startswith_iff)

lemma find_sub_first:
  "c \<notin> set q \<Longrightarrow> \<not> occurs_in (c # q) a \<Longrightarrow> find_sub (c # q) (a @ c # q @ b) = Some (a, b)"
proof (induction a)
  case Nil
  then show ?case by (simp add: startswith_iff)
next
  case (Cons x a)
  have "\<not> startswith ((x # a) @ c # q @ b) (c # q)"
    using Cons.prems startswith_overlap [of "x # a" c q b] occurs_in_startswith by blast
  with Cons show ?case by simp
qed

lemma read_sections_parts:
  assumes "CHR 0x0d \<notin> set marker"
    and "\<forall>p \<in> set parts. \<not> occurs_in (CRLF @ marker) (section_of enc p)"
  shows "read_sections (CRLF @ marker)
      (concat (map (\<lambda>p. CRLF @ render enc p @ marker) parts) @ ''--'' @ CRLF)
    = map (section_of enc) parts"
  using assms(2)
proof (induction parts)
  case Nil
  then show ?case by (subst read_sections.simps) simp
next
  case (Cons p parts)
  let ?tail = "concat (map (\<lambda>p. CRLF @ render enc p @ marker) parts) @ ''--'' @ CRLF"
  have nin: "CHR 0x0d \<notin> set (CHR 0x0a # marker)" using assms(1) by simp
  have "concat (map (\<lambda>p. CRLF @ render enc p @ marker) (p # parts)) @ ''--'' @ CRLF
      = CRLF @ section_of enc p @ CRLF @ marker @ ?tail"
    by (simp add: render_def section_of_def)
  moreover have "find_sub (CRLF @ marker) (section_of enc p @ CRLF @ marker @ ?tail)
      = Some (section_of enc p, ?tail)"
    using find_sub_first [OF nin, of "section_of enc p" ?tail] Cons.prems by (simp add: CRLF_def)
  ultimately show ?case
    using Cons.IH Cons.prems by (subst read_sections.simps) (simp add: CRLF_def)
qed

lemma encode_parts_shift:
  "concat (map (\<lambda>p. marker @ CRLF @ render enc p) parts) @ marker
     = marker @ concat (map (\<lambda>p. CRLF @ render enc p @ marker) parts)"
  by (induction parts) auto


definition sample_part :: part where
  "sample_part = \<lparr>part_name = ''f'', part_filename = None, part_content_type = None,
     part_data = MBytes ''xy'', part_headers = [], part_cte = None\<rparr>"


text \<open>
  A double quote in a file name ends the parameter, and a line end after it starts a
  header line of its own: a part with such a name renders exactly like a part with a
  shorter name and one more header.
\<close>

theorem part_filename_injects_header:
  assumes "part_filename p = Some (f @ [CHR 0x22] @ CRLF @ n @ '': '' @ [CHR 0x22] @ v)"
    and "part_content_type p = None" and "part_cte p = None" and "part_headers p = []"
  shows "render enc p =
     render enc (p\<lparr>part_filename := Some f, part_headers := [(n, [CHR 0x22] @ v @ [CHR 0x22])]\<rparr>)"
proof -
  have e: "py_encode enc (a @ b) = py_encode enc a @ py_encode enc b" for a b
    by (cases enc) (simp_all add: py_encode_def)
  have c: "py_encode enc CRLF = CRLF" "py_encode enc '': '' = '': ''"
    by (cases enc; simp add: py_encode_def CRLF_def utf8_encode_ascii)+
  let ?d = "''form-data; name='' @ [CHR 0x22] @ part_name p @ [CHR 0x22] @ ''; filename='' @ [CHR 0x22] @ f @ [CHR 0x22]"
  have j: "join CRLF [w @ py_encode enc (x @ CRLF @ n @ '': '' @ y)]
      = join CRLF [w @ py_encode enc x, py_encode enc n @ '': '' @ py_encode enc y]" for w x y
    by (simp only: join.simps e c append_assoc)
  let ?p' = "p\<lparr>part_filename := Some f, part_headers := [(n, [CHR 0x22] @ v @ [CHR 0x22])]\<rparr>"
  have sel: "part_name ?p' = part_name p" "part_filename ?p' = Some f" "part_content_type ?p' = None"
    "part_cte ?p' = None" "part_headers ?p' = [(n, [CHR 0x22] @ v @ [CHR 0x22])]" "part_data ?p' = part_data p"
    by (simp_all add: assms)
  have "part_head enc p = join CRLF [''Content-Disposition: '' @
      py_encode enc (?d @ CRLF @ n @ '': '' @ [CHR 0x22] @ v @ [CHR 0x22])]"
    unfolding part_head_def opt_line_def Let_def assms option.case list.map append_assoc append_Nil ..
  moreover have "part_head enc ?p' = join CRLF [''Content-Disposition: '' @ py_encode enc ?d,
          py_encode enc n @ '': '' @ py_encode enc ([CHR 0x22] @ v @ [CHR 0x22])]"
    unfolding part_head_def opt_line_def Let_def sel option.case list.map append_assoc append_Nil
      prod.case ..
  ultimately show ?thesis unfolding render_def j sel by simp
qed

theorem part_filename_injects_header_witness:
  "render Latin1 (sample_part\<lparr>part_filename := Some (''a'' @ [CHR 0x22] @ CRLF @ ''X'' @ '': '' @ [CHR 0x22] @ ''y'')\<rparr>)
   = render Latin1 (sample_part\<lparr>part_filename := Some ''a'', part_headers := [(''X'', [CHR 0x22] @ ''y'' @ [CHR 0x22])]\<rparr>)"
  using part_filename_injects_header
    [of "sample_part\<lparr>part_filename := Some (''a'' @ [CHR 0x22] @ CRLF @ ''X'' @ '': '' @ [CHR 0x22] @ ''y'')\<rparr>"
      "''a''" "''X''" "''y''" Latin1]
  by (simp add: sample_part_def)

end
