(* ===== verification/Utils.thy ===== *)
theory Utils
  imports Py_Url Structures "HOL-Library.Word"
begin

unbundle bit_operations_syntax

text \<open>
  \<open>bindings/python/chrome_client/_python_impl/utils.py\<close>: percent re-quoting, the
  \<open>Content-Type\<close> parser, the JSON encoding guess, the \<open>NO_PROXY\<close> rules with CIDR
  blocks on 32-bit words, the environment's proxies, and the header check.  The environment
  variables a function reads are an argument.
\<close>

section \<open>Percent re-quoting\<close>

text \<open>
  \<open>int(chunk, 16)\<close> on two characters.  Like Python's it takes a sign, and white space on
  either side.
\<close>

definition int16 :: "string \<Rightarrow> int option" where
  "int16 s = (case py_strip s of
     [a] \<Rightarrow> map_option int (hex_val a)
   | [a, b] \<Rightarrow>
       if a = CHR ''-'' then map_option (\<lambda>n. - int n) (hex_val b)
       else if a = CHR ''+'' then map_option int (hex_val b)
       else (case (hex_val a, hex_val b) of (Some h, Some l) \<Rightarrow> Some (int (16 * h + l)) | _ \<Rightarrow> None)
   | _ \<Rightarrow> None)"

text \<open>\<open>chr(n)\<close> raises \<open>ValueError\<close> below zero; two hex digits stay below 256.\<close>

definition py_chr :: "int \<Rightarrow> exc_class + char" where
  "py_chr n = (if n < 0 then Inl ValueError else Inr (char_of (nat n)))"

definition UNRESERVED_SET :: string where
  "UNRESERVED_SET = ''ABCDEFGHIJKLMNOPQRSTUVWXYZabcdefghijklmnopqrstuvwxyz0123456789-._~''"

definition unquote_part :: "string \<Rightarrow> exc_class + string" where
  "unquote_part part =
     (let chunk = take 2 part in
      if length chunk = 2
      then (case int16 chunk of
              None \<Rightarrow> Inl InvalidURL
            | Some n \<Rightarrow> bind_res (py_chr n) (\<lambda>c.
                if c \<in> set UNRESERVED_SET then Inr (c # drop 2 part) else Inr (CHR ''%'' # part)))
      else Inr (CHR ''%'' # part))"

definition unquote_unreserved :: "string \<Rightarrow> exc_class + string" where
  "unquote_unreserved uri =
     (case split_on CHR ''%'' uri of
        [] \<Rightarrow> Inr []
      | first # parts \<Rightarrow> bind_res (map_res unquote_part parts) (\<lambda>ps. Inr (first @ concat ps)))"

definition safe_with_percent :: string where
  "safe_with_percent = ''!#$%&'' @ [CHR 0x27] @ ''()*+,/:;=?@[]~''"

definition safe_without_percent :: string where
  "safe_without_percent = ''!#$&'' @ [CHR 0x27] @ ''()*+,/:;=?@[]~''"

definition requote_uri :: "string \<Rightarrow> exc_class + string" where
  "requote_uri uri =
     (case unquote_unreserved uri of
        Inr s \<Rightarrow> Inr (quote safe_with_percent s)
      | Inl e \<Rightarrow> if is_subclass e InvalidURL then Inr (quote safe_without_percent uri) else Inl e)"

section \<open>Header values\<close>

text \<open>A parameter without a value is stored as \<open>True\<close>.\<close>

datatype param_value = PText string | PTrue

definition parse_content_type_header :: "string \<Rightarrow> string \<times> (string, param_value) odict" where
  "parse_content_type_header header =
     (case split_on CHR '';'' header of
        [] \<Rightarrow> ([], [])
      | t # tokens \<Rightarrow>
          (py_strip t, fold (\<lambda>token params.
             if CHR ''='' \<in> set token
             then (case split_once CHR ''='' token of (name, v) \<Rightarrow>
                     od_put (py_lower (py_strip name)) (PText (py_strip v)) params)
             else if py_strip token \<noteq> [] then od_put (py_lower (py_strip token)) PTrue params
             else params) tokens []))"

text \<open>
  \<open>True.strip(...)\<close> is an \<open>AttributeError\<close>, which the hierarchy of this development
  does not have; the result type is an option of its own.
\<close>

datatype charset = NoCharset | Charset string | AttributeErrorRaised

definition get_encoding_from_content_type :: "string option \<Rightarrow> charset" where
  "get_encoding_from_content_type header =
     (case header of
        None \<Rightarrow> NoCharset
      | Some h \<Rightarrow>
          if h = [] then NoCharset
          else (case parse_content_type_header h of (content_type, params) \<Rightarrow>
            (case od_get params ''charset'' of
               Some (PText v) \<Rightarrow> Charset (strip_chars [CHR 0x27, CHR 0x22] v)
             | Some PTrue \<Rightarrow> AttributeErrorRaised
             | None \<Rightarrow> if occurs_in ''application/json'' content_type then Charset ''utf-8'' else NoCharset)))"

definition check_header_part :: "string option \<Rightarrow> exc_class + unit" where
  "check_header_part part =
     (case part of
        None \<Rightarrow> Inl InvalidHeader
      | Some t \<Rightarrow> if list_ex (\<lambda>c. cp c = 10 \<or> cp c = 13 \<or> cp c = 0) t then Inl InvalidHeader else Inr ())"

definition check_header_validity :: "string option \<Rightarrow> string option \<Rightarrow> exc_class + unit" where
  "check_header_validity name v = bind_res (check_header_part name) (\<lambda>_. check_header_part v)"

section \<open>The JSON encoding guess\<close>

definition nulls :: "string \<Rightarrow> nat" where
  "nulls s = length (filter (\<lambda>c. cp c = 0) s)"

definition is_octets :: "string \<Rightarrow> nat list \<Rightarrow> bool" where
  "is_octets s ns \<longleftrightarrow> map cp s = ns"

text \<open>\<open>sample[::2]\<close> of at most four octets.\<close>

fun evens :: "'a list \<Rightarrow> 'a list" where
  "evens [] = []"
| "evens [x] = [x]"
| "evens (x # y # zs) = x # evens zs"

definition guess_json_utf :: "string \<Rightarrow> string option" where
  "guess_json_utf content =
     (let sample = take 4 content in
      if is_octets sample [255, 254, 0, 0] \<or> is_octets sample [0, 0, 254, 255] then Some ''utf-32''
      else if is_octets (take 3 sample) [239, 187, 191] then Some ''utf-8-sig''
      else if is_octets (take 2 sample) [255, 254] \<or> is_octets (take 2 sample) [254, 255] then Some ''utf-16''
      else if nulls sample = 0 then Some ''utf-8''
      else if nulls sample = 2
      then Some (if is_octets (evens sample) [0, 0] then ''utf-16-be'' else ''utf-16-le'')
      else if nulls sample = 3
      then Some (if is_octets (take 3 sample) [0, 0, 0] then ''utf-32-be'' else ''utf-32-le'')
      else None)"

section \<open>Link headers\<close>

text \<open>\<open>re.split(r', *<', s)\<close>\<close>

function split_link_sep :: "string \<Rightarrow> string \<Rightarrow> string list" where
  "split_link_sep acc [] = [rev acc]"
| "split_link_sep acc (c # s) =
     (if c = CHR '','' \<and> startswith (dropWhile (\<lambda>x. x = CHR '' '') s) ''<''
      then rev acc # split_link_sep [] (tl (dropWhile (\<lambda>x. x = CHR '' '') s))
      else split_link_sep (c # acc) s)"
  by pat_completeness auto
termination
  by (relation "measure (\<lambda>(acc, s). length s)")
    (auto intro: le_less_trans [OF diff_le_self] le_imp_less_Suc length_dropWhile_le)

text \<open>The parameters of an entry, up to the first that is not \<open>key=item\<close>.\<close>

fun link_params :: "string list \<Rightarrow> (string, string) odict \<Rightarrow> (string, string) odict" where
  "link_params [] link = link"
| "link_params (p # ps) link =
     (case split_on CHR ''='' p of
        [key, item] \<Rightarrow> link_params ps (od_put (strip_chars [CHR 0x20, CHR 0x27, CHR 0x22] key)
                                        (strip_chars [CHR 0x20, CHR 0x27, CHR 0x22] item) link)
      | _ \<Rightarrow> link)"

definition parse_header_links :: "string \<Rightarrow> (string, string) odict list" where
  "parse_header_links v =
     (let w = strip_chars [CHR 0x20, CHR 0x27, CHR 0x22] v in
      if w = [] then []
      else map (\<lambda>entry.
        let (url, params) = (if CHR '';'' \<in> set entry then split_once CHR '';'' entry else (entry, []))
        in link_params (split_on CHR '';'' params)
             [(''url'', strip_chars [CHR ''<'', CHR ''>'', CHR 0x20, CHR 0x27, CHR 0x22] url)])
        (split_link_sep [] w))"

section \<open>Addresses\<close>

text \<open>
  \<open>inet_aton\<close>: one to four numbers, decimal, octal after a zero or hexadecimal after
  \<open>0x\<close>; the last fills the octets that are left.
\<close>

definition read_base :: "nat \<Rightarrow> string \<Rightarrow> nat option" where
  "read_base base s =
     (if s \<noteq> [] \<and> list_all (\<lambda>c. case hex_val c of None \<Rightarrow> False | Some d \<Rightarrow> d < base) s
      then Some (foldl (\<lambda>n c. base * n + (case hex_val c of None \<Rightarrow> 0 | Some d \<Rightarrow> d)) 0 s) else None)"

definition aton_number :: "string \<Rightarrow> nat option" where
  "aton_number s =
     (if startswith s ''0x'' \<or> startswith s ''0X'' then read_base 16 (drop 2 s)
      else if startswith s ''0'' then (if s = ''0'' then Some 0 else read_base 8 (drop 1 s))
      else read_base 10 s)"

fun aton_parts :: "nat \<Rightarrow> nat list \<Rightarrow> nat option" where
  "aton_parts width [] = None"
| "aton_parts width [n] = (if n < 256 ^ width then Some n else None)"
| "aton_parts width (n # m # ns) =
     (if n < 256 \<and> 1 < width
      then map_option (\<lambda>r. n * 256 ^ (width - 1) + r) (aton_parts (width - 1) (m # ns)) else None)"

definition inet_aton :: "string \<Rightarrow> 32 word option" where
  "inet_aton s =
     (let ns = map aton_number (split_on CHR ''.'' (takeWhile (\<lambda>c. \<not> (cp c = 32 \<or> 9 \<le> cp c \<and> cp c \<le> 13)) s))
      in if None \<in> set ns then None else map_option of_nat (aton_parts 4 (map the ns)))"

definition is_ipv4_address :: "string \<Rightarrow> bool" where
  "is_ipv4_address v \<longleftrightarrow> inet_aton v \<noteq> None \<and> count_list v CHR ''.'' = 3"

text \<open>\<open>int(bits)\<close> of a decimal with an optional sign.\<close>

definition read_int :: "string \<Rightarrow> int option" where
  "read_int s =
     (let t = py_strip s; neg = startswith t ''-'';
          d = (if neg \<or> startswith t ''+'' then drop 1 t else t)
      in if d \<noteq> [] \<and> list_all ascii_digit d
         then Some (if neg then - int (read_nat d) else int (read_nat d)) else None)"

text \<open>
  \<open>(0xFFFFFFFF << (32 - bits)) & 0xFFFFFFFF\<close>; a shift by a negative count raises
  \<open>ValueError\<close>.
\<close>

definition netmask :: "int \<Rightarrow> 32 word option" where
  "netmask bits = (if 32 < bits then None else Some (push_bit (nat (32 - bits)) (- 1)))"

definition address_in_network :: "string \<Rightarrow> string \<Rightarrow> bool" where
  "address_in_network address network =
     (case (inet_aton address, split_on CHR ''/'' network) of
        (Some ip, [net, bits]) \<Rightarrow>
          (case (Option.bind (read_int bits) netmask, inet_aton net) of
             (Some m, Some n) \<Rightarrow> (ip AND m) = (n AND m)
           | _ \<Rightarrow> False)
      | _ \<Rightarrow> False)"

section \<open>Proxies from the environment\<close>

type_synonym environ = "(string \<times> string) list"

text \<open>\<open>os.environ.get(a) or os.environ.get(b)\<close>; an empty value counts as absent.\<close>

definition env_or :: "environ \<Rightarrow> string \<Rightarrow> string \<Rightarrow> string option" where
  "env_or env a b =
     (case map_of env a of Some v \<Rightarrow> if v \<noteq> [] then Some v else map_of env b | None \<Rightarrow> map_of env b)"

definition no_proxy_entries :: "string \<Rightarrow> string list" where
  "no_proxy_entries no_proxy =
     filter (\<lambda>h. h \<noteq> []) (split_on CHR '','' (filter (\<lambda>c. c \<noteq> CHR '' '') no_proxy))"

definition entry_matches :: "string \<Rightarrow> nat option \<Rightarrow> string \<Rightarrow> bool" where
  "entry_matches host port entry =
     (if is_ipv4_address host
      then (if CHR ''/'' \<in> set entry then address_in_network host entry else host = entry)
      else endswith host entry
           \<or> endswith (case port of Some p \<Rightarrow> if p \<noteq> 0 then host @ '':'' @ show_nat p else host | None \<Rightarrow> host) entry)"

definition proxy_bypass :: "string \<Rightarrow> bool" where
  "proxy_bypass host = False"

definition should_bypass_proxies :: "environ \<Rightarrow> string \<Rightarrow> string option \<Rightarrow> exc_class + bool" where
  "should_bypass_proxies env url no_proxy_arg =
     (let no_proxy = (case no_proxy_arg of None \<Rightarrow> env_or env ''no_proxy'' ''NO_PROXY'' | Some v \<Rightarrow> Some v)
      in bind_res (urlparse url) (\<lambda>p.
        (case url_hostname p of
           None \<Rightarrow> Inr True
         | Some host \<Rightarrow>
             (case no_proxy of
                None \<Rightarrow> Inr (proxy_bypass host)
              | Some np \<Rightarrow>
                  if np = [] then Inr (proxy_bypass host)
                  else if is_ipv4_address host
                  then Inr (list_ex (entry_matches host None) (no_proxy_entries np) \<or> proxy_bypass host)
                  else bind_res (url_port p) (\<lambda>port.
                    Inr (list_ex (entry_matches host port) (no_proxy_entries np) \<or> proxy_bypass host))))))"

definition get_environ_proxies :: "environ \<Rightarrow> string \<Rightarrow> string option \<Rightarrow> exc_class + (string, string) odict" where
  "get_environ_proxies env url no_proxy =
     bind_res (should_bypass_proxies env url no_proxy) (\<lambda>bypass.
       if bypass then Inr []
       else Inr (fold (\<lambda>(name, v) proxies.
              let n = py_lower name in
              if endswith n ''_proxy'' \<and> v \<noteq> [] then od_put (take (length n - 6) n) v proxies else proxies)
            env []))"

definition resolve_proxies ::
  "environ \<Rightarrow> string \<Rightarrow> (string, string) odict \<Rightarrow> bool \<Rightarrow> exc_class + (string, string) odict" where
  "resolve_proxies env url proxies trust_env =
     bind_res (urlparse url) (\<lambda>p.
       let no_proxy = od_get proxies ''no_proxy'' in
       if \<not> trust_env then Inr proxies
       else bind_res (should_bypass_proxies env url no_proxy) (\<lambda>bypass.
         if bypass then Inr proxies
         else bind_res (get_environ_proxies env url no_proxy) (\<lambda>environment.
           let proxy = (case od_get environment (u_scheme p) of
                          Some v \<Rightarrow> Some v | None \<Rightarrow> od_get environment ''all'')
           in case proxy of
                None \<Rightarrow> Inr proxies
              | Some v \<Rightarrow> if v \<noteq> [] then Inr (od_setdefault (u_scheme p) v proxies) else Inr proxies)))"

section \<open>Defaults\<close>

definition default_headers :: "(string \<times> string) list" where
  "default_headers = []"

section \<open>Properties\<close>

text \<open>The characters a re-quoted URL is made of.\<close>

definition url_visible :: "char \<Rightarrow> bool" where
  "url_visible c \<longleftrightarrow> 33 \<le> cp c \<and> cp c \<le> 126 \<and> c \<notin> set (CHR 0x22 # CHR 0x5c # ''<>^`{|}'')"

lemma safe_visible:
  "c \<in> set ALWAYS_SAFE \<Longrightarrow> url_visible c" "c \<in> set safe_with_percent \<Longrightarrow> url_visible c"
  "c \<in> set safe_without_percent \<Longrightarrow> url_visible c" "url_visible CHR ''%''"
proof -
  have "list_all url_visible ALWAYS_SAFE" "list_all url_visible safe_with_percent"
    "list_all url_visible safe_without_percent" "url_visible CHR ''%''"
    by code_simp+
  then show "c \<in> set ALWAYS_SAFE \<Longrightarrow> url_visible c" "c \<in> set safe_with_percent \<Longrightarrow> url_visible c"
    "c \<in> set safe_without_percent \<Longrightarrow> url_visible c" "url_visible CHR ''%''"
    by (simp_all add: list_all_iff)
qed

text \<open>
  Whatever the input, a URL that \<open>requote_uri\<close> returns is made of visible ASCII
  characters that are legal in a URL: no white space, control character, line end, quote,
  bracketing character or octet above 126 reaches the request line.
\<close>

theorem requote_uri_visible:
  assumes "requote_uri uri = Inr s"
  shows "list_all url_visible s"
proof -
  obtain safe t where s: "s = quote_octets safe t"
    and safe: "safe = safe_with_percent \<or> safe = safe_without_percent"
    using assms by (auto simp: requote_uri_def quote_def split: sum.splits if_splits)
  have "url_visible c" if "c \<in> set s" for c
    using quote_octets_chars [of c safe t] that safe safe_visible unfolding s by blast
  then show ?thesis by (simp add: list_all_iff)
qed

theorem requote_uri_visible_witness:
  "requote_uri ''http://h/a b%41%2f'' = Inr ''http://h/a%20bA%2f'' \<and> list_all url_visible ''http://h/a%20bA%2f''"
proof -
  have eq: "requote_uri ''http://h/a b%41%2f'' = Inr ''http://h/a%20bA%2f''" by code_simp
  from eq requote_uri_visible [OF eq] show ?thesis by simp
qed

text \<open>
  A percent sign followed by a minus sign and a non-zero hex digit makes
  \<open>requote_uri\<close> raise a plain \<open>ValueError\<close>: \<open>int("-1", 16)\<close> is a number, and it is
  \<open>chr\<close> of it that fails, outside the \<open>try\<close> that turns bad escapes into
  \<open>InvalidURL\<close>.
\<close>

theorem requote_uri_signed_escape:
  assumes "CHR ''%'' \<notin> set a" and "hex_val d = Some n" and "0 < n"
  shows "requote_uri (a @ ''%-'' @ d # rest) = Inl ValueError"
proof -
  obtain w ws where sp: "split_on CHR ''%'' (CHR ''-'' # d # rest) = (CHR ''-'' # d # w) # ws"
  proof -
    have "d \<noteq> CHR ''%''" using assms(2) by (auto simp: hex_val_def)
    then show ?thesis using that by (cases "split_on CHR ''%'' rest") auto
  qed
  have d: "\<not> py_isspace d"
    using assms(2) by (auto simp: hex_val_def py_isspace_def Let_def split: if_splits)
  have "py_strip [CHR ''-'', d] = [CHR ''-'', d]"
    using d by (simp add: py_strip_def strip_by_def py_isspace_def)
  then have "int16 [CHR ''-'', d] = Some (- int n)" by (simp add: int16_def assms(2))
  then have "unquote_part (CHR ''-'' # d # w) = Inl ValueError"
    using assms(3) by (simp add: unquote_part_def py_chr_def)
  moreover have "split_on CHR ''%'' (a @ ''%-'' @ d # rest) = a # split_on CHR ''%'' (CHR ''-'' # d # rest)"
    using split_on_append_sep [OF assms(1), of "CHR ''-'' # d # rest"] by simp
  ultimately have "unquote_unreserved (a @ ''%-'' @ d # rest) = Inl ValueError"
    unfolding unquote_unreserved_def sp by simp
  moreover have "\<not> is_subclass ValueError InvalidURL" by code_simp
  ultimately show ?thesis by (simp add: requote_uri_def)
qed

theorem requote_uri_signed_escape_witness:
  "requote_uri ''http://h/%-1'' = Inl ValueError"
  using requote_uri_signed_escape [of "''http://h/''" "CHR ''1''" 1 "[]"] by (simp add: hex_val_def)

text \<open>
  A \<open>Content-Type\<close> whose \<open>charset\<close> parameter has no value makes
  \<open>get_encoding_from_headers\<close>, and with it \<open>Response.text\<close>, fail with an
  \<open>AttributeError\<close>: the parser stores \<open>True\<close> for it and \<open>strip\<close> is called on that.
\<close>

theorem charset_without_value_raises:
  assumes "CHR '';'' \<notin> set t"
  shows "get_encoding_from_content_type (Some (t @ ''; charset'')) = AttributeErrorRaised"
proof -
  have "split_on CHR '';'' (t @ ''; charset'') = [t, '' charset'']"
    using split_on_append_sep [OF assms, of "'' charset''"] by simp
  moreover have "py_lower (py_strip '' charset'') = ''charset''" "py_strip '' charset'' \<noteq> []" by code_simp+
  ultimately show ?thesis
    by (simp add: get_encoding_from_content_type_def parse_content_type_header_def od_put_def od_get_def)
qed

theorem charset_without_value_raises_witness:
  "get_encoding_from_content_type (Some ''text/html; charset'') = AttributeErrorRaised"
  using charset_without_value_raises [of "''text/html''"] by simp

lemma and_mask_eq:
  fixes x y :: "'a::len word"
  shows "(x AND NOT (mask n)) = (y AND NOT (mask n)) \<longleftrightarrow> drop_bit n x = drop_bit n y"
proof
  assume eq: "(x AND NOT (mask n)) = (y AND NOT (mask n))"
  show "drop_bit n x = drop_bit n y"
  proof (rule bit_word_eqI)
    fix i
    assume "i < LENGTH('a)"
    have "bit (x AND NOT (mask n)) (n + i) = bit (y AND NOT (mask n)) (n + i)" by (simp only: eq)
    then show "bit (drop_bit n x) i = bit (drop_bit n y) i"
      by (cases "n + i < LENGTH('a)") (auto simp: bit_simps dest: bit_imp_le_length)
  qed
next
  assume eq: "drop_bit n x = drop_bit n y"
  show "(x AND NOT (mask n)) = (y AND NOT (mask n))"
  proof (rule bit_word_eqI)
    fix i
    assume "i < LENGTH('a)"
    have "n \<le> i \<Longrightarrow> bit (drop_bit n x) (i - n) = bit (drop_bit n y) (i - n)" by (simp add: eq)
    then show "bit (x AND NOT (mask n)) i = bit (y AND NOT (mask n)) i"
      by (auto simp: bit_simps)
  qed
qed

text \<open>
  A \<open>NO_PROXY\<close> block \<open>net/b\<close> matches an address exactly when the two 32-bit
  addresses agree on their first \<open>b\<close> bits, as long as \<open>b\<close> is at most 32; in particular
  a zero prefix, and any negative one, matches every address.
\<close>

theorem cidr_prefix_match:
  assumes "inet_aton address = Some ip" and "inet_aton net = Some n"
    and "read_int bits = Some b" and "b \<le> 32"
    and "CHR ''/'' \<notin> set net" and "CHR ''/'' \<notin> set bits"
  shows "address_in_network address (net @ ''/'' @ bits) \<longleftrightarrow>
     b \<le> 0 \<or> unat ip div 2 ^ nat (32 - b) = unat n div 2 ^ nat (32 - b)"
proof -
  have sp: "split_on CHR ''/'' (net @ ''/'' @ bits) = [net, bits]"
    using split_on_append_sep [OF assms(5), of bits] split_on_no_sep [OF assms(6)] by simp
  have "address_in_network address (net @ ''/'' @ bits)
      \<longleftrightarrow> drop_bit (nat (32 - b)) ip = drop_bit (nat (32 - b)) n"
    using assms(1-4) unfolding address_in_network_def sp netmask_def
    by (simp add: and_mask_eq)
  also have "\<dots> \<longleftrightarrow> b \<le> 0 \<or> unat ip div 2 ^ nat (32 - b) = unat n div 2 ^ nat (32 - b)"
  proof (cases "b \<le> 0")
    case True
    then have "32 \<le> nat (32 - b)" by simp
    then have "drop_bit (nat (32 - b)) ip = 0" "drop_bit (nat (32 - b)) n = 0"
      by (auto intro!: bit_word_eqI simp: bit_simps dest: bit_imp_le_length)
    with True show ?thesis by simp
  next
    case False
    have "drop_bit k ip = drop_bit k n \<longleftrightarrow> unat ip div 2 ^ k = unat n div 2 ^ k" for k
      unfolding word_unat_eq_iff unat_drop_bit_eq by (simp add: drop_bit_eq_div)
    with False show ?thesis by simp
  qed
  finally show ?thesis .
qed

theorem cidr_prefix_match_witness:
  "address_in_network ''10.1.2.3'' ''10.0.0.0/8'' \<and> address_in_network ''192.168.0.1'' ''10.0.0.0/-8''
   \<and> \<not> address_in_network ''11.0.0.1'' ''10.0.0.0/8''"
proof -
  have a: "inet_aton ''10.1.2.3'' = Some 0x0a010203" "inet_aton ''10.0.0.0'' = Some 0x0a000000"
    "inet_aton ''192.168.0.1'' = Some 0xc0a80001" "inet_aton ''11.0.0.1'' = Some 0x0b000001"
    by (simp_all add: inet_aton_def aton_number_def read_base_def hex_val_def)
  have b: "read_int ''8'' = Some 8" "read_int ''-8'' = Some (- 8)"
    by (simp_all add: read_int_def py_strip_def strip_by_def py_isspace_def read_eval)
  show ?thesis
    using cidr_prefix_match [OF a(1) a(2) b(1)] cidr_prefix_match [OF a(3) a(2) b(2)]
      cidr_prefix_match [OF a(4) a(2) b(1)]
    by simp
qed

end
