(* ===== verification/Models.thy ===== *)
theory Models
  imports Multipart Utils Status_Codes Async_Bridge "HOL-Library.Multiset"
begin

text \<open>
  \<open>bindings/python/chrome_client/_python_impl/models.py\<close>: the raw header block, URL
  building, \<open>Request\<close> and its hooks, \<open>PreparedRequest\<close>, \<open>RawStream\<close> and the reading
  side of \<open>Response\<close>.  The text \<open>json.dumps\<close> returns, the authenticator and the hooks
  are arguments; a response body is what the native request will return chunk by chunk.
\<close>

section \<open>The header block\<close>

definition CONTENT_CHUNK_SIZE :: nat where "CONTENT_CHUNK_SIZE = 10 * 1024"
definition ITER_CHUNK_SIZE :: nat where "ITER_CHUNK_SIZE = 512"
definition REDIRECT_STATI :: "nat list" where "REDIRECT_STATI = [301, 302, 303, 307, 308]"
definition DEFAULT_REDIRECT_LIMIT :: int where "DEFAULT_REDIRECT_LIMIT = 30"

fun parse_lines :: "bool \<Rightarrow> string list \<Rightarrow> string \<times> headers \<Rightarrow> string \<times> headers" where
  "parse_lines first [] acc = acc"
| "parse_lines first (line # lines) (status, hs) =
     (if py_strip line = [] then parse_lines False lines (status, hs)
      else if first \<and> CHR '':'' \<notin> set (takeWhile (\<lambda>c. c \<noteq> CHR '' '') line)
      then parse_lines False lines (py_strip line, hs)
      else if CHR '':'' \<notin> set line then parse_lines False lines (status, hs)
      else (case split_once CHR '':'' line of (name, v) \<Rightarrow>
              parse_lines False lines (status, h_add (py_strip name) (PyStr (py_strip v)) hs)))"

definition parse_raw_headers :: "string \<Rightarrow> string \<times> headers" where
  "parse_raw_headers raw = parse_lines True (splitlines raw) ([], h_empty Utf8)"

text \<open>\<open>s.split(None, n)\<close>\<close>

primrec split_ws :: "nat \<Rightarrow> string \<Rightarrow> string list" where
  "split_ws 0 s = (let t = dropWhile py_isspace s in if t = [] then [] else [t])"
| "split_ws (Suc n) s =
     (let t = dropWhile py_isspace s in
      if t = [] then []
      else takeWhile (\<lambda>c. \<not> py_isspace c) t # split_ws n (dropWhile (\<lambda>c. \<not> py_isspace c) t))"

definition reason_from_status_line :: "string \<Rightarrow> nat \<Rightarrow> string" where
  "reason_from_status_line status_line status_code =
     (case (if status_line = [] then [] else split_ws 2 status_line) of
        [_, code, reason] \<Rightarrow>
          if py_isdigit code then reason
          else (case map_of REASONS status_code of Some r \<Rightarrow> r | None \<Rightarrow> [])
      | _ \<Rightarrow> (case map_of REASONS status_code of Some r \<Rightarrow> r | None \<Rightarrow> []))"

definition VERSIONS :: "(string \<times> string) list" where
  "VERSIONS = [(''HTTP/1.0'', ''HTTP/1.0''), (''HTTP/1.1'', ''HTTP/1.1''), (''HTTP/2'', ''HTTP/2''),
     (''HTTP/2.0'', ''HTTP/2''), (''HTTP/3'', ''HTTP/3''), (''HTTP/3.0'', ''HTTP/3'')]"

text \<open>The line is a status line of \<open>parse_raw_headers\<close>, so it is empty or not blank.\<close>

definition http_version_from_status_line :: "string \<Rightarrow> string option" where
  "http_version_from_status_line status_line =
     (case split_ws 1 status_line of
        [] \<Rightarrow> None
      | w # _ \<Rightarrow> (case map_of VERSIONS (py_upper w) of Some v \<Rightarrow> Some v | None \<Rightarrow> Some (py_upper w)))"

definition negotiated_http_version :: "string \<Rightarrow> string option" where
  "negotiated_http_version status_line =
     (case http_version_from_status_line status_line of
        Some token \<Rightarrow> if token \<in> {''HTTP/1.0'', ''HTTP/2'', ''HTTP/3''} then Some token else None
      | None \<Rightarrow> None)"

section \<open>URLs\<close>

datatype params_arg = NoParams | BytesParams string | StrParams string | PairParams "mvalue pairs_arg"

text \<open>Octets given as parameters are ASCII.\<close>

definition encode_url_params :: "codec \<Rightarrow> params_arg \<Rightarrow> exc_class + string" where
  "encode_url_params enc p = (case p of
     NoParams \<Rightarrow> Inr [] | BytesParams b \<Rightarrow> Inr b | StrParams s \<Rightarrow> Inr s
   | PairParams ps \<Rightarrow> encode_params enc ps)"

definition build_url :: "string \<Rightarrow> params_arg \<Rightarrow> codec \<Rightarrow> bool option \<Rightarrow> exc_class + string" where
  "build_url url_arg params enc quote_flag =
     (let url = py_strip url_arg in
      if CHR '':'' \<in> set url \<and> \<not> startswith (py_lower url) ''http'' then Inr url
      else if url = [] then Inl URLRequired
      else bind_res (urlsplit url) (\<lambda>parts.
        if u_scheme parts = [] then Inl MissingSchema
        else if u_netloc parts = [] then Inl InvalidURL
        else bind_res (encode_url_params enc params) (\<lambda>extra.
          let query = (if extra = [] then u_query parts
                       else if u_query parts = [] then extra else u_query parts @ ''&'' @ extra);
              rebuilt = urlunparse (parts\<lparr>u_path := (if u_path parts = [] then ''/'' else u_path parts),
                                        u_query := query\<rparr>)
          in if quote_flag = Some False then Inr rebuilt else requote_uri rebuilt)))"

section \<open>Hooks\<close>

datatype 'h hook_arg = Callable 'h | HookList "'h option list" | NotAHook

definition hooks_of :: "'h hook_arg \<Rightarrow> 'h list" where
  "hooks_of a = (case a of Callable h \<Rightarrow> [h] | HookList hs \<Rightarrow> concat (map (\<lambda>h. case h of Some x \<Rightarrow> [x] | None \<Rightarrow> []) hs)
     | NotAHook \<Rightarrow> [])"

type_synonym 'h hooks = "(string, 'h list) odict"

definition no_hooks :: "'h hooks" where
  "no_hooks = [(''response'', [])]"

definition register_hook :: "string \<Rightarrow> 'h hook_arg \<Rightarrow> 'h hooks \<Rightarrow> exc_class + 'h hooks" where
  "register_hook event a hooks =
     (case od_get hooks event of
        None \<Rightarrow> Inl ValueError
      | Some hs \<Rightarrow> Inr (od_put event (hs @ hooks_of a) hooks))"

definition deregister_hook :: "string \<Rightarrow> 'h \<Rightarrow> 'h hooks \<Rightarrow> bool \<times> 'h hooks" where
  "deregister_hook event h hooks =
     (case od_get hooks event of
        None \<Rightarrow> (False, hooks)
      | Some hs \<Rightarrow> if h \<in> set hs then (True, od_put event (remove1 h hs) hooks) else (False, hooks))"

definition prepare_hooks :: "(string \<times> 'h hook_arg) list \<Rightarrow> 'h hooks \<Rightarrow> 'h hooks" where
  "prepare_hooks args hooks =
     fold (\<lambda>(event, a) hs. od_put event ((case od_get hs event of Some xs \<Rightarrow> xs | None \<Rightarrow> []) @ hooks_of a) hs)
       args hooks"

section \<open>The prepared request\<close>

record ('jar, 'h) prepared =
  pr_method :: "string option"
  pr_url :: string
  pr_headers :: headers
  pr_body :: "body_source option"
  pr_hooks :: "'h hooks"
  pr_cookies :: "'jar option"
  pr_stream_body :: bool
  pr_header_order :: "string list"
  pr_quote :: "bool option"

definition pr_empty :: "('jar, 'h) prepared" where
  "pr_empty = \<lparr>pr_method = None, pr_url = [], pr_headers = h_empty Utf8, pr_body = None,
     pr_hooks = no_hooks, pr_cookies = None, pr_stream_body = False, pr_header_order = [], pr_quote = None\<rparr>"

definition pr_copy :: "('jar \<Rightarrow> 'jar) \<Rightarrow> ('jar, 'h) prepared \<Rightarrow> ('jar, 'h) prepared" where
  "pr_copy copy_jar p = p\<lparr>pr_headers := h_copy (pr_headers p), pr_cookies := map_option copy_jar (pr_cookies p)\<rparr>"

definition prepare_method :: "string option \<Rightarrow> ('jar, 'h) prepared \<Rightarrow> ('jar, 'h) prepared" where
  "prepare_method m p = p\<lparr>pr_method := map_option py_upper m\<rparr>"

definition prepare_url :: "string \<Rightarrow> params_arg \<Rightarrow> ('jar, 'h) prepared \<Rightarrow> exc_class + ('jar, 'h) prepared" where
  "prepare_url url params p = bind_res (build_url url params Utf8 (pr_quote p)) (\<lambda>u. Inr (p\<lparr>pr_url := u\<rparr>))"

datatype headers_arg = NoHeaders | HeadersObj headers | HeaderPairs "(string \<times> pyval) list"

definition prepare_headers :: "headers_arg \<Rightarrow> ('jar, 'h) prepared \<Rightarrow> ('jar, 'h) prepared" where
  "prepare_headers a p =
     p\<lparr>pr_headers := (case a of
         NoHeaders \<Rightarrow> h_empty Utf8
       | HeadersObj h \<Rightarrow> h_add_all (h_multi_items h) (h_empty Utf8)
       | HeaderPairs ps \<Rightarrow> h_set_all (filter (\<lambda>(n, v). v \<noteq> PyNone) ps) (h_empty Utf8))\<rparr>"

definition prepare_content_length :: "('jar, 'h) prepared \<Rightarrow> ('jar, 'h) prepared" where
  "prepare_content_length p =
     (let h = pr_headers p in
      if pr_stream_body p
      then p\<lparr>pr_headers := h_setitem ''Transfer-Encoding'' (PyStr ''chunked'') (h_pop ''Content-Length'' h)\<rparr>
      else case pr_body p of
        Some src \<Rightarrow>
          p\<lparr>pr_headers := h_setitem ''Content-Length''
              (PyStr (case body_length src of Some n \<Rightarrow> show_nat n | None \<Rightarrow> [])) h\<rparr>
      | None \<Rightarrow>
          if pr_method p \<notin> {Some ''GET'', Some ''HEAD''} \<and> \<not> h_contains h ''content-length''
          then p\<lparr>pr_headers := h_setitem ''Content-Length'' (PyStr ''0'') h\<rparr> else p)"

definition body_truthy :: "body_source \<Rightarrow> bool" where
  "body_truthy d = (case d of SNone \<Rightarrow> False | SBytes b \<Rightarrow> b \<noteq> [] | SText t \<Rightarrow> t \<noteq> [] | SPairs ps \<Rightarrow> ps \<noteq> []
     | SFile f \<Rightarrow> True | SIter xs \<Rightarrow> True)"

text \<open>\<open>data=\<close> beside \<open>files=\<close> must be pairs; anything else fails to unpack.\<close>

definition form_of :: "body_source \<Rightarrow> handle list pairs_arg" where
  "form_of d = (case d of
     SNone \<Rightarrow> NoPairs
   | SPairs ps \<Rightarrow> Pairs (map (\<lambda>(k, v). (k, map Value (value_items v))) ps)
   | _ \<Rightarrow> Scalar MNone)"

definition set_body :: "body_source option \<Rightarrow> bool \<Rightarrow> string option \<Rightarrow> ('jar, 'h) prepared \<Rightarrow> ('jar, 'h) prepared" where
  "set_body body stream content_type p =
     (let q = prepare_content_length (p\<lparr>pr_body := body, pr_stream_body := pr_stream_body p \<or> stream\<rparr>)
      in case content_type of
           Some ct \<Rightarrow> if ct \<noteq> [] \<and> \<not> h_contains (pr_headers q) ''content-type''
                      then q\<lparr>pr_headers := h_setitem ''Content-Type'' (PyStr ct) (pr_headers q)\<rparr> else q
         | None \<Rightarrow> q)"

definition has_files :: "'v pairs_arg \<Rightarrow> bool" where
  "has_files f = (case f of NoPairs \<Rightarrow> False | Pairs ps \<Rightarrow> ps \<noteq> [] | Scalar v \<Rightarrow> True)"

text \<open>\<open>json\<close> is the text \<open>json.dumps\<close> returns for \<open>json=\<close>, when it is given.\<close>

definition prepare_body ::
  "(string \<Rightarrow> string option) \<Rightarrow> string \<Rightarrow> body_source \<Rightarrow> file_entry list pairs_arg \<Rightarrow> string option
   \<Rightarrow> ('jar, 'h) prepared \<Rightarrow> exc_class + ('jar, 'h) prepared" where
  "prepare_body guess_type fresh d files json p =
     (if \<not> body_truthy d \<and> json \<noteq> None
      then Inr (set_body (Some (SBytes (utf8_encode (the json)))) False (Some ''application/json'') p)
      else if has_files files
      then bind_res (encode_multipart Utf8 guess_type (form_of d) files None fresh) (\<lambda>(body, ct).
             Inr (set_body (Some (SBytes body)) False (Some ct) p))
      else if body_truthy d
      then (if is_stream_body d then Inr (set_body (Some d) True None p)
            else (case d of
                SBytes b \<Rightarrow> Inr (set_body (Some (SBytes b)) False None p)
              | SText t \<Rightarrow> Inr (set_body (Some (SBytes (utf8_encode t))) False None p)
              | SPairs ps \<Rightarrow> bind_res (encode_params Utf8 (Pairs ps)) (\<lambda>text.
                  Inr (set_body (Some (SBytes (utf8_encode text))) False
                         (Some ''application/x-www-form-urlencoded'') p))
              | _ \<Rightarrow> Inr p))
      else (case d of
          SBytes b \<Rightarrow> Inr (set_body (Some (SBytes b)) False None p)
        | SText t \<Rightarrow> Inr (set_body (Some (SBytes (utf8_encode t))) False None p)
        | _ \<Rightarrow> Inr (set_body None False None p)))"

definition prepare_auth ::
  "(('jar, 'h) prepared \<Rightarrow> ('jar, 'h) prepared) option \<Rightarrow> ('jar, 'h) prepared \<Rightarrow> ('jar, 'h) prepared" where
  "prepare_auth auth p = (case auth of None \<Rightarrow> p | Some f \<Rightarrow> prepare_content_length (f p))"

text \<open>\<open>prepare\<close>, in its order\<close>

definition prepare ::
  "(string \<Rightarrow> string option) \<Rightarrow> string \<Rightarrow> string option \<Rightarrow> string \<Rightarrow> headers_arg \<Rightarrow> file_entry list pairs_arg
   \<Rightarrow> body_source \<Rightarrow> params_arg \<Rightarrow> (('jar, 'h) prepared \<Rightarrow> ('jar, 'h) prepared) option \<Rightarrow> 'jar
   \<Rightarrow> (string \<times> 'h hook_arg) list \<Rightarrow> string option
   \<Rightarrow> ('jar, 'h) prepared \<Rightarrow> exc_class + ('jar, 'h) prepared" where
  "prepare guess_type fresh meth url hs files d params auth jar hooks json p =
     bind_res (prepare_url url params (prepare_method meth p)) (\<lambda>p1.
     bind_res (prepare_body guess_type fresh d files json
                 ((prepare_headers hs p1)\<lparr>pr_cookies := Some jar\<rparr>)) (\<lambda>p2.
     let p3 = prepare_auth auth p2
     in Inr (p3\<lparr>pr_hooks := prepare_hooks hooks (pr_hooks p3)\<rparr>)))"

text \<open>\<open>ranking.get(name, fallback)\<close>; a name pinned twice ranks at its last position.\<close>

definition header_ranking :: "string list \<Rightarrow> (string, nat) odict" where
  "header_ranking order = od_of (zip (map py_lower order) [0..<length order])"

definition header_rank :: "(string, nat) odict \<Rightarrow> string \<times> string \<Rightarrow> nat" where
  "header_rank ranking item =
     (case od_get ranking (py_lower (fst item)) of Some i \<Rightarrow> i | None \<Rightarrow> length ranking)"

definition wire_headers :: "('jar, 'h) prepared \<Rightarrow> (string \<times> string) list" where
  "wire_headers p =
     (let pairs = h_multi_items (pr_headers p)
      in if pr_header_order p = [] then pairs
         else sort_key (header_rank (header_ranking (pr_header_order p))) pairs)"

section \<open>The raw view of a body\<close>

record raw_stream =
  rs_buffer :: string
  rs_chunks :: "string list"
  rs_closed :: bool

text \<open>\<open>buffer[:amt]\<close> and \<open>buffer[amt:]\<close>; a negative bound counts from the end.\<close>

definition slice_at :: "int \<Rightarrow> string \<Rightarrow> nat" where
  "slice_at amt s = (if amt < 0 then nat (int (length s) + amt) else nat amt)"

fun rs_fill :: "int \<Rightarrow> string \<Rightarrow> string list \<Rightarrow> string \<times> string list" where
  "rs_fill amt buf [] = (buf, [])"
| "rs_fill amt buf (c # cs) = (if int (length buf) < amt then rs_fill amt (buf @ c) cs else (buf, c # cs))"

definition rs_read :: "int option \<Rightarrow> raw_stream \<Rightarrow> string \<times> raw_stream" where
  "rs_read amt r =
     (if rs_closed r then ([], r)
      else case amt of
        None \<Rightarrow> (rs_buffer r @ concat (rs_chunks r), r\<lparr>rs_buffer := [], rs_chunks := [], rs_closed := True\<rparr>)
      | Some n \<Rightarrow>
          (case rs_fill n (rs_buffer r) (rs_chunks r) of (buf, cs) \<Rightarrow>
             (take (slice_at n buf) buf, r\<lparr>rs_buffer := drop (slice_at n buf) buf, rs_chunks := cs\<rparr>)))"

definition rs_left :: "raw_stream \<Rightarrow> string" where
  "rs_left r = rs_buffer r @ concat (rs_chunks r)"

lemma rs_fill_same: "rs_fill amt buf cs = (buf', cs') \<Longrightarrow> buf' @ concat cs' = buf @ concat cs"
  by (induction amt buf cs rule: rs_fill.induct) (auto split: if_splits)

lemma take_drop_append [simp]: "take n x @ drop n x @ y = x @ y"
  by (metis append_assoc append_take_drop_id)

lemma rs_read_some:
  "\<not> rs_closed r \<Longrightarrow> rs_read (Some n) r = (b, r') \<Longrightarrow>
   b @ rs_left r' = rs_left r \<and> \<not> rs_closed r'"
  by (auto simp: rs_read_def rs_left_def dest!: rs_fill_same split: prod.splits)

lemma rs_read_shrinks:
  "rs_read (Some n) r = (b, r') \<Longrightarrow> b \<noteq> [] \<Longrightarrow> length (rs_left r') < length (rs_left r)"
proof -
  assume rd: "rs_read (Some n) r = (b, r')" and b: "b \<noteq> []"
  then have "\<not> rs_closed r" by (auto simp: rs_read_def)
  with rd have "length (b @ rs_left r') = length (rs_left r)" using rs_read_some by metis
  with b show ?thesis by (cases b) auto
qed

text \<open>\<open>stream(amt)\<close>: read until a read returns nothing.\<close>

function rs_stream :: "int \<Rightarrow> raw_stream \<Rightarrow> string list \<times> raw_stream" where
  "rs_stream amt r =
     (case rs_read (Some amt) r of (b, r') \<Rightarrow>
        if b = [] then ([], r') else (case rs_stream amt r' of (bs, r2) \<Rightarrow> (b # bs, r2)))"
  by pat_completeness auto
termination
  by (relation "measure (\<lambda>(amt, r). length (rs_left r))") (auto dest: rs_read_shrinks [OF sym])

declare rs_stream.simps [simp del]

section \<open>Responses\<close>

text \<open>
  A body reader with what \<open>next_body()\<close> will give: an exhausted feed is the end of the
  body, an error is a native message.
\<close>

type_synonym feed = "(string + string) list"

definition next_of :: "feed \<Rightarrow> string + string option" where
  "next_of f = (case f of [] \<Rightarrow> Inr None | Inl m # _ \<Rightarrow> Inl m | Inr c # _ \<Rightarrow> Inr (Some c))"

fun sr_collect :: "feed \<Rightarrow> sync_reader \<Rightarrow> (exc + string) \<times> feed \<times> sync_reader" where
  "sr_collect [] r =
     (case sr_next (Inr None) r of (Raise e, r') \<Rightarrow> (Inl e, [], r') | (_, r') \<Rightarrow> (Inr [], [], r'))"
| "sr_collect (x # xs) r =
     (case sr_next (next_of (x # xs)) r of
        (Chunk b, r') \<Rightarrow>
          (case sr_collect xs r' of (res, rest, r2) \<Rightarrow> (bind_res res (\<lambda>t. Inr (b @ t)), rest, r2))
      | (Raise e, r') \<Rightarrow> (Inl e, xs, r')
      | (_, r') \<Rightarrow> (Inr [], x # xs, r'))"

record response =
  rp_content :: "string option"
  rp_consumed :: bool
  rp_reader :: "(feed \<times> sync_reader) option"
  rp_status :: "nat option"
  rp_headers :: headers
  rp_url :: string
  rp_reason :: string
  rp_status_line :: string
  rp_http_version :: "string option"
  rp_redirect_count :: nat
  rp_redirect_url :: "string option"
  rp_history_headers :: "(string \<times> headers) list"

definition rp_new :: response where
  "rp_new = \<lparr>rp_content = None, rp_consumed = False, rp_reader = None, rp_status = None,
     rp_headers = h_empty Utf8, rp_url = [], rp_reason = [], rp_status_line = [], rp_http_version = None,
     rp_redirect_count = 0, rp_redirect_url = None, rp_history_headers = []\<rparr>"

definition rp_get_content :: "response \<Rightarrow> (exc + string) \<times> response" where
  "rp_get_content p =
     (case rp_content p of
        Some b \<Rightarrow> (Inr b, p)
      | None \<Rightarrow>
          (case rp_reader p of
             None \<Rightarrow> (Inr [], p\<lparr>rp_content := Some [], rp_consumed := True\<rparr>)
           | Some (f, r) \<Rightarrow>
               (case sr_collect f r of
                  (Inl e, f', r') \<Rightarrow> (Inl e, p\<lparr>rp_reader := Some (f', r')\<rparr>)
                | (Inr b, f', r') \<Rightarrow> (Inr b, p\<lparr>rp_content := Some b, rp_reader := None, rp_consumed := True\<rparr>))))"

definition rp_set_content :: "string \<Rightarrow> response \<Rightarrow> response" where
  "rp_set_content b p = p\<lparr>rp_content := Some b, rp_consumed := True\<rparr>"

definition rp_close :: "response \<Rightarrow> response" where
  "rp_close p = p\<lparr>rp_reader := None, rp_consumed := True\<rparr>"

definition is_redirect :: "response \<Rightarrow> bool" where
  "is_redirect p \<longleftrightarrow> h_contains (rp_headers p) ''location''
     \<and> (case rp_status p of None \<Rightarrow> False | Some n \<Rightarrow> n \<in> set REDIRECT_STATI)"

definition is_permanent_redirect :: "response \<Rightarrow> bool" where
  "is_permanent_redirect p \<longleftrightarrow> h_contains (rp_headers p) ''location'' \<and> rp_status p \<in> {Some 301, Some 308}"

definition raise_for_status :: "response \<Rightarrow> exc + response" where
  "raise_for_status p =
     (case rp_status p of
        None \<Rightarrow> Inr p
      | Some n \<Rightarrow>
          if 400 \<le> n \<and> n < 500
          then raise_exc HTTPError (show_nat n @ '' Client Error: '' @ rp_reason p @ '' for url: '' @ rp_url p)
          else if 500 \<le> n \<and> n < 600
          then raise_exc HTTPError (show_nat n @ '' Server Error: '' @ rp_reason p @ '' for url: '' @ rp_url p)
          else Inr p)"

definition rp_ok :: "response \<Rightarrow> bool" where
  "rp_ok p \<longleftrightarrow> (case raise_for_status p of Inl e \<Rightarrow> False | Inr _ \<Rightarrow> True)"

text \<open>\<open>_stream_chunks\<close>: whole blocks as they fill, the rest at the end.\<close>

function cut :: "nat \<Rightarrow> string \<Rightarrow> string list \<times> string" where
  "cut n s = (if n = 0 \<or> length s < n then ([], s)
              else (case cut n (drop n s) of (bs, r) \<Rightarrow> (take n s # bs, r)))"
  by pat_completeness auto
termination
  by (relation "measure (\<lambda>(n, s). length s)") auto

declare cut.simps [simp del]

fun stream_chunks :: "nat \<Rightarrow> string \<Rightarrow> feed \<Rightarrow> sync_reader \<Rightarrow> string list \<times> exc option" where
  "stream_chunks n pending [] r =
     (case sr_next (Inr None) r of
        (Raise e, _) \<Rightarrow> ([], Some e)
      | _ \<Rightarrow> (if pending = [] then [] else [pending], None))"
| "stream_chunks n pending (x # xs) r =
     (case sr_next (next_of (x # xs)) r of
        (Chunk b, r') \<Rightarrow>
          (case cut n (pending @ b) of (bs, left) \<Rightarrow>
             (case stream_chunks n left xs r' of (cs, e) \<Rightarrow> (bs @ cs, e)))
      | (Raise e, _) \<Rightarrow> ([], Some e)
      | _ \<Rightarrow> (if pending = [] then [] else [pending], None))"

text \<open>
  \<open>iter_content\<close>, consumed to its end: the blocks it yields and the error that ends it.
\<close>

definition iter_content :: "int option \<Rightarrow> response \<Rightarrow> exc_class + (string list \<times> exc option) \<times> response" where
  "iter_content chunk_size p =
     (if (case chunk_size of None \<Rightarrow> False | Some n \<Rightarrow> n \<le> 0) then Inl ValueError
      else
        let n = (case chunk_size of None \<Rightarrow> CONTENT_CHUNK_SIZE | Some k \<Rightarrow> nat k) in
        case rp_reader p of
          Some (f, r) \<Rightarrow> Inr (stream_chunks n [] f r, p\<lparr>rp_reader := None, rp_consumed := True\<rparr>)
        | None \<Rightarrow>
            if rp_consumed p \<and> rp_content p = None then Inl StreamConsumedError
            else (case rp_get_content p of
                    (Inl e, p') \<Rightarrow> Inr (([], Some e), p')
                  | (Inr b, p') \<Rightarrow> Inr ((blocks n b, None), p')))"

text \<open>\<open>bytes.splitlines()\<close> breaks at line feeds, carriage returns and pairs of them.\<close>

fun byte_lines :: "string \<Rightarrow> string \<Rightarrow> string list" where
  "byte_lines acc [] = (if acc = [] then [] else [rev acc])"
| "byte_lines acc (c # s) =
     (if cp c = 10 then rev acc # byte_lines [] s
      else if cp c = 13
      then (case s of [] \<Rightarrow> [rev acc]
            | d # s' \<Rightarrow> if cp d = 10 then rev acc # byte_lines [] s' else rev acc # byte_lines [] (d # s'))
      else byte_lines (c # acc) s)"

text \<open>\<open>chunk.split(delimiter)\<close> for a non-empty delimiter\<close>

function split_sub :: "string \<Rightarrow> string \<Rightarrow> string list" where
  "split_sub d s =
     (case find_sub d s of
        None \<Rightarrow> [s]
      | Some (a, b) \<Rightarrow> if d = [] then [s] else a # split_sub d b)"
  by pat_completeness auto
termination
  by (relation "measure (\<lambda>(d, s). length s)") (auto dest!: find_sub_parts)

declare split_sub.simps [simp del]

fun iter_lines :: "string option \<Rightarrow> string option \<Rightarrow> string list \<Rightarrow> string list" where
  "iter_lines delimiter pending [] = (case pending of None \<Rightarrow> [] | Some p \<Rightarrow> [p])"
| "iter_lines delimiter pending (c # cs) =
     (let chunk = (case pending of None \<Rightarrow> c | Some p \<Rightarrow> p @ c);
          lines = (case delimiter of Some (x # d) \<Rightarrow> split_sub (x # d) chunk | _ \<Rightarrow> byte_lines [] chunk)
      in if lines \<noteq> [] \<and> last lines \<noteq> [] \<and> chunk \<noteq> [] \<and> last (last lines) = last chunk
         then butlast lines @ iter_lines delimiter (Some (last lines)) cs
         else lines @ iter_lines delimiter None cs)"

section \<open>Properties of the header block\<close>

lemma strip_by_Nil_iff: "strip_by P s = [] \<longleftrightarrow> (\<forall>c \<in> set s. P c)"
proof -
  have "strip_by P s = [] \<longleftrightarrow> (\<forall>c \<in> set (dropWhile P s). P c)"
    by (simp add: strip_by_def)
  also have "\<dots> \<longleftrightarrow> dropWhile P s = []"
    by (metis hd_dropWhile list.set_sel(1) empty_iff list.set(1))
  finally show ?thesis by (simp only: dropWhile_eq_Nil_conv)
qed

lemma split_once_first: "c \<notin> set n \<Longrightarrow> split_once c (n @ c # r) = (n, r)"
  by (induction n) (auto simp: split_once_def)

lemma py_strip_space: "py_strip (CHR '' '' # v) = py_strip v"
  by (simp add: py_strip_def strip_by_def py_isspace_def)

lemma splitlines_acc_plain:
  "\<forall>c \<in> set w. \<not> is_linebreak c \<Longrightarrow>
   splitlines_acc acc (w @ CHR 0x0a # t) = (rev acc @ w) # splitlines_acc [] t"
  by (induction w arbitrary: acc) (auto simp: is_linebreak_def)

lemma splitlines_acc_last:
  "\<forall>c \<in> set w. \<not> is_linebreak c \<Longrightarrow> acc @ w \<noteq> [] \<Longrightarrow> splitlines_acc acc w = [rev acc @ w]"
  by (induction w arbitrary: acc) auto

lemma splitlines_join:
  "\<forall>w \<in> set ws. w \<noteq> [] \<and> (\<forall>c \<in> set w. \<not> is_linebreak c) \<Longrightarrow> splitlines (join [CHR 0x0a] ws) = ws"
  unfolding splitlines_def
  by (induction "[CHR 0x0a]" ws rule: join.induct)
    (auto simp: splitlines_acc_plain splitlines_acc_last)

definition header_line :: "string \<times> string \<Rightarrow> string" where
  "header_line f = fst f @ '': '' @ snd f"

definition clean_text :: "string \<Rightarrow> bool" where
  "clean_text s \<longleftrightarrow> py_strip s = s \<and> (\<forall>c \<in> set s. \<not> is_linebreak c)"

lemma parse_header_line:
  assumes "clean_text n" and "n \<noteq> []" and "CHR '':'' \<notin> set n" and "clean_text v"
  shows "parse_lines False (header_line (n, v) # lines) (status, hs)
       = parse_lines False lines (status, h_add n (PyStr v) hs)"
proof -
  have "split_once CHR '':'' (header_line (n, v)) = (n, CHR '' '' # v)"
    using split_once_first [OF assms(3)] by (simp add: header_line_def)
  moreover have "\<not> (\<forall>c \<in> set n. py_isspace c)"
    using assms(1,2) strip_by_Nil_iff [of py_isspace n] by (auto simp: clean_text_def py_strip_def)
  then have "py_strip (header_line (n, v)) \<noteq> []"
    by (auto simp: py_strip_def strip_by_Nil_iff header_line_def)
  ultimately show ?thesis
    using assms by (simp add: py_strip_space clean_text_def) (simp add: header_line_def)
qed

lemma parse_header_lines:
  "\<forall>(n, v) \<in> set fds. clean_text n \<and> n \<noteq> [] \<and> CHR '':'' \<notin> set n \<and> clean_text v \<Longrightarrow>
   parse_lines False (map header_line fds) (status, hs) = (status, h_add_all fds hs)"
proof (induction fds arbitrary: hs)
  case (Cons f fds)
  obtain n v where "f = (n, v)" by (cases f)
  with Cons show ?case by (simp add: parse_header_line h_add_all_def del: parse_lines.simps)
qed (simp add: h_add_all_def)

text \<open>
  C14: Parsing inverts rendering: a status line and a list of fields, written one per line,
  are read back with every field, every duplicate, its spelling and its order kept; this
  holds for names without a colon and for values whose white space is inside.
\<close>

theorem parse_raw_headers_roundtrip:
  assumes "clean_text status" and "status \<noteq> []" and "CHR '':'' \<notin> set status"
    and "\<forall>(n, v) \<in> set fs. clean_text n \<and> n \<noteq> [] \<and> CHR '':'' \<notin> set n \<and> clean_text v"
  shows "parse_raw_headers (join [CHR 0x0a] (status # map header_line fs))
       = (status, h_add_all fs (h_empty Utf8))
    \<and> h_multi_items (h_add_all fs (h_empty Utf8)) = fs"
proof
  have "\<forall>w \<in> set (status # map header_line fs). w \<noteq> [] \<and> (\<forall>c \<in> set w. \<not> is_linebreak c)"
    using assms by (auto simp: clean_text_def header_line_def is_linebreak_def split: prod.splits)
  then have "splitlines (join [CHR 0x0a] (status # map header_line fs)) = status # map header_line fs"
    by (rule splitlines_join)
  moreover have "CHR '':'' \<notin> set (takeWhile (\<lambda>c. c \<noteq> CHR '' '') status)"
    using assms(3) by (auto dest: set_takeWhileD)
  ultimately show "parse_raw_headers (join [CHR 0x0a] (status # map header_line fs))
      = (status, h_add_all fs (h_empty Utf8))"
    using assms parse_header_lines [OF assms(4)]
    by (simp add: parse_raw_headers_def clean_text_def)
  have "h_multi_items (h_add_all fs h) = h_multi_items h @ fs" for h
    unfolding h_add_all_def
    by (induction fs arbitrary: h) (auto simp: h_multi_items_def h_add_def)
  then show "h_multi_items (h_add_all fs (h_empty Utf8)) = fs"
    by (simp add: h_multi_items_def h_empty_def)
qed

theorem parse_raw_headers_roundtrip_witness:
  "h_multi_items (snd (parse_raw_headers (join [CHR 0x0a]
     (''HTTP/1.1 200 OK'' # map header_line [(''Set-Cookie'', ''a=1''), (''Set-Cookie'', ''b=2'')]))))
   = [(''Set-Cookie'', ''a=1''), (''Set-Cookie'', ''b=2'')]"
  using parse_raw_headers_roundtrip [of "''HTTP/1.1 200 OK''" "[(''Set-Cookie'', ''a=1''), (''Set-Cookie'', ''b=2'')]"]
  by (simp add: clean_text_def is_linebreak_def py_strip_def strip_by_def py_isspace_def)

section \<open>Properties of body reading\<close>

lemma cut_blocks:
  "0 < n \<Longrightarrow> cut n s = (bs, left) \<Longrightarrow> length left < n \<and> blocks n (s @ t) = bs @ blocks n (left @ t)"
proof (induction n s arbitrary: bs left rule: cut.induct)
  case (1 n s)
  show ?case
  proof (cases "length s < n")
    case True
    with "1.prems" show ?thesis by (subst (asm) cut.simps) auto
  next
    case False
    obtain cs l where c: "cut n (drop n s) = (cs, l)" by (cases "cut n (drop n s)")
    with "1.prems" False have bl: "bs = take n s # cs" "left = l"
      by (subst (asm) cut.simps, simp)+
    have "blocks n (s @ t) = take n s # blocks n (drop n s @ t)"
      using False "1.prems"(1) by (subst blocks.simps) auto
    with "1.IH" [OF _ "1.prems"(1) c] False "1.prems"(1) show ?thesis by (simp add: bl)
  qed
qed

lemma blocks_short: "0 < n \<Longrightarrow> length s \<le> n \<Longrightarrow> blocks n s = (if s = [] then [] else [s])"
  by (subst blocks.simps) simp

lemma sr_collect_join: "fst (sr_collect (map Inr cs) r) = sr_join cs r"
proof (induction cs arbitrary: r)
  case (Cons c cs)
  obtain out r1 where nx: "sr_next (Inr (Some c)) r = (out, r1)" by (cases "sr_next (Inr (Some c)) r")
  with Cons.IH [of r1] show ?case
    by (cases out) (auto simp: next_of_def split: prod.splits)
qed (auto split: outcome.splits prod.splits)

lemma stream_chunks_blocks:
  "0 < n \<Longrightarrow> length pending < n \<Longrightarrow> \<not> sr_closed r \<Longrightarrow> sr_join cs r = Inr body \<Longrightarrow>
   stream_chunks n pending (map Inr cs) r = (blocks n (pending @ body), None)"
proof (induction cs arbitrary: pending r body)
  case Nil
  then show ?case by (simp add: sr_next_def blocks_short split: if_splits)
next
  case (Cons c cs)
  show ?case
  proof (cases "exceeds (sr_limit r) (sr_total r + length c)")
    case True
    then obtain l where "sr_limit r = Some l" "l < sr_total r + length c" by (cases "sr_limit r") auto
    with Cons.prems show ?thesis by (simp add: sr_next_over)
  next
    case False
    let ?r = "r\<lparr>sr_total := sr_total r + length c\<rparr>"
    from Cons.prems False obtain rest where rest: "sr_join cs ?r = Inr rest" "body = c @ rest"
      by (auto simp: sr_next_chunk bind_res_Inr)
    obtain bs left where ct: "cut n (pending @ c) = (bs, left)" by (cases "cut n (pending @ c)")
    from cut_blocks [OF Cons.prems(1) ct]
    have left: "length left < n" and bl: "blocks n (pending @ body) = bs @ blocks n (left @ rest)"
      by (auto simp: rest(2))
    with Cons.IH [OF Cons.prems(1) left _ rest(1)] Cons.prems False ct show ?thesis
      by (simp add: next_of_def sr_next_chunk)
  qed
qed

lemma iter_content_blocks:
  assumes "rp_reader p = Some (map Inr cs, sr_init limit)" and "rp_content p = None"
    and "rp_get_content p = (Inr body, loaded)" and "0 < k"
  shows "iter_content (Some (int k)) p
    = Inr ((blocks k body, None), p\<lparr>rp_reader := None, rp_consumed := True\<rparr>)"
proof -
  have "sr_join cs (sr_init limit) = Inr body"
    using assms(1-3) sr_collect_join [of cs "sr_init limit"]
    by (auto simp: rp_get_content_def split: prod.splits sum.splits)
  moreover have "\<not> sr_closed (sr_init limit)" by (simp add: sr_init_def)
  ultimately have "stream_chunks k [] (map Inr cs) (sr_init limit) = (blocks k body, None)"
    using stream_chunks_blocks [of k "[]" "sr_init limit" cs body] assms(4) by simp
  with assms(1,4) show ?thesis by (simp add: iter_content_def)
qed

text \<open>
  \<open>iter_content\<close> yields the same blocks whether the body is streamed, however the
  Core cut it into chunks, or was loaded before: the body in blocks of the requested size.
\<close>

theorem iter_content_streamed_or_loaded:
  assumes "rp_reader p = Some (map Inr cs, sr_init limit)" and "rp_content p = None"
    and "rp_get_content p = (Inr body, loaded)" and "0 < k"
  shows "map_sum id fst (iter_content (Some (int k)) p) = Inr (blocks k body, None)
    \<and> map_sum id fst (iter_content (Some (int k)) loaded) = Inr (blocks k body, None)
    \<and> concat (blocks k body) = body"
proof -
  have "rp_reader loaded = None" "rp_content loaded = Some body"
    using assms(1-3) by (auto simp: rp_get_content_def split: prod.splits sum.splits)
  then have "iter_content (Some (int k)) loaded = Inr ((blocks k body, None), loaded)"
    using assms(4) by (simp add: iter_content_def rp_get_content_def)
  then show ?thesis
    using iter_content_blocks [OF assms] assms(4) by (simp add: concat_blocks)
qed

theorem iter_content_streamed_or_loaded_witness:
  "map_sum id fst (iter_content (Some (int 2)) (rp_new\<lparr>rp_reader := Some (map Inr [''abc'', ''de''], sr_init None)\<rparr>))
     = Inr (blocks 2 ''abcde'', None)"
  using iter_content_streamed_or_loaded
    [of "rp_new\<lparr>rp_reader := Some (map Inr [''abc'', ''de''], sr_init None)\<rparr>" "[''abc'', ''de'']" None "''abcde''" _ 2]
  by (simp add: rp_get_content_def rp_new_def next_of_def sr_next_def sr_init_def)

lemma sr_next_raise_closes: "sr_next x r = (Raise e, r') \<Longrightarrow> sr_closed r'"
  by (auto simp: sr_next_def sr_close_def Let_def split: if_splits sum.splits option.splits)

lemma sr_collect_raise_closes: "sr_collect f r = (Inl e, f', r') \<Longrightarrow> sr_closed r'"
proof (induction f r arbitrary: f' r' rule: sr_collect.induct)
  case (1 r)
  then show ?case by (auto split: outcome.splits prod.splits dest: sr_next_raise_closes)
next
  case (2 x xs r)
  obtain out r1 where nx: "sr_next (next_of (x # xs)) r = (out, r1)"
    by (cases "sr_next (next_of (x # xs)) r")
  show ?case
  proof (cases out)
    case (Chunk b)
    obtain res rest r2 where c: "sr_collect xs r1 = (res, rest, r2)" by (cases "sr_collect xs r1")
    have "res = Inl e" "r2 = r'" using "2.prems" by (simp_all add: nx Chunk c bind_res_Inl)
    with c show ?thesis using "2.IH" [OF nx [symmetric] Chunk] by simp
  next
    case (Raise e')
    with "2.prems" nx show ?thesis by (auto dest: sr_next_raise_closes)
  qed (use "2.prems" nx in auto)
qed

lemma sr_collect_closed: "sr_closed r \<Longrightarrow> fst (sr_collect f r) = Inr []"
  by (cases f) (simp_all add: sr_next_def)

text \<open>
  A body that fails while \<open>content\<close> reads it, because it is over the limit or
  because the transport failed, is an empty body to the next read: the reader is closed and
  kept, and joining it again succeeds with no octets.
\<close>

theorem content_after_error_is_empty:
  assumes "rp_get_content p = (Inl e, p')"
  shows "fst (rp_get_content p') = Inr []"
proof -
  from assms obtain f r f' r' where "rp_content p = None" "rp_reader p = Some (f, r)"
    "sr_collect f r = (Inl e, f', r')" "p' = p\<lparr>rp_reader := Some (f', r')\<rparr>"
    by (auto simp: rp_get_content_def split: option.splits prod.splits sum.splits)
  then show ?thesis
    using sr_collect_closed [OF sr_collect_raise_closes, of f r e f' r' f']
    by (auto simp: rp_get_content_def split: prod.splits sum.splits)
qed

theorem content_after_error_is_empty_witness:
  "fst (rp_get_content (snd (rp_get_content
     (rp_new\<lparr>rp_reader := Some ([Inr ''abcdef''], sr_init (Some 3))\<rparr>)))) = Inr []"
  by (rule content_after_error_is_empty [where e = "too_large 3" and p = "rp_new\<lparr>rp_reader := Some ([Inr ''abcdef''], sr_init (Some 3))\<rparr>"])
    (simp add: rp_get_content_def rp_new_def next_of_def sr_next_def sr_init_def)

section \<open>Properties of line iteration\<close>

definition plain :: "string \<Rightarrow> bool" where
  "plain s \<longleftrightarrow> (\<forall>c \<in> set s. cp c \<noteq> 10 \<and> cp c \<noteq> 13)"

definition lf_block :: "string list \<Rightarrow> string" where
  "lf_block ls = concat (map (\<lambda>l. l @ [CHR 0x0a]) ls)"

lemma byte_lines_plain: "plain l \<Longrightarrow> byte_lines acc (l @ CHR 0x0a # t) = (rev acc @ l) # byte_lines [] t"
  by (induction l arbitrary: acc) (auto simp: plain_def)

lemma byte_lines_rest: "plain r \<Longrightarrow> byte_lines acc r = (if acc = [] \<and> r = [] then [] else [rev acc @ r])"
  by (induction r arbitrary: acc) (auto simp: plain_def)

lemma byte_lines_block:
  "\<forall>l \<in> set ls. plain l \<Longrightarrow> byte_lines [] (lf_block ls @ t) = ls @ byte_lines [] t"
  by (induction ls) (auto simp: lf_block_def byte_lines_plain)

lemma cp_lf: "cp c = 10 \<longleftrightarrow> c = CHR 0x0a"
proof -
  have "cp CHR 0x0a = 10" by simp
  then show ?thesis using of_char_eq_iff [of c "CHR 0x0a", where 'a = nat] by simp
qed

text \<open>Text without carriage returns is a block of lines and an unfinished one.\<close>

lemma lf_decompose:
  assumes "\<forall>c \<in> set s. cp c \<noteq> 13"
  obtains ls r where "s = lf_block ls @ r" "\<forall>l \<in> set ls. plain l" "plain r"
proof -
  have "\<exists>ls r. s = lf_block ls @ r \<and> (\<forall>l \<in> set ls. plain l) \<and> plain r"
    using assms
  proof (induction s)
    case (Cons c s)
    then obtain ls r where d: "s = lf_block ls @ r" "\<forall>l \<in> set ls. plain l" "plain r" by auto
    show ?case
    proof (cases "cp c = 10")
      case True
      then have "c # s = lf_block ([] # ls) @ r" by (simp add: d(1) lf_block_def cp_lf)
      with d(2,3) show ?thesis by (intro exI [of _ "[] # ls"] exI [of _ r]) (auto simp: plain_def)
    next
      case False
      show ?thesis
      proof (cases ls)
        case Nil
        with False Cons.prems d show ?thesis
          by (intro exI [of _ "[]"] exI [of _ "c # r"]) (auto simp: lf_block_def plain_def)
      next
        case (Cons l ls')
        with False Cons.prems d show ?thesis
          by (intro exI [of _ "(c # l) # ls'"] exI [of _ r]) (auto simp: lf_block_def plain_def)
      qed
    qed
  qed (auto simp: lf_block_def plain_def intro: exI [of _ "[]"])
  with that show ?thesis by blast
qed

lemma last_lf_block: "ls \<noteq> [] \<Longrightarrow> last (lf_block ls) = CHR 0x0a"
  by (induction ls rule: rev_induct) (auto simp: lf_block_def)

lemma plain_last: "plain l \<Longrightarrow> l \<noteq> [] \<Longrightarrow> last l \<noteq> CHR 0x0a"
  by (metis plain_def cp_lf last_in_set)

lemma iter_lines_whole:
  "\<forall>c \<in> set (concat cs). cp c \<noteq> 13 \<Longrightarrow> (case pending of None \<Rightarrow> True | Some p \<Rightarrow> p \<noteq> [] \<and> plain p) \<Longrightarrow>
   iter_lines None pending cs
     = byte_lines [] ((case pending of None \<Rightarrow> [] | Some p \<Rightarrow> p) @ concat cs)"
proof (induction cs arbitrary: pending)
  case Nil
  then show ?case by (auto simp: byte_lines_rest split: option.splits)
next
  case (Cons c cs)
  let ?chunk = "(case pending of None \<Rightarrow> [] | Some p \<Rightarrow> p) @ c"
  have ch: "(case pending of None \<Rightarrow> c | Some p \<Rightarrow> p @ c) = ?chunk" by (simp split: option.splits)
  have nocr: "\<forall>x \<in> set ?chunk. cp x \<noteq> 13" "\<forall>x \<in> set (concat cs). cp x \<noteq> 13"
    using Cons.prems by (auto simp: plain_def split: option.splits)
  obtain ls r where d: "?chunk = lf_block ls @ r" "\<forall>l \<in> set ls. plain l" "plain r"
    using lf_decompose [OF nocr(1)] by blast
  have whole: "byte_lines [] (?chunk @ concat cs) = ls @ byte_lines [] (r @ concat cs)"
    unfolding d(1) by (simp add: byte_lines_block d(2))
  show ?case
  proof (cases "r = []")
    case True
    then have lines: "byte_lines [] ?chunk = ls" using byte_lines_block [OF d(2), of "[]"] by (simp add: d(1))
    have neg: "\<not> (ls \<noteq> [] \<and> last ls \<noteq> [] \<and> ?chunk \<noteq> [] \<and> last (last ls) = last ?chunk)"
      using d True last_lf_block [of ls] plain_last [of "last ls"] by auto
    have "iter_lines None pending (c # cs) = ls @ iter_lines None None cs"
      by (simp only: iter_lines.simps Let_def option.case ch lines neg if_False)
    with Cons.IH [of None] nocr(2) whole True show ?thesis by simp
  next
    case False
    then have lines: "byte_lines [] ?chunk = ls @ [r]"
      using byte_lines_block [OF d(2), of r] byte_lines_rest [OF d(3), of "[]"] by (simp add: d(1))
    have pos: "(ls @ [r] \<noteq> [] \<and> last (ls @ [r]) \<noteq> [] \<and> ?chunk \<noteq> []
        \<and> last (last (ls @ [r])) = last ?chunk) = True"
      using False by (simp add: d(1))
    have "iter_lines None pending (c # cs) = ls @ iter_lines None (Some r) cs"
      by (simp only: iter_lines.simps Let_def option.case ch lines pos if_True) simp
    with Cons.IH [of "Some r"] nocr(2) whole False d(3) show ?thesis by simp
  qed
qed

text \<open>
  Without a delimiter, \<open>iter_lines\<close> yields the lines of the whole body, however it
  was cut into chunks, for any body without carriage returns.  (With a carriage return the
  cut shows: a chunk that ends between the two characters of a line end yields an extra
  empty line.)
\<close>

theorem iter_lines_chunking:
  assumes "\<forall>c \<in> set (concat cs). cp c \<noteq> 13"
  shows "iter_lines None None cs = byte_lines [] (concat cs)
    \<and> iter_lines None None [''a'' @ [CHR 0x0d], CHR 0x0a # ''b''] = [''a'', [], ''b'']
    \<and> byte_lines [] (''a'' @ [CHR 0x0d, CHR 0x0a] @ ''b'') = [''a'', ''b'']"
  using iter_lines_whole [OF assms, of None] by simp

theorem iter_lines_chunking_witness:
  "iter_lines None None [''ab'' @ [CHR 0x0a] @ ''c'', ''d'', [CHR 0x0a]] = [''ab'', ''cd'']"
  using iter_lines_chunking [of "[''ab'' @ [CHR 0x0a] @ ''c'', ''d'', [CHR 0x0a]]"] by simp

section \<open>Properties of the prepared request\<close>

lemma sort_key_layer:
  "sort_key f (filter (\<lambda>x. f x < Suc m) xs)
     = sort_key f (filter (\<lambda>x. f x < m) xs) @ filter (\<lambda>x. f x = (m::nat)) xs"
proof (rule properties_for_sort_key)
  have "mset (filter (\<lambda>x. f x < m) xs) + mset (filter (\<lambda>x. f x = m) xs) = mset (filter (\<lambda>x. f x < Suc m) xs)"
    by (induction xs) (auto simp: less_Suc_eq)
  then show "mset (sort_key f (filter (\<lambda>x. f x < m) xs) @ filter (\<lambda>x. f x = m) xs)
      = mset (filter (\<lambda>x. f x < Suc m) xs)" by simp
next
  fix k
  assume k: "k \<in> set (sort_key f (filter (\<lambda>x. f x < m) xs) @ filter (\<lambda>x. f x = m) xs)"
  have st: "filter (\<lambda>x. f k = f x) (sort_key f ys) = filter (\<lambda>x. f k = f x) ys" for ys
    using sort_key_stable [of f "f k" ys] by (simp add: eq_commute)
  have all: "filter (\<lambda>x. f k = f x) (filter (\<lambda>x. f x < Suc m) xs) = filter (\<lambda>x. f k = f x) xs"
    using k by (auto simp: filter_filter intro!: filter_cong)
  show "filter (\<lambda>x. f k = f x) (sort_key f (filter (\<lambda>x. f x < m) xs) @ filter (\<lambda>x. f x = m) xs)
      = filter (\<lambda>x. f k = f x) (filter (\<lambda>x. f x < Suc m) xs)"
  proof (cases "f k < m")
    case True
    have "filter (\<lambda>x. f k = f x) (filter (\<lambda>x. f x = m) xs) = []"
      using True by (auto simp: filter_empty_conv)
    moreover have "filter (\<lambda>x. f k = f x) (filter (\<lambda>x. f x < m) xs) = filter (\<lambda>x. f k = f x) xs"
      using True by (auto simp: filter_filter intro!: filter_cong)
    ultimately show ?thesis unfolding filter_append st all by simp
  next
    case False
    then have "f k = m" using k by auto
    then have "filter (\<lambda>x. f k = f x) (filter (\<lambda>x. f x < m) xs) = []"
      by (auto simp: filter_empty_conv)
    moreover have "filter (\<lambda>x. f k = f x) (filter (\<lambda>x. f x = m) xs) = filter (\<lambda>x. f k = f x) xs"
      using \<open>f k = m\<close> by (auto simp: filter_filter intro!: filter_cong)
    ultimately show ?thesis unfolding filter_append st all by simp
  qed
next
  have "sorted (map f (filter (\<lambda>x. f x = m) xs))" by (induction xs) auto
  then show "sorted (map f (sort_key f (filter (\<lambda>x. f x < m) xs) @ filter (\<lambda>x. f x = m) xs))"
    by (auto simp: sorted_append)
qed

lemma sort_key_layers:
  "sort_key f (filter (\<lambda>x. f x < m) xs) = concat (map (\<lambda>i. filter (\<lambda>x. f x = i) xs) [0..<(m::nat)])"
  by (induction m) (simp_all add: sort_key_layer)

lemma od_update_new: "distinct (map fst (m @ ps)) \<Longrightarrow> od_update m ps = m @ ps"
proof (induction ps arbitrary: m)
  case (Cons q ps)
  obtain k v where "q = (k, v)" by (cases q)
  with Cons.prems Cons.IH [of "m @ [q]"] show ?case
    by (simp add: od_update_def od_put_new)
qed (simp add: od_update_def)

lemma header_ranking_distinct:
  "distinct (map py_lower order) \<Longrightarrow> header_ranking order = zip (map py_lower order) [0..<length order]"
  unfolding header_ranking_def od_of_def by (subst od_update_new) simp_all

lemma header_rank_eq:
  assumes d: "distinct (map py_lower order)"
  shows "i < length order \<Longrightarrow>
      header_rank (header_ranking order) x = i \<longleftrightarrow> py_lower (fst x) = map py_lower order ! i"
    and "header_rank (header_ranking order) x = length order \<longleftrightarrow> py_lower (fst x) \<notin> set (map py_lower order)"
    and "header_rank (header_ranking order) x \<le> length order"
proof -
  let ?ns = "map py_lower order" and ?r = "header_rank (header_ranking order) x"
  have r: "header_ranking order = zip ?ns [0..<length order]" by (rule header_ranking_distinct [OF d])
  have get: "od_get (header_ranking order) n = Some j \<longleftrightarrow> j < length order \<and> n = ?ns ! j" for n j
    unfolding r od_get_def using d
    by (subst map_of_eq_Some_iff) (auto simp: in_set_zip)
  have none: "od_get (header_ranking order) n = None \<longleftrightarrow> n \<notin> set ?ns" for n
    unfolding r od_get_def map_of_eq_None_iff set_map [symmetric, of fst] by simp
  have len: "length (header_ranking order) = length order" by (simp add: r)
  have "?r \<le> length order \<and> (?r = length order \<longleftrightarrow> py_lower (fst x) \<notin> set ?ns)
      \<and> (i < length order \<longrightarrow> (?r = i \<longleftrightarrow> py_lower (fst x) = ?ns ! i))" for i
  proof (cases "od_get (header_ranking order) (py_lower (fst x))")
    case None
    then have "?r = length order" by (simp add: header_rank_def len)
    moreover from None have "py_lower (fst x) \<notin> set ?ns" unfolding none .
    moreover from this have "i < length order \<Longrightarrow> py_lower (fst x) \<noteq> ?ns ! i"
      by (metis length_map nth_mem)
    ultimately show ?thesis by simp
  next
    case (Some j)
    then have j: "?r = j" by (simp add: header_rank_def)
    from Some have j': "j < length order" "py_lower (fst x) = ?ns ! j" unfolding get by simp_all
    then have "py_lower (fst x) \<in> set ?ns" by (metis length_map nth_mem)
    moreover have "i < length order \<Longrightarrow> (j = i \<longleftrightarrow> ?ns ! j = ?ns ! i)"
      using nth_eq_iff_index_eq [OF d] j'(1) by simp
    ultimately show ?thesis unfolding j using j'(1) unfolding j'(2) by auto
  qed
  then show "?r \<le> length order" "?r = length order \<longleftrightarrow> py_lower (fst x) \<notin> set ?ns"
    "i < length order \<Longrightarrow> ?r = i \<longleftrightarrow> py_lower (fst x) = ?ns ! i"
    by blast+
qed

text \<open>
  C23: \<open>header_order\<close> only reorders: the headers go out grouped by the pinned names, in
  the pinned order, then all the others, each group in the order the caller supplied it;
  nothing is added, dropped or changed.
\<close>

theorem wire_headers_order:
  assumes "distinct (map py_lower (pr_header_order p))"
  shows "wire_headers p =
     concat (map (\<lambda>n. filter (\<lambda>x. py_lower (fst x) = n) (h_multi_items (pr_headers p)))
              (map py_lower (pr_header_order p)))
     @ filter (\<lambda>x. py_lower (fst x) \<notin> set (map py_lower (pr_header_order p))) (h_multi_items (pr_headers p))
     \<and> mset (wire_headers p) = mset (h_multi_items (pr_headers p))"
proof
  let ?o = "pr_header_order p" and ?hs = "h_multi_items (pr_headers p)"
  let ?f = "header_rank (header_ranking ?o)"
  have all: "filter (\<lambda>x. ?f x < Suc (length ?o)) ?hs = ?hs"
    using header_rank_eq(3) [OF assms] by (simp add: less_Suc_eq_le)
  have "map (\<lambda>i. filter (\<lambda>x. ?f x = i) ?hs) [0..<length ?o]
      = map (\<lambda>n. filter (\<lambda>x. py_lower (fst x) = n) ?hs) (map py_lower ?o)"
    by (rule nth_equalityI) (simp_all add: header_rank_eq(1) [OF assms])
  then have "sort_key ?f ?hs = concat (map (\<lambda>n. filter (\<lambda>x. py_lower (fst x) = n) ?hs) (map py_lower ?o))
      @ filter (\<lambda>x. py_lower (fst x) \<notin> set (map py_lower ?o)) ?hs"
    using sort_key_layers [of ?f "Suc (length ?o)" ?hs] header_rank_eq(2) [OF assms]
    unfolding all by simp
  then show "wire_headers p = concat (map (\<lambda>n. filter (\<lambda>x. py_lower (fst x) = n) ?hs) (map py_lower ?o))
      @ filter (\<lambda>x. py_lower (fst x) \<notin> set (map py_lower ?o)) ?hs"
    by (cases "?o = []") (simp_all add: wire_headers_def Let_def)
  show "mset (wire_headers p) = mset ?hs" by (simp add: wire_headers_def Let_def)
qed

definition sample_prepared :: "(unit, unit) prepared" where
  "sample_prepared = pr_empty\<lparr>pr_headers := h_add_all [(''X'', ''1''), (''a'', ''2''), (''B'', ''3''), (''x'', ''4'')] (h_empty Utf8),
     pr_header_order := [''b'', ''x'']\<rparr>"

theorem wire_headers_order_witness:
  "wire_headers sample_prepared = [(''B'', ''3''), (''X'', ''1''), (''x'', ''4''), (''a'', ''2'')]"
proof -
  have "h_multi_items (pr_headers sample_prepared) = [(''X'', ''1''), (''a'', ''2''), (''B'', ''3''), (''x'', ''4'')]"
    by (simp add: sample_prepared_def pr_empty_def h_add_all_def h_multi_items_def h_add_def h_empty_def)
  then show ?thesis
    using wire_headers_order [of sample_prepared]
    by (simp add: sample_prepared_def py_lower_def py_str)
qed

lemma header_keys:
  "key_of ''Content-Length'' = ''content-length''" "key_of ''content-length'' = ''content-length''"
  "key_of ''Content-Type'' = ''content-type''" "key_of ''Transfer-Encoding'' = ''transfer-encoding''"
  "key_of ''Cookie'' = ''cookie''" "key_of ''Authorization'' = ''authorization''"
  by (simp_all add: key_of_def py_lower_def py_str)

text \<open>How a prepared body is framed on the wire.\<close>

definition framed :: "('jar, 'h) prepared \<Rightarrow> bool" where
  "framed q \<longleftrightarrow>
     (if pr_stream_body q
      then h_get (pr_headers q) ''Transfer-Encoding'' = Some ''chunked''
           \<and> h_get (pr_headers q) ''Content-Length'' = None
           \<and> (\<exists>d. pr_body q = Some d \<and> is_stream_body d)
      else case pr_body q of
             None \<Rightarrow> True
           | Some d \<Rightarrow> (\<exists>b. d = SBytes b \<and> h_get (pr_headers q) ''Content-Length'' = Some (show_nat (length b))))"

lemma framed_content_type:
  "h_wf (pr_headers q) \<Longrightarrow>
   framed (q\<lparr>pr_headers := h_setitem ''Content-Type'' v (pr_headers q)\<rparr>) = framed q"
  by (simp add: framed_def h_get_setitem header_keys split: option.splits)

lemma set_body_framed:
  assumes "h_wf (pr_headers p)" and "\<not> pr_stream_body p"
    and "stream \<longrightarrow> (\<exists>d. body = Some d \<and> is_stream_body d)"
    and "\<not> stream \<longrightarrow> body = None \<or> (\<exists>b. body = Some (SBytes b))"
  shows "framed (set_body body stream ct p)"
proof -
  let ?q = "prepare_content_length (p\<lparr>pr_body := body, pr_stream_body := pr_stream_body p \<or> stream\<rparr>)"
  have wf: "h_wf (pr_headers ?q)"
    using assms(1) by (simp add: prepare_content_length_def Let_def wf_intros split: option.splits)
  have "framed ?q"
    using assms
    by (auto simp: prepare_content_length_def framed_def Let_def h_get_setitem h_get_pop wf_intros header_keys
        split: option.splits)
  then show ?thesis
    using framed_content_type [OF wf] by (simp add: set_body_def Let_def split: option.splits)
qed



end
