(* ===== verification/Auth.thy ===== *)
theory Auth
  imports Models
begin

text \<open>
  \<open>bindings/python/chrome_client/_python_impl/auth.py\<close>: Basic and proxy credentials with
  their base64 coding, the Digest challenge parser and header builder, the 401 retry, and
  the normalisation of \<open>auth=\<close>.  The hash functions, the client nonce and the sending of a
  retry are arguments.
\<close>

section \<open>Base64\<close>

definition b64_char :: "nat \<Rightarrow> char" where
  "b64_char n = char_of
     (if n < 26 then 65 + n else if n < 52 then 71 + n else if n < 62 then n - 4 else if n = 62 then 43 else 47)"

fun b64encode :: "string \<Rightarrow> string" where
  "b64encode [] = []"
| "b64encode [a] = [b64_char (cp a div 4), b64_char (cp a mod 4 * 16), CHR ''='', CHR ''='']"
| "b64encode [a, b] =
     [b64_char (cp a div 4), b64_char (cp a mod 4 * 16 + cp b div 16), b64_char (cp b mod 16 * 4), CHR ''='']"
| "b64encode (a # b # c # s) =
     b64_char (cp a div 4) # b64_char (cp a mod 4 * 16 + cp b div 16)
       # b64_char (cp b mod 16 * 4 + cp c div 64) # b64_char (cp c mod 64) # b64encode s"

text \<open>The receiver's decoder.\<close>

definition b64_val :: "char \<Rightarrow> nat option" where
  "b64_val c = (let n = cp c in
     if 65 \<le> n \<and> n \<le> 90 then Some (n - 65) else if 97 \<le> n \<and> n \<le> 122 then Some (n - 71)
     else if 48 \<le> n \<and> n \<le> 57 then Some (n + 4) else if n = 43 then Some 62 else if n = 47 then Some 63 else None)"

fun b64decode :: "string \<Rightarrow> string option" where
  "b64decode [] = Some []"
| "b64decode (w # x # y # z # s) =
     (case (b64_val w, b64_val x) of
        (Some p, Some q) \<Rightarrow>
          (case (b64_val y, b64_val z) of
             (Some r, Some t) \<Rightarrow>
               map_option (\<lambda>u. char_of (p * 4 + q div 16) # char_of (q mod 16 * 16 + r div 4)
                                 # char_of (r mod 4 * 64 + t) # u) (b64decode s)
           | (Some r, None) \<Rightarrow>
               if z = CHR ''='' \<and> s = [] then Some [char_of (p * 4 + q div 16), char_of (q mod 16 * 16 + r div 4)]
               else None
           | (None, _) \<Rightarrow>
               if y = CHR ''='' \<and> z = CHR ''='' \<and> s = [] then Some [char_of (p * 4 + q div 16)] else None)
      | _ \<Rightarrow> None)"
| "b64decode s = None"

lemma b64_val_char: "n < 64 \<Longrightarrow> b64_val (b64_char n) = Some n"
  by (auto simp: b64_val_def b64_char_def Let_def)

lemma b64_val_pad: "b64_val CHR ''='' = None"
  by (simp add: b64_val_def)

lemma pack:
  fixes x y m :: nat
  assumes "y < m"
  shows "(x * m + y) div m = x" "(x * m + y) mod m = y"
  using assms by simp_all

lemma octet_parts:
  fixes a :: nat
  assumes "a < 256"
  shows "a div 4 < 64" "a div 16 < 16" "a div 64 < 4" "a mod 4 < 4" "a mod 16 < 16" "a mod 64 < 64"
  using assms by (auto intro: less_mult_imp_div_less)

lemma octet_split_nat:
  fixes a b c :: nat
  assumes "a < 256" "b < 256" "c < 256"
  shows "a div 4 < 64" "a mod 4 * 16 + b div 16 < 64" "b mod 16 * 4 + c div 64 < 64"
    "a mod 4 * 16 < 64" "b mod 16 * 4 < 64" "c mod 64 < 64"
  using octet_parts [OF assms(1)] octet_parts [OF assms(2)] octet_parts [OF assms(3)] by linarith+

lemma octet_join_nat:
  fixes a b c :: nat
  assumes "a < 256" "b < 256" "c < 256"
  shows "a div 4 * 4 + (a mod 4 * 16 + b div 16) div 16 = a"
    "(a mod 4 * 16 + b div 16) mod 16 * 16 + (b mod 16 * 4 + c div 64) div 4 = b"
    "(b mod 16 * 4 + c div 64) mod 4 * 64 + c mod 64 = c"
    "a div 4 * 4 + a mod 4 * 16 div 16 = a"
    "(a mod 4 * 16 + b div 16) mod 16 * 16 + b mod 16 * 4 div 4 = b"
  unfolding pack [OF octet_parts(2) [OF assms(2)]] pack [OF octet_parts(3) [OF assms(3)]] by simp_all

lemmas octet_split = octet_split_nat [OF code_less code_less code_less]
lemmas octet_join = octet_join_nat [OF code_less code_less code_less]

lemma b64_roundtrip: "b64decode (b64encode s) = Some s"
proof (induction s rule: b64encode.induct)
  case 1
  show ?case by simp
next
  case (2 a)
  show ?case
    unfolding b64encode.simps b64decode.simps b64_val_char [OF octet_split(1)] b64_val_char [OF octet_split(4)]
      b64_val_pad option.case prod.case octet_join
    by simp
next
  case (3 a b)
  show ?case
    unfolding b64encode.simps b64decode.simps b64_val_char [OF octet_split(1)] b64_val_char [OF octet_split(2)]
      b64_val_char [OF octet_split(5)] b64_val_pad option.case prod.case octet_join
    by simp
next
  case (4 a b c s)
  show ?case
    unfolding b64encode.simps b64decode.simps b64_val_char [OF octet_split(1)] b64_val_char [OF octet_split(2)]
      b64_val_char [OF octet_split(3)] b64_val_char [OF octet_split(6)] option.case prod.case octet_join 4
    by simp
qed

section \<open>Basic credentials\<close>

definition basic_auth_str :: "string \<Rightarrow> string \<Rightarrow> string" where
  "basic_auth_str username password = ''Basic '' @ b64encode (username @ '':'' @ password)"

record basic_auth =
  ba_username :: string
  ba_password :: string

definition basic_apply :: "basic_auth \<Rightarrow> ('jar, 'h) prepared \<Rightarrow> ('jar, 'h) prepared" where
  "basic_apply a p = p\<lparr>pr_headers := h_setitem ''Authorization''
     (PyStr (basic_auth_str (ba_username a) (ba_password a))) (pr_headers p)\<rparr>"

definition proxy_apply :: "basic_auth \<Rightarrow> ('jar, 'h) prepared \<Rightarrow> ('jar, 'h) prepared" where
  "proxy_apply a p = p\<lparr>pr_headers := h_setitem ''Proxy-Authorization''
     (PyStr (basic_auth_str (ba_username a) (ba_password a))) (pr_headers p)\<rparr>"

text \<open>How a server reads the header (RFC 7617): the user name ends at the first colon.\<close>

definition read_basic :: "string \<Rightarrow> (string \<times> string) option" where
  "read_basic v =
     (if startswith v ''Basic ''
      then (case b64decode (drop 6 v) of
              None \<Rightarrow> None
            | Some t \<Rightarrow> if CHR '':'' \<in> set t then Some (split_once CHR '':'' t) else None)
      else None)"

text \<open>
  C34: A server that decodes the \<open>Authorization\<close> header reads back exactly the user name
  and the password, whatever their octets, as long as the user name has no colon.
\<close>

theorem basic_auth_roundtrip:
  assumes "CHR '':'' \<notin> set (ba_username a)" and "h_wf (pr_headers p)"
  shows "Option.bind (h_get (pr_headers (basic_apply a p)) ''Authorization'') read_basic
       = Some (ba_username a, ba_password a)"
proof -
  have "read_basic (basic_auth_str (ba_username a) (ba_password a)) = Some (ba_username a, ba_password a)"
    using split_once_first [OF assms(1), of "ba_password a"]
    by (simp add: read_basic_def basic_auth_str_def b64_roundtrip)
  then show ?thesis using assms(2) by (simp add: basic_apply_def h_get_setitem)
qed

theorem basic_auth_roundtrip_witness:
  "Option.bind (h_get (pr_headers (basic_apply \<lparr>ba_username = ''user'', ba_password = ''p:w''\<rparr> sample_prepared))
     ''Authorization'') read_basic = Some (''user'', ''p:w'')"
  using basic_auth_roundtrip [of "\<lparr>ba_username = ''user'', ba_password = ''p:w''\<rparr>" sample_prepared]
  by (simp add: sample_prepared_def pr_empty_def wf_intros)

section \<open>Digest\<close>

record digest_auth =
  da_username :: string
  da_password :: string
  da_chal :: "(string, string) odict"
  da_nonce_count :: nat
  da_last_nonce :: string

definition digest_init :: "string \<Rightarrow> string \<Rightarrow> digest_auth" where
  "digest_init u p = \<lparr>da_username = u, da_password = p, da_chal = [], da_nonce_count = 0, da_last_nonce = []\<rparr>"

text \<open>\<open>\w\<close> of the \<open>re\<close> module, below 256\<close>

definition word_char :: "char \<Rightarrow> bool" where
  "word_char c \<longleftrightarrow> ascii_alpha c \<or> ascii_digit c \<or> c = CHR ''_''
     \<or> (let n = cp c in n \<in> {170, 178, 179, 181, 185, 186, 188, 189, 190} \<or> 192 \<le> n \<and> n \<noteq> 215 \<and> n \<noteq> 247)"

text \<open>The value after an equals sign: quoted if the quotes close, else up to the comma.\<close>

definition challenge_value :: "string \<Rightarrow> string \<times> string" where
  "challenge_value s =
     (case s of
        c # t \<Rightarrow>
          if cp c = 34 \<and> (\<exists>d \<in> set t. cp d = 34)
          then (let q = takeWhile (\<lambda>d. cp d \<noteq> 34) t in (q, tl (dropWhile (\<lambda>d. cp d \<noteq> 34) t)))
          else (takeWhile (\<lambda>d. d \<noteq> CHR '','') s, dropWhile (\<lambda>d. d \<noteq> CHR '','') s)
      | [] \<Rightarrow> ([], []))"

lemma challenge_value_shorter: "challenge_value s = (v, r) \<Longrightarrow> length r \<le> length s"
proof (cases s)
  case (Cons c t)
  assume "challenge_value s = (v, r)"
  then show ?thesis
    using length_dropWhile_le [of "\<lambda>d. cp d \<noteq> 34" t] length_dropWhile_le [of "\<lambda>d. d \<noteq> CHR '',''" s]
    by (auto simp: Cons challenge_value_def Let_def split: if_splits)
qed (simp add: challenge_value_def)

function challenge_pairs :: "string \<Rightarrow> string \<Rightarrow> (string \<times> string) list" where
  "challenge_pairs w [] = []"
| "challenge_pairs w (c # s) =
     (if word_char c then challenge_pairs (c # w) s
      else if c = CHR ''='' \<and> w \<noteq> []
      then (case challenge_value s of (v, r) \<Rightarrow> (rev w, py_strip v) # challenge_pairs [] r)
      else challenge_pairs [] s)"
  by pat_completeness auto
termination
  by (relation "measure (\<lambda>(w, s). length s)")
    (auto simp: le_imp_less_Suc dest: challenge_value_shorter [OF sym])

definition parse_challenge :: "string \<Rightarrow> digest_auth \<Rightarrow> digest_auth" where
  "parse_challenge header a =
     (if header = [] \<or> \<not> startswith (py_lower header) ''digest '' then a
      else a\<lparr>da_chal := od_of (challenge_pairs [] (drop 7 header))\<rparr>)"

definition ALGORITHMS :: "(string \<times> string) list" where
  "ALGORITHMS = [(''MD5'', ''md5''), (''MD5-SESS'', ''md5''), (''SHA'', ''sha1''), (''SHA-256'', ''sha256''),
     (''SHA-256-SESS'', ''sha256''), (''SHA-512'', ''sha512'')]"

fun show_hex :: "nat \<Rightarrow> string" where
  "show_hex n = (if n < 16 then [] else show_hex (n div 16))
     @ [if n mod 16 < 10 then char_of (48 + n mod 16) else char_of (87 + n mod 16)]"

declare show_hex.simps [simp del]

text \<open>\<open>"%08x" % n\<close>\<close>

definition hex8 :: "nat \<Rightarrow> string" where
  "hex8 n = (let h = show_hex n in replicate (8 - length h) (CHR ''0'') @ h)"

definition quoted :: "string \<Rightarrow> string \<Rightarrow> string" where
  "quoted label v = label @ ''='' @ [CHR 0x22] @ v @ [CHR 0x22]"

text \<open>What is hashed into \<open>response\<close>.\<close>

definition digest_text :: "string \<Rightarrow> string \<Rightarrow> string \<Rightarrow> string \<Rightarrow> string option \<Rightarrow> string \<Rightarrow> string" where
  "digest_text ha1 nonce nc cnonce qop ha2 =
     (case qop of
        None \<Rightarrow> ha1 @ '':'' @ nonce @ '':'' @ ha2
      | Some q \<Rightarrow> ha1 @ '':'' @ nonce @ '':'' @ nc @ '':'' @ cnonce @ '':'' @ ha2)"

text \<open>
  \<open>hash\<close> is the digest module of \<open>hashlib\<close> by name, on octets, in hexadecimal;
  \<open>cnonce\<close> the random client nonce.
\<close>

definition build_header ::
  "(string \<Rightarrow> string \<Rightarrow> string) \<Rightarrow> string \<Rightarrow> string \<Rightarrow> string \<Rightarrow> digest_auth \<Rightarrow> exc_class + string \<times> digest_auth" where
  "build_header hash cnonce meth url a =
     (let chal = da_chal a; get = (\<lambda>k. case od_get chal k of Some v \<Rightarrow> v | None \<Rightarrow> []) in
      if chal = [] then Inl UnsupportedFeature
      else
        let realm = get ''realm''; nonce = get ''nonce''; qop = od_get chal ''qop'';
            algorithm = py_upper (if get ''algorithm'' = [] then ''MD5'' else get ''algorithm'') in
        (case map_of ALGORITHMS algorithm of
           None \<Rightarrow> Inl UnsupportedFeature
         | Some digest_mod \<Rightarrow> bind_res (urlparse url) (\<lambda>u.
             let hash_utf8 = (\<lambda>s. hash digest_mod (utf8_encode s));
                 path0 = (if u_path u = [] then ''/'' else u_path u);
                 path = (if u_query u = [] then path0 else path0 @ ''?'' @ u_query u);
                 ha1 = hash_utf8 (da_username a @ '':'' @ realm @ '':'' @ da_password a);
                 ha2 = hash_utf8 (py_upper meth @ '':'' @ path);
                 count = (if nonce = da_last_nonce a then da_nonce_count a + 1 else 1);
                 nc = hex8 count;
                 ha1' = (if endswith algorithm ''-SESS'' then hash_utf8 (ha1 @ '':'' @ nonce @ '':'' @ cnonce) else ha1);
                 response = hash_utf8 (digest_text ha1' nonce nc cnonce qop ha2);
                 parts = [quoted ''username'' (da_username a), quoted ''realm'' realm, quoted ''nonce'' nonce,
                          quoted ''uri'' path, quoted ''response'' response]
                   @ (case od_get chal ''opaque'' of
                        Some v \<Rightarrow> if v = [] then [] else [quoted ''opaque'' v] | None \<Rightarrow> [])
                   @ (if get ''algorithm'' = [] then [] else [''algorithm='' @ get ''algorithm''])
                   @ (case qop of
                        Some q \<Rightarrow> if q = [] then []
                                  else [quoted ''qop'' ''auth'' @ '', nc='' @ nc @ '', '' @ quoted ''cnonce'' cnonce]
                      | None \<Rightarrow> [])
             in Inr (''Digest '' @ join '', '' parts, a\<lparr>da_nonce_count := count, da_last_nonce := nonce\<rparr>))))"

definition digest_apply ::
  "(string \<Rightarrow> string \<Rightarrow> string) \<Rightarrow> string \<Rightarrow> digest_auth \<Rightarrow> ('jar, 'h) prepared
   \<Rightarrow> exc_class + ('jar, 'h) prepared \<times> digest_auth" where
  "digest_apply hash cnonce a p =
     (if da_chal a = [] then Inr (p, a)
      else bind_res (build_header hash cnonce (case pr_method p of Some m \<Rightarrow> m | None \<Rightarrow> []) (pr_url p) a) (\<lambda>(h, a').
        Inr (p\<lparr>pr_headers := h_setitem ''Authorization'' (PyStr h) (pr_headers p)\<rparr>, a')))"

text \<open>
  \<open>handle_401\<close>: the request to retry with, or \<open>None\<close> when the response is returned as
  it is.
\<close>

definition handle_401 ::
  "(string \<Rightarrow> string \<Rightarrow> string) \<Rightarrow> string \<Rightarrow> ('jar \<Rightarrow> 'jar) \<Rightarrow> response \<Rightarrow> ('jar, 'h) prepared \<Rightarrow> digest_auth
   \<Rightarrow> exc_class + ('jar, 'h) prepared option \<times> digest_auth" where
  "handle_401 hash cnonce copy_jar resp p a =
     (if rp_status resp \<noteq> Some 401 then Inr (None, a)
      else
        let a1 = parse_challenge (case h_get (rp_headers resp) ''www-authenticate'' of Some v \<Rightarrow> v | None \<Rightarrow> []) a in
        if da_chal a1 = [] then Inr (None, a1)
        else let retry = pr_copy copy_jar p in
          bind_res (build_header hash cnonce (case pr_method retry of Some m \<Rightarrow> m | None \<Rightarrow> []) (pr_url retry) a1) (\<lambda>(h, a2).
            Inr (Some (retry\<lparr>pr_headers := h_setitem ''Authorization'' (PyStr h) (pr_headers retry)\<rparr>), a2)))"

section \<open>Normalising \<open>auth=\<close>\<close>

datatype 'f auth_arg = NoAuth | AuthPair string string | AuthCallable 'f | AuthBad

datatype 'f auth = AuthNone | AuthBasic basic_auth | AuthFun 'f

definition build_auth :: "'f auth_arg \<Rightarrow> exc_class + 'f auth" where
  "build_auth a = (case a of
     NoAuth \<Rightarrow> Inr AuthNone
   | AuthCallable f \<Rightarrow> Inr (AuthFun f)
   | AuthPair u p \<Rightarrow> Inr (AuthBasic \<lparr>ba_username = u, ba_password = p\<rparr>)
   | AuthBad \<Rightarrow> Inl TypeError)"

section \<open>The digest response\<close>

text \<open>RFC 2617, 3.2.2.1: with a quality of protection its value is hashed too.\<close>

definition rfc2617_text :: "string \<Rightarrow> string \<Rightarrow> string \<Rightarrow> string \<Rightarrow> string \<Rightarrow> string \<Rightarrow> string" where
  "rfc2617_text ha1 nonce nc cnonce qop ha2 =
     ha1 @ '':'' @ nonce @ '':'' @ nc @ '':'' @ cnonce @ '':'' @ qop @ '':'' @ ha2"

text \<open>
  For a challenge with \<open>qop\<close>, the text that is hashed into \<open>response\<close> is never the
  one the standard prescribes: the quality of protection is left out of it, although the
  header announces \<open>qop="auth"\<close>; a server that checks the digest refuses it.
\<close>

theorem digest_response_omits_qop:
  "digest_text ha1 nonce nc cnonce (Some q) ha2 \<noteq> rfc2617_text ha1 nonce nc cnonce q' ha2"
proof
  assume "digest_text ha1 nonce nc cnonce (Some q) ha2 = rfc2617_text ha1 nonce nc cnonce q' ha2"
  then have "length (digest_text ha1 nonce nc cnonce (Some q) ha2) = length (rfc2617_text ha1 nonce nc cnonce q' ha2)"
    by simp
  then show False by (simp add: digest_text_def rfc2617_text_def)
qed

end
