(* ===== verification/Cookies.thy ===== *)
theory Cookies
  imports Exceptions
begin

text \<open>
  \<open>bindings/python/chrome_client/_python_impl/cookies.py\<close>: \<open>create_cookie\<close>, the
  \<open>RequestsCookieJar\<close> with its revision counter, its lookups and its merging.  The store
  is the one of \<open>http.cookiejar\<close>, three nested dictionaries (domain, path, name).  What the
  cookie policy of the standard library extracts from \<open>Set-Cookie\<close> lines is an argument.
\<close>

section \<open>Cookies\<close>

text \<open>The attributes of \<open>http.cookiejar.Cookie\<close>, but for \<open>comment_url\<close>, which nothing reads.\<close>

record cookie =
  ck_version :: int
  ck_name :: string
  ck_value :: "string option"
  ck_port :: "string option"
  ck_port_specified :: bool
  ck_domain :: string
  ck_domain_specified :: bool
  ck_domain_initial_dot :: bool
  ck_path :: string
  ck_path_specified :: bool
  ck_secure :: bool
  ck_expires :: "int option"
  ck_discard :: bool
  ck_comment :: "string option"
  ck_rest :: "(string, string option) odict"
  ck_rfc2109 :: bool

text \<open>The keywords a caller may give, each with requests' default.\<close>

record cookie_args =
  ca_version :: int
  ca_port :: "string option"
  ca_domain :: string
  ca_path :: string
  ca_secure :: bool
  ca_expires :: "int option"
  ca_discard :: bool
  ca_comment :: "string option"
  ca_rest :: "(string, string option) odict"
  ca_rfc2109 :: bool
  ca_unsupported :: "string list"

definition no_args :: cookie_args where
  "no_args = \<lparr>ca_version = 0, ca_port = None, ca_domain = [], ca_path = ''/'', ca_secure = False,
     ca_expires = None, ca_discard = True, ca_comment = None, ca_rest = [(''HttpOnly'', None)],
     ca_rfc2109 = False, ca_unsupported = []\<rparr>"

text \<open>\<open>Cookie.__init__\<close> stores the domain in lower case.\<close>

definition create_cookie :: "string \<Rightarrow> string option \<Rightarrow> cookie_args \<Rightarrow> exc_class + cookie" where
  "create_cookie name v a =
     (if ca_unsupported a \<noteq> [] then Inl TypeError
      else Inr \<lparr>ck_version = ca_version a, ck_name = name, ck_value = v,
                ck_port = ca_port a, ck_port_specified = (ca_port a \<noteq> None \<and> ca_port a \<noteq> Some []),
                ck_domain = py_lower (ca_domain a), ck_domain_specified = (ca_domain a \<noteq> []),
                ck_domain_initial_dot = startswith (ca_domain a) ''.'',
                ck_path = ca_path a, ck_path_specified = (ca_path a \<noteq> []),
                ck_secure = ca_secure a, ck_expires = ca_expires a, ck_discard = ca_discard a,
                ck_comment = ca_comment a, ck_rest = ca_rest a, ck_rfc2109 = ca_rfc2109 a\<rparr>)"

text \<open>
  \<open>morsel_to_cookie\<close>: an \<open>http.cookies.Morsel\<close> with its attributes as texts, empty when
  absent.  \<open>now\<close> is the clock in whole seconds; \<open>gmt\<close> reads the one date format
  \<open>strptime\<close> is called with.
\<close>

record morsel =
  ml_key :: string
  ml_value :: string
  ml_comment :: string
  ml_domain :: string
  ml_expires :: string
  ml_max_age :: string
  ml_path :: string
  ml_secure :: bool
  ml_httponly :: string
  ml_version :: string

definition morsel_expires :: "int \<Rightarrow> (string \<Rightarrow> int option) \<Rightarrow> morsel \<Rightarrow> exc_class + int option" where
  "morsel_expires now gmt m =
     (if ml_max_age m \<noteq> []
      then (case int_text (ml_max_age m) of None \<Rightarrow> Inl TypeError | Some n \<Rightarrow> Inr (Some (now + n)))
      else if ml_expires m \<noteq> []
      then (case gmt (ml_expires m) of None \<Rightarrow> Inl ValueError | Some t \<Rightarrow> Inr (Some t))
      else Inr None)"

definition morsel_to_cookie :: "int \<Rightarrow> (string \<Rightarrow> int option) \<Rightarrow> morsel \<Rightarrow> exc_class + cookie" where
  "morsel_to_cookie now gmt m = bind_res (morsel_expires now gmt m) (\<lambda>expires.
     case (if ml_version m = [] then Some 0 else int_text (ml_version m)) of
       None \<Rightarrow> Inl ValueError
     | Some version \<Rightarrow> create_cookie (ml_key m) (Some (ml_value m))
         \<lparr>ca_version = version, ca_port = None, ca_domain = ml_domain m, ca_path = ml_path m,
          ca_secure = ml_secure m, ca_expires = expires, ca_discard = False,
          ca_comment = (if ml_comment m = [] then None else Some (ml_comment m)),
          ca_rest = [(''HttpOnly'', Some (ml_httponly m))], ca_rfc2109 = False, ca_unsupported = []\<rparr>)"

section \<open>The jar\<close>

type_synonym store = "(string, (string, (string, cookie) odict) odict) odict"

record jar =
  jar_store :: store
  jar_revision :: nat

definition jar_empty :: jar where
  "jar_empty = \<lparr>jar_store = [], jar_revision = 0\<rparr>"

definition od_sub :: "('k, ('j, 'v) odict) odict \<Rightarrow> 'k \<Rightarrow> ('j, 'v) odict" where
  "od_sub m k = (case od_get m k of None \<Rightarrow> [] | Some d \<Rightarrow> d)"

text \<open>\<open>iter(jar)\<close>\<close>

definition jar_cookies :: "jar \<Rightarrow> cookie list" where
  "jar_cookies j = concat (map (\<lambda>(d, ps). concat (map (\<lambda>(p, ns). map snd ns) ps)) (jar_store j))"

text \<open>\<open>value.replace('\"', '')\<close> where the pattern is a backslash and a quote\<close>

fun drop_escaped_quotes :: "string \<Rightarrow> string" where
  "drop_escaped_quotes (a # b # s) =
     (if cp a = 92 \<and> cp b = 34 then drop_escaped_quotes s else a # drop_escaped_quotes (b # s))"
| "drop_escaped_quotes s = s"

definition unquote_value :: "string option \<Rightarrow> string option" where
  "unquote_value v = (case v of
     Some s \<Rightarrow> if startswith s [CHR 0x22] \<and> endswith s [CHR 0x22]
               then Some (strip_chars [CHR 0x22] (drop_escaped_quotes s)) else Some s
   | None \<Rightarrow> None)"

definition store_put :: "cookie \<Rightarrow> store \<Rightarrow> store" where
  "store_put c m =
     (let paths = od_sub m (ck_domain c); names = od_sub paths (ck_path c)
      in od_put (ck_domain c) (od_put (ck_path c) (od_put (ck_name c) c names) paths) m)"

definition jar_set_cookie :: "cookie \<Rightarrow> jar \<Rightarrow> jar" where
  "jar_set_cookie c j =
     j\<lparr>jar_store := store_put (c\<lparr>ck_value := unquote_value (ck_value c)\<rparr>) (jar_store j),
       jar_revision := jar_revision j + 1\<rparr>"

text \<open>
  \<open>CookieJar.clear(domain, path, name)\<close> of the standard library: a path needs a domain and
  a name needs both; a missing key is a \<open>KeyError\<close>, here \<open>None\<close>.
\<close>

definition store_del :: "string \<Rightarrow> string \<Rightarrow> string \<Rightarrow> store \<Rightarrow> store" where
  "store_del d p n m = od_put d (od_put p (od_del n (od_sub (od_sub m d) p)) (od_sub m d)) m"

definition lib_clear :: "string option \<Rightarrow> string option \<Rightarrow> string option \<Rightarrow> store \<Rightarrow> exc_class option + store" where
  "lib_clear d p n m =
     (case (d, p, n) of
        (Some d, Some p, Some n) \<Rightarrow>
          if od_has m d \<and> od_has (od_sub m d) p \<and> od_has (od_sub (od_sub m d) p) n
          then Inr (store_del d p n m) else Inl None
      | (_, _, Some n) \<Rightarrow> Inl (Some ValueError)
      | (Some d, Some p, None) \<Rightarrow>
          if od_has m d \<and> od_has (od_sub m d) p then Inr (od_put d (od_del p (od_sub m d)) m) else Inl None
      | (None, Some p, None) \<Rightarrow> Inl (Some ValueError)
      | (Some d, None, None) \<Rightarrow> if od_has m d then Inr (od_del d m) else Inl None
      | (None, None, None) \<Rightarrow> Inr [])"

text \<open>The override bumps the revision first, so it does so even when the clearing fails.\<close>

definition jar_clear ::
  "string option \<Rightarrow> string option \<Rightarrow> string option \<Rightarrow> jar \<Rightarrow> (exc_class option + unit) \<times> jar" where
  "jar_clear d p n j =
     (let j1 = j\<lparr>jar_revision := jar_revision j + 1\<rparr> in
      case lib_clear d p n (jar_store j1) of
        Inl e \<Rightarrow> (Inl e, j1)
      | Inr m \<Rightarrow> (Inr (), j1\<lparr>jar_store := m\<rparr>))"

text \<open>
  The library's \<open>clear_expired_cookies\<close> and \<open>clear_session_cookies\<close> call
  \<open>self.clear\<close> once for each cookie they drop, and so reach the override.
\<close>

definition is_expired :: "int \<Rightarrow> cookie \<Rightarrow> bool" where
  "is_expired now c \<longleftrightarrow> (case ck_expires c of None \<Rightarrow> False | Some t \<Rightarrow> t \<le> now)"

definition clear_each :: "cookie list \<Rightarrow> jar \<Rightarrow> jar" where
  "clear_each cs j = fold (\<lambda>c j. snd (jar_clear (Some (ck_domain c)) (Some (ck_path c)) (Some (ck_name c)) j)) cs j"

definition jar_clear_expired :: "int \<Rightarrow> jar \<Rightarrow> jar" where
  "jar_clear_expired now j = clear_each (filter (is_expired now) (jar_cookies j)) j"

definition jar_clear_session :: "jar \<Rightarrow> jar" where
  "jar_clear_session j =
     clear_each (filter ck_discard (jar_cookies j)) (j\<lparr>jar_revision := jar_revision j + 1\<rparr>)"

section \<open>Lookups\<close>

definition matches :: "string \<Rightarrow> string option \<Rightarrow> string option \<Rightarrow> cookie \<Rightarrow> bool" where
  "matches name d p c \<longleftrightarrow> ck_name c = name \<and> (d = None \<or> d = Some (ck_domain c)) \<and> (p = None \<or> p = Some (ck_path c))"

datatype lookup = Found string | Missing | Conflict

text \<open>The loop of \<open>_find_no_duplicates\<close>; \<open>found\<close> is its local variable.\<close>

fun find_loop :: "string \<Rightarrow> string option \<Rightarrow> string option \<Rightarrow> string option \<Rightarrow> cookie list \<Rightarrow> lookup" where
  "find_loop name d p found [] = (case found of None \<Rightarrow> Missing | Some v \<Rightarrow> Found v)"
| "find_loop name d p found (c # cs) =
     (if \<not> matches name d p c then find_loop name d p found cs
      else if found \<noteq> None then Conflict
      else find_loop name d p (ck_value c) cs)"

definition find_no_duplicates :: "string \<Rightarrow> string option \<Rightarrow> string option \<Rightarrow> jar \<Rightarrow> lookup" where
  "find_no_duplicates name d p j = find_loop name d p None (jar_cookies j)"

text \<open>\<open>_find\<close> takes the first match; its value may be \<open>None\<close>.\<close>

definition jar_find :: "string \<Rightarrow> string option \<Rightarrow> string option \<Rightarrow> jar \<Rightarrow> string option option" where
  "jar_find name d p j = map_option ck_value (find (matches name d p) (jar_cookies j))"

definition jar_get :: "string \<Rightarrow> string option \<Rightarrow> string option \<Rightarrow> string option \<Rightarrow> jar \<Rightarrow> exc_class + string option" where
  "jar_get name dflt d p j = (case find_no_duplicates name d p j of
     Found v \<Rightarrow> Inr (Some v) | Missing \<Rightarrow> Inr dflt | Conflict \<Rightarrow> Inl CookieConflictError)"

definition jar_getitem :: "string \<Rightarrow> jar \<Rightarrow> lookup" where
  "jar_getitem name j = find_no_duplicates name None None j"

definition jar_contains :: "string \<Rightarrow> jar \<Rightarrow> exc_class + bool" where
  "jar_contains name j = (case jar_getitem name j of
     Found v \<Rightarrow> Inr True | Missing \<Rightarrow> Inr False | Conflict \<Rightarrow> Inl CookieConflictError)"

definition jar_keys :: "jar \<Rightarrow> string list" where
  "jar_keys j = map ck_name (jar_cookies j)"

definition jar_values :: "jar \<Rightarrow> string option list" where
  "jar_values j = map ck_value (jar_cookies j)"

definition jar_items :: "jar \<Rightarrow> (string \<times> string option) list" where
  "jar_items j = map (\<lambda>c. (ck_name c, ck_value c)) (jar_cookies j)"

definition first_seen :: "'a list \<Rightarrow> 'a list" where
  "first_seen xs = fold (\<lambda>x acc. if x \<in> set acc then acc else acc @ [x]) xs []"

definition list_domains :: "jar \<Rightarrow> string list" where
  "list_domains j = first_seen (map ck_domain (jar_cookies j))"

definition list_paths :: "jar \<Rightarrow> string list" where
  "list_paths j = first_seen (map ck_path (jar_cookies j))"

fun repeats :: "string list \<Rightarrow> string list \<Rightarrow> bool" where
  "repeats seen [] = False"
| "repeats seen (d # ds) = (if d \<in> set seen then True else repeats (seen @ [d]) ds)"

definition multiple_domains :: "jar \<Rightarrow> bool" where
  "multiple_domains j = repeats [] (map ck_domain (jar_cookies j))"

definition get_dict :: "string option \<Rightarrow> string option \<Rightarrow> jar \<Rightarrow> (string, string option) odict" where
  "get_dict d p j =
     od_of (map (\<lambda>c. (ck_name c, ck_value c))
       (filter (\<lambda>c. (d = None \<or> d = Some (ck_domain c)) \<and> (p = None \<or> p = Some (ck_path c))) (jar_cookies j)))"

section \<open>Changes\<close>

definition remove_by_name :: "string \<Rightarrow> string option \<Rightarrow> string option \<Rightarrow> jar \<Rightarrow> bool \<times> jar" where
  "remove_by_name name d p j =
     (let hits = filter (matches name d p) (jar_cookies j);
          m = fold (\<lambda>c m. store_del (ck_domain c) (ck_path c) (ck_name c) m) hits (jar_store j)
      in if hits = [] then (False, j)
         else (True, j\<lparr>jar_store := m, jar_revision := jar_revision j + 1\<rparr>))"

text \<open>\<open>set(name, value)\<close>: no value removes the cookie.\<close>

definition jar_set ::
  "string \<Rightarrow> string option \<Rightarrow> cookie_args \<Rightarrow> string option \<Rightarrow> string option \<Rightarrow> jar \<Rightarrow> exc_class + jar" where
  "jar_set name v a d p j =
     (case v of
        None \<Rightarrow> Inr (snd (remove_by_name name d p j))
      | Some s \<Rightarrow> bind_res (create_cookie name (Some s) a) (\<lambda>c. Inr (jar_set_cookie c j)))"

text \<open>
  The other branch, a \<open>Morsel\<close> as the value: the cookie has the name the morsel has, and the
  keywords are not used.
\<close>

definition jar_set_morsel :: "int \<Rightarrow> (string \<Rightarrow> int option) \<Rightarrow> morsel \<Rightarrow> jar \<Rightarrow> exc_class + jar" where
  "jar_set_morsel now gmt m j = bind_res (morsel_to_cookie now gmt m) (\<lambda>c. Inr (jar_set_cookie c j))"

definition jar_setitem :: "string \<Rightarrow> string option \<Rightarrow> jar \<Rightarrow> exc_class + jar" where
  "jar_setitem name v j = jar_set name v no_args None None j"

definition jar_delete :: "string \<Rightarrow> string option \<Rightarrow> string option \<Rightarrow> jar \<Rightarrow> jar" where
  "jar_delete name d p j = snd (remove_by_name name d p j)"

definition jar_delitem :: "string \<Rightarrow> jar \<Rightarrow> lookup \<times> jar" where
  "jar_delitem name j = (case remove_by_name name None None j of
     (removed, j') \<Rightarrow> (if removed then Found name else Missing, j'))"

definition jar_update :: "jar \<Rightarrow> jar \<Rightarrow> jar" where
  "jar_update other j = fold jar_set_cookie (jar_cookies other) j"

fun jar_update_pairs :: "(string \<times> string option) list \<Rightarrow> jar \<Rightarrow> exc_class + jar" where
  "jar_update_pairs [] j = Inr j"
| "jar_update_pairs ((n, v) # ps) j = bind_res (jar_set n v no_args None None j) (jar_update_pairs ps)"

definition jar_copy :: "jar \<Rightarrow> jar" where
  "jar_copy j = jar_update j jar_empty"

text \<open>\<open>absorb_set_cookie\<close>: \<open>received\<close> is what the policy accepts of the lines.\<close>

definition absorb_set_cookie :: "(string \<Rightarrow> string list \<Rightarrow> jar) \<Rightarrow> string \<Rightarrow> string list \<Rightarrow> jar \<Rightarrow> jar" where
  "absorb_set_cookie extract url lines j =
     (if lines = [] then j else jar_update (extract url lines) j)"

definition plain_cookie :: "string \<Rightarrow> string option \<Rightarrow> cookie" where
  "plain_cookie name v = (case create_cookie name v no_args of Inr c \<Rightarrow> c)"

definition cookiejar_from_dict :: "(string, string option) odict \<Rightarrow> jar \<Rightarrow> bool \<Rightarrow> jar" where
  "cookiejar_from_dict d j overwrite =
     (let names = (if overwrite then [] else jar_keys j)
      in fold (\<lambda>(n, v) j. if n \<in> set names then j else jar_set_cookie (plain_cookie n v) j) d j)"

definition dict_from_cookiejar :: "jar \<Rightarrow> (string, string option) odict" where
  "dict_from_cookiejar j = od_of (map (\<lambda>c. (ck_name c, ck_value c)) (jar_cookies j))"

definition add_dict_to_cookiejar :: "jar \<Rightarrow> (string, string option) odict \<Rightarrow> jar" where
  "add_dict_to_cookiejar j d = cookiejar_from_dict d j True"

datatype merge_arg = MergeDict "(string, string option) odict" | MergeJar jar | MergeOther

definition merge_cookies :: "jar \<Rightarrow> merge_arg \<Rightarrow> jar" where
  "merge_cookies j a = (case a of
     MergeDict d \<Rightarrow> cookiejar_from_dict d j False
   | MergeJar other \<Rightarrow> jar_update other j
   | MergeOther \<Rightarrow> j)"

section \<open>Properties\<close>

lemma find_loop_found: "find_loop name d p (Some v) cs =
   (if \<exists>c \<in> set cs. matches name d p c then Conflict else Found v)"
  by (induction cs) auto

text \<open>
  \<open>jar[name]\<close>, with or without a domain and a path, is the value of the one cookie
  that matches; none is a missing key and two are a conflict, whatever their order in the
  jar, as long as every matching cookie has a value.
\<close>

theorem find_no_duplicates_spec:
  assumes "\<forall>c \<in> set (jar_cookies j). matches name d p c \<longrightarrow> ck_value c \<noteq> None"
  shows "find_no_duplicates name d p j =
     (case filter (matches name d p) (jar_cookies j) of
        [] \<Rightarrow> Missing | [c] \<Rightarrow> Found (the (ck_value c)) | c # c' # cs \<Rightarrow> Conflict)"
proof -
  have "find_loop name d p None cs =
      (case filter (matches name d p) cs of
         [] \<Rightarrow> Missing | [c] \<Rightarrow> Found (the (ck_value c)) | c # c' # cs \<Rightarrow> Conflict)"
    if "\<forall>c \<in> set cs. matches name d p c \<longrightarrow> ck_value c \<noteq> None" for cs
    using that
  proof (induction cs)
    case (Cons c cs)
    show ?case
    proof (cases "matches name d p c")
      case True
      with Cons.prems obtain v where v: "ck_value c = Some v" by auto
      show ?thesis
        using True v filter_empty_conv [of "matches name d p" cs]
        by (auto simp: find_loop_found split: list.splits)
    qed (use Cons in simp)
  qed simp
  with assms show ?thesis by (simp add: find_no_duplicates_def)
qed

definition sample_jar :: jar where
  "sample_jar = jar_set_cookie ((plain_cookie ''a'' (Some ''2''))\<lparr>ck_domain := ''h''\<rparr>)
     (jar_set_cookie (plain_cookie ''a'' (Some ''1'')) jar_empty)"

lemma sample_jar_cookies:
  "jar_cookies sample_jar =
     [plain_cookie ''a'' (Some ''1''), (plain_cookie ''a'' (Some ''2''))\<lparr>ck_domain := ''h''\<rparr>]"
  by (simp add: sample_jar_def jar_set_cookie_def plain_cookie_def create_cookie_def no_args_def
      jar_cookies_def jar_empty_def store_put_def od_sub_def od_put_def od_get_def unquote_value_def Let_def)

theorem find_no_duplicates_spec_witness:
  "find_no_duplicates ''a'' (Some ''h'') None sample_jar = Found ''2''
   \<and> find_no_duplicates ''a'' None None sample_jar = Conflict"
proof -
  have v: "\<forall>c \<in> set (jar_cookies sample_jar). matches ''a'' d p c \<longrightarrow> ck_value c \<noteq> None" for d p
    by (simp add: sample_jar_cookies plain_cookie_def create_cookie_def no_args_def)
  show ?thesis
    using find_no_duplicates_spec [OF v, of "Some ''h''" None] find_no_duplicates_spec [OF v, of None None]
    by (simp add: sample_jar_cookies matches_def plain_cookie_def create_cookie_def no_args_def)
qed

lemma remove_by_name_revision:
  "jar_store (snd (remove_by_name n d p j)) \<noteq> jar_store j \<Longrightarrow>
   jar_revision (snd (remove_by_name n d p j)) = jar_revision j + 1"
  by (auto simp: remove_by_name_def Let_def)

lemma remove_by_name_mono: "jar_revision j \<le> jar_revision (snd (remove_by_name n d p j))"
  by (auto simp: remove_by_name_def Let_def)

lemma fold_set_revision:
  "jar_revision (fold jar_set_cookie cs j) = jar_revision j + length cs"
  by (induction cs arbitrary: j) (auto simp: jar_set_cookie_def)

datatype jar_op =
    SetCookie cookie
  | SetValue string "string option" cookie_args "string option" "string option"
  | SetMorsel int "string \<Rightarrow> int option" morsel
  | Clear "string option" "string option" "string option"
  | ClearSession
  | ClearExpired int
  | RemoveByName string "string option" "string option"
  | Update jar
  | Absorb string "string list"

fun jar_apply :: "(string \<Rightarrow> string list \<Rightarrow> jar) \<Rightarrow> jar_op \<Rightarrow> jar \<Rightarrow> jar" where
  "jar_apply ex (SetCookie c) j = jar_set_cookie c j"
| "jar_apply ex (SetValue n v a d p) j = (case jar_set n v a d p j of Inr j' \<Rightarrow> j' | Inl e \<Rightarrow> j)"
| "jar_apply ex (SetMorsel now gmt m) j = (case jar_set_morsel now gmt m j of Inr j' \<Rightarrow> j' | Inl e \<Rightarrow> j)"
| "jar_apply ex (Clear d p n) j = snd (jar_clear d p n j)"
| "jar_apply ex ClearSession j = jar_clear_session j"
| "jar_apply ex (ClearExpired now) j = jar_clear_expired now j"
| "jar_apply ex (RemoveByName n d p) j = snd (remove_by_name n d p j)"
| "jar_apply ex (Update other) j = jar_update other j"
| "jar_apply ex (Absorb url lines) j = absorb_set_cookie ex url lines j"

lemma jar_clear_revision: "jar_revision (snd (jar_clear d p n j)) = jar_revision j + 1"
  by (simp add: jar_clear_def Let_def split: sum.splits)

lemma clear_each_revision: "jar_revision (clear_each cs j) = jar_revision j + length cs"
  unfolding clear_each_def
  by (induction cs arbitrary: j) (simp_all add: jar_clear_revision)

lemma jar_apply_revision:
  "jar_revision j \<le> jar_revision (jar_apply ex op j)
   \<and> (jar_store (jar_apply ex op j) \<noteq> jar_store j \<longrightarrow> jar_revision j < jar_revision (jar_apply ex op j))"
proof (cases op)
  case (SetValue n v a d p)
  then show ?thesis
    using remove_by_name_revision [of n d p j] remove_by_name_mono [of j n d p]
    by (auto simp: jar_set_def create_cookie_def jar_set_cookie_def split: option.splits)
next
  case (SetMorsel now gmt m)
  then show ?thesis
    by (cases "morsel_to_cookie now gmt m") (simp_all add: jar_set_morsel_def jar_set_cookie_def)
next
  case (ClearExpired now)
  then show ?thesis
    by (cases "filter (is_expired now) (jar_cookies j)")
      (simp_all add: jar_clear_expired_def clear_each_revision, simp add: clear_each_def)
next
  case (RemoveByName n d p)
  then show ?thesis
    using remove_by_name_revision [of n d p j] remove_by_name_mono [of j n d p] by auto
next
  case (Update other)
  then show ?thesis
    by (cases "jar_cookies other") (auto simp: jar_update_def fold_set_revision jar_set_cookie_def)
next
  case (Absorb url lines)
  then show ?thesis
    by (cases "jar_cookies (ex url lines)")
      (auto simp: absorb_set_cookie_def jar_update_def fold_set_revision jar_set_cookie_def)
qed (simp_all add: jar_set_cookie_def jar_clear_revision jar_clear_session_def clear_each_revision)



text \<open>
  Dropping expired cookies moves the revision by one for each of them, although it is
  meant not to: the inherited loop calls \<open>self.clear\<close>, which is the counting override.
\<close>

theorem expiry_bumps_revision:
  "jar_revision (jar_clear_expired now j) = jar_revision j + length (filter (is_expired now) (jar_cookies j))"
  by (simp add: jar_clear_expired_def clear_each_revision)

lemma repeats_iff: "repeats seen ds \<longleftrightarrow> \<not> distinct ds \<or> set seen \<inter> set ds \<noteq> {}"
  by (induction ds arbitrary: seen) auto

text \<open>
  \<open>multiple_domains\<close> tells whether some domain has two cookies, not whether there
  are several domains.
\<close>

theorem multiple_domains_counts_repeats:
  "multiple_domains j \<longleftrightarrow> \<not> distinct (map ck_domain (jar_cookies j))"
  by (simp add: multiple_domains_def repeats_iff)

section \<open>How the store is filed\<close>

text \<open>
  Every cookie lies under its own domain, path and name, each of them once.  The store has
  this form at the start and every operation keeps it.
\<close>

definition names_filed :: "string \<Rightarrow> string \<Rightarrow> (string, cookie) odict \<Rightarrow> bool" where
  "names_filed d p ns \<longleftrightarrow> od_all (\<lambda>n c. ck_domain c = d \<and> ck_path c = p \<and> ck_name c = n) ns"

definition paths_filed :: "string \<Rightarrow> (string, (string, cookie) odict) odict \<Rightarrow> bool" where
  "paths_filed d ps \<longleftrightarrow> od_all (names_filed d) ps"

definition store_filed :: "store \<Rightarrow> bool" where
  "store_filed m \<longleftrightarrow> od_all paths_filed m"

lemmas filed_defs = names_filed_def paths_filed_def store_filed_def

lemma store_filed_Nil [simp]: "store_filed []"
  by (simp add: filed_defs)

lemma filed_paths: "store_filed m \<Longrightarrow> paths_filed d (od_sub m d)"
  by (auto simp: od_sub_def filed_defs dest: od_all_get split: option.splits)

lemma filed_names: "paths_filed d ps \<Longrightarrow> names_filed d p (od_sub ps p)"
  by (auto simp: od_sub_def filed_defs dest: od_all_get split: option.splits)

lemmas filed_sub = filed_paths filed_names [OF filed_paths]

lemma filed_put: "store_filed m \<Longrightarrow> store_filed (store_put c m)"
  using filed_sub [where m = m]
  by (auto simp: store_put_def filed_defs Let_def intro!: od_all_put)

lemma filed_del: "store_filed m \<Longrightarrow> store_filed (store_del d p n m)"
  using filed_sub [where m = m]
  by (auto simp: store_del_def filed_defs intro!: od_all_put od_all_del)

lemma filed_clear: "store_filed m \<Longrightarrow> lib_clear d p n m = Inr m' \<Longrightarrow> store_filed m'"
  using filed_sub [where m = m] filed_del [of m]
  by (auto simp: lib_clear_def filed_defs intro!: od_all_put od_all_del split: option.splits if_splits)

definition jar_filed :: "jar \<Rightarrow> bool" where
  "jar_filed j \<longleftrightarrow> store_filed (jar_store j)"

lemma jar_filed_empty [simp]: "jar_filed jar_empty"
  by (simp add: jar_filed_def jar_empty_def)

lemma filed_set_cookie [wf_intros]: "jar_filed j \<Longrightarrow> jar_filed (jar_set_cookie c j)"
  by (simp add: jar_filed_def jar_set_cookie_def filed_put)

lemma filed_jar_clear [wf_intros]: "jar_filed j \<Longrightarrow> jar_filed (snd (jar_clear d p n j))"
  by (auto simp: jar_filed_def jar_clear_def Let_def dest: filed_clear split: sum.splits)

lemma filed_clear_each [wf_intros]: "jar_filed j \<Longrightarrow> jar_filed (clear_each cs j)"
  unfolding clear_each_def by (induction cs arbitrary: j) (simp_all add: filed_jar_clear)

lemma filed_fold_del: "store_filed m \<Longrightarrow> store_filed (fold (\<lambda>c. store_del (ck_domain c) (ck_path c) (ck_name c)) cs m)"
  by (induction cs arbitrary: m) (simp_all add: filed_del)

lemma filed_remove [wf_intros]: "jar_filed j \<Longrightarrow> jar_filed (snd (remove_by_name n d p j))"
  by (simp add: jar_filed_def remove_by_name_def Let_def filed_fold_del)

lemma filed_fold_set [wf_intros]: "jar_filed j \<Longrightarrow> jar_filed (fold jar_set_cookie cs j)"
  by (induction cs arbitrary: j) (simp_all add: filed_set_cookie)

lemma filed_revision [simp]: "jar_filed (j\<lparr>jar_revision := r\<rparr>) = jar_filed j"
  by (simp add: jar_filed_def)

lemma filed_apply: "jar_filed j \<Longrightarrow> jar_filed (jar_apply ex op j)"
  by (cases op)
    (auto simp: jar_set_def jar_set_morsel_def jar_clear_session_def jar_clear_expired_def jar_update_def
       absorb_set_cookie_def bind_res_def
       intro!: wf_intros split: option.splits sum.splits)

interpretation jm: safe_machine "jar_apply ex" jar_filed
  by unfold_locales (rule filed_apply)

text \<open>The cookies of a jar, found by looking them up.\<close>

lemma jar_cookies_get:
  assumes "jar_filed j"
  shows "c \<in> set (jar_cookies j)
    \<longleftrightarrow> od_get (od_sub (od_sub (jar_store j) (ck_domain c)) (ck_path c)) (ck_name c) = Some c"
proof
  assume "c \<in> set (jar_cookies j)"
  then obtain d ps p ns n where "(d, ps) \<in> set (jar_store j)" "(p, ns) \<in> set ps" "(n, c) \<in> set ns"
    by (auto simp: jar_cookies_def)
  moreover from this assms have "ck_domain c = d" "ck_path c = p" "ck_name c = n"
      "od_wf (jar_store j)" "od_wf ps" "od_wf ns"
    by (fastforce simp: jar_filed_def filed_defs od_all_def)+
  ultimately show "od_get (od_sub (od_sub (jar_store j) (ck_domain c)) (ck_path c)) (ck_name c) = Some c"
    by (simp add: od_mem_get od_sub_def)
next
  assume "od_get (od_sub (od_sub (jar_store j) (ck_domain c)) (ck_path c)) (ck_name c) = Some c"
  then show "c \<in> set (jar_cookies j)"
    by (force simp: od_sub_def od_get_def jar_cookies_def dest!: map_of_SomeD split: option.splits)
qed

lemma jar_cookies_set:
  "jar_filed j \<Longrightarrow> c\<lparr>ck_value := unquote_value (ck_value c)\<rparr> \<in> set (jar_cookies (jar_set_cookie c j))"
  by (subst jar_cookies_get, rule filed_set_cookie)
    (simp_all add: jar_set_cookie_def store_put_def od_sub_def od_get_put Let_def)

end
