(* ===== verification/Session_Policy.thy ===== *)
theory Session_Policy
  imports Auth Cookies Engine Impersonate Complex_Main
begin

text \<open>
  The parts of \<open>bindings/python/chrome_client/_python_impl/sessions.py\<close> that decide
  without keeping state: WebSocket URLs and headers, timeouts and limits, the choice of a
  proxy, the merging of settings and hooks, retries, adapters, and the redirect rules.
\<close>

section \<open>Results\<close>

text \<open>An exception class without its message, where only \<open>Exceptions\<close> builds messages.\<close>

definition bare_exc :: "exc_class \<Rightarrow> exc" where
  "bare_exc c = \<lparr>exc_kind = c, exc_msg = []\<rparr>"

definition lift_exc :: "exc_class + 'a \<Rightarrow> exc + 'a" where
  "lift_exc r = (case r of Inl c \<Rightarrow> Inl (bare_exc c) | Inr x \<Rightarrow> Inr x)"

lemma lift_exc_simps [simp]: "lift_exc (Inl c) = Inl (bare_exc c)" "lift_exc (Inr x) = Inr x"
  by (simp_all add: lift_exc_def)

section \<open>WebSocket URLs\<close>

definition is_forbidden_ws_header :: "string \<Rightarrow> bool" where
  "is_forbidden_ws_header name \<longleftrightarrow>
     py_lower name \<in> {''connection'', ''host'', ''origin'', ''user-agent'', ''upgrade''}
     \<or> startswith (py_lower name) ''sec-websocket-''"

definition websocket_http_url :: "string \<Rightarrow> string" where
  "websocket_http_url url =
     (if startswith url ''wss://'' then ''https://'' @ drop 6 url
      else if startswith url ''ws://'' then ''http://'' @ drop 5 url else url)"

definition default_websocket_origin :: "string \<Rightarrow> exc_class + string" where
  "default_websocket_origin url =
     bind_res (urlsplit (websocket_http_url url)) (\<lambda>p.
       if u_scheme p = [] \<or> u_netloc p = [] then Inl InvalidURL
       else Inr (u_scheme p @ ''://'' @ u_netloc p))"

section \<open>Timeouts and limits\<close>

datatype timeout_arg = NoTimeout | OneTimeout nat | TimeoutTuple "nat option list"

definition split_timeout :: "timeout_arg \<Rightarrow> exc_class + nat option" where
  "split_timeout t = (case t of
     NoTimeout \<Rightarrow> Inr None
   | OneTimeout n \<Rightarrow> Inr (Some n)
   | TimeoutTuple vs \<Rightarrow>
       if length vs \<noteq> 2 then Inl ValueError
       else (let ns = concat (map (\<lambda>v. case v of Some n \<Rightarrow> [n] | None \<Rightarrow> []) vs)
             in Inr (if ns = [] then None else Some (fold max ns 0))))"

datatype limit_arg = LimitNone | LimitBool bool | LimitInt int | LimitOther

definition validate_max_response_bytes :: "limit_arg \<Rightarrow> exc_class + nat option" where
  "validate_max_response_bytes v = (case v of
     LimitNone \<Rightarrow> Inr None
   | LimitInt i \<Rightarrow> if i < 0 then Inl ValueError else Inr (Some (nat i))
   | _ \<Rightarrow> Inl ValueError)"

section \<open>Proxies\<close>

text \<open>\<open>(proxy without userinfo, user, password)\<close>\<close>

definition split_proxy_credentials ::
  "string option \<Rightarrow> exc_class + string option \<times> string option \<times> string option" where
  "split_proxy_credentials proxy = (case proxy of
     None \<Rightarrow> Inr (None, None, None)
   | Some px \<Rightarrow>
       if px = [] then Inr (Some px, None, None)
       else bind_res (urlsplit px) (\<lambda>p.
         let (user, pw) = userinfo (u_netloc p);
             u = (case user of Some x \<Rightarrow> x | None \<Rightarrow> []); w = (case pw of Some x \<Rightarrow> x | None \<Rightarrow> [])
         in if u = [] \<and> w = [] then Inr (Some px, None, None)
            else bind_res (url_port p) (\<lambda>port.
              let h = (case url_hostname p of Some x \<Rightarrow> x | None \<Rightarrow> []);
                  host = (case port of Some n \<Rightarrow> if n = 0 then h else h @ '':'' @ show_nat n | None \<Rightarrow> h);
                  clean = (if u_scheme p = [] then host else u_scheme p @ ''://'' @ host)
              in Inr (Some clean, Some (unquote_octets u), Some (unquote_octets w)))))"

definition proxy_values :: "(string \<times> pyval) list \<Rightarrow> exc_class + (string, string option) odict" where
  "proxy_values ps =
     fold (\<lambda>(k, v) acc. bind_res acc (\<lambda>m.
       case v of
         PyNone \<Rightarrow> Inr (od_put (py_lower k) None m)
       | PyStr s \<Rightarrow> Inr (od_put (py_lower k) (Some s) m)
       | PyInt i \<Rightarrow> Inl TypeError)) ps (Inr [])"

definition proxy_scheme_of :: "string \<Rightarrow> string" where
  "proxy_scheme_of scheme =
     (if scheme = ''ws'' then ''http'' else if scheme = ''wss'' then ''https'' else scheme)"

definition proxy_keys :: "url_parts \<Rightarrow> string list" where
  "proxy_keys p =
     (let scheme = py_lower (u_scheme p); ps = proxy_scheme_of scheme in
      case url_hostname p of
        Some host \<Rightarrow> [scheme @ ''://'' @ host, ps @ ''://'' @ host, scheme, ps, ''all://'' @ host, ''all'']
      | None \<Rightarrow> [scheme, ps, ''all''])"

text \<open>The first key that is present decides, also with the value \<open>None\<close>.\<close>

definition first_present :: "('k, 'v) odict \<Rightarrow> 'k list \<Rightarrow> 'v option" where
  "first_present m ks = (case find (od_has m) ks of None \<Rightarrow> None | Some k \<Rightarrow> od_get m k)"

definition proxy_from_proxies :: "string \<Rightarrow> (string \<times> pyval) list option \<Rightarrow> exc_class + string option" where
  "proxy_from_proxies url proxies = (case proxies of
     None \<Rightarrow> Inr None
   | Some ps \<Rightarrow>
       bind_res (proxy_values ps) (\<lambda>values. bind_res (urlsplit url) (\<lambda>p.
         Inr (case first_present values (proxy_keys p) of Some v \<Rightarrow> v | None \<Rightarrow> None))))"

definition py_env :: "(string, string) odict \<Rightarrow> (string \<times> pyval) list" where
  "py_env m = map (\<lambda>(k, v). (k, PyStr v)) m"

text \<open>\<open>_effective_proxy\<close> with the session's \<open>proxies\<close>, \<open>proxy\<close> and \<open>trust_env\<close>.\<close>

definition effective_proxy ::
  "environ \<Rightarrow> (string, pyval) odict \<Rightarrow> string option \<Rightarrow> bool \<Rightarrow> string \<Rightarrow> string option
   \<Rightarrow> (string \<times> pyval) list \<Rightarrow> exc_class + string option" where
  "effective_proxy env session_proxies session_proxy trust_env url proxy proxies = (case proxy of
     Some px \<Rightarrow> Inr (Some px)
   | None \<Rightarrow>
       (let mapping = od_update session_proxies proxies in
        bind_res (if mapping = [] then Inr None else proxy_from_proxies url (Some mapping)) (\<lambda>s1.
        let s2 = (if s1 = None then session_proxy else s1) in
        if s2 \<noteq> None \<or> \<not> trust_env then Inr s2
        else bind_res (should_bypass_proxies env url None) (\<lambda>bypass.
          if bypass then Inr None
          else bind_res (resolve_proxies env url [] True) (\<lambda>environment.
            if environment = [] then Inr None else proxy_from_proxies url (Some (py_env environment)))))))"

section \<open>Merging\<close>

text \<open>\<open>merge_setting\<close> of two mappings into a \<open>dict\<close>: a \<open>None\<close> value deletes the key.\<close>

definition merge_dict :: "('k, 'v option) odict option \<Rightarrow> ('k, 'v option) odict option \<Rightarrow> ('k, 'v option) odict option" where
  "merge_dict request session = (case session of
     None \<Rightarrow> request
   | Some s \<Rightarrow> (case request of
       None \<Rightarrow> Some s
     | Some r \<Rightarrow>
         Some (fold (\<lambda>(k, v) m. if v = None then od_del k m else m) r (od_update (od_of s) r))))"

text \<open>
  \<open>merge_setting\<close> into \<open>Headers\<close>: both sides are \<open>Headers\<close>, whose values are text, so
  the loop over \<open>None\<close> values finds none.
\<close>

definition merge_headers :: "headers option \<Rightarrow> headers \<Rightarrow> headers" where
  "merge_headers request session = (case request of
     None \<Rightarrow> session
   | Some r \<Rightarrow> h_set_all (map (\<lambda>(k, v). (k, PyStr v)) (h_items r))
                (h_add_all (h_items session) (h_empty Utf8)))"

definition hooks_empty :: "'h hooks \<Rightarrow> bool" where
  "hooks_empty h \<longleftrightarrow> (case od_get h ''response'' of None \<Rightarrow> True | Some hs \<Rightarrow> hs = [])"

definition merge_hooks :: "'h hooks \<Rightarrow> 'h hooks \<Rightarrow> 'h hooks" where
  "merge_hooks request session =
     (if hooks_empty session then request
      else if hooks_empty request then session
      else od_update (od_of session) request)"

section \<open>Retries\<close>

record retry =
  rt_count :: nat
  rt_delay :: rat
  rt_jitter :: rat
  rt_exponential :: bool
  rt_codes :: "nat list"

definition retry_build :: "int \<Rightarrow> rat \<Rightarrow> rat \<Rightarrow> string \<Rightarrow> nat list option \<Rightarrow> exc_class + retry" where
  "retry_build n delay jitter backoff statuses =
     (if n < 0 then Inl ValueError
      else if delay < 0 \<or> jitter < 0 then Inl ValueError
      else if backoff \<notin> {''linear'', ''exponential''} then Inl ValueError
      else Inr \<lparr>rt_count = nat n, rt_delay = delay, rt_jitter = jitter,
                rt_exponential = (backoff = ''exponential''),
                rt_codes = (case statuses of Some cs \<Rightarrow> cs | None \<Rightarrow> [])\<rparr>)"

definition default_retry_codes :: "nat list" where
  "default_retry_codes = [429, 500, 502, 503, 504]"

datatype retry_arg = RetryNone | RetryStrategy retry | RetryCount int

definition retry_coerce :: "retry_arg \<Rightarrow> exc_class + retry" where
  "retry_coerce a = (case a of
     RetryNone \<Rightarrow> retry_build 0 0 0 ''linear'' (Some default_retry_codes)
   | RetryStrategy r \<Rightarrow> Inr r
   | RetryCount n \<Rightarrow> retry_build n 0 0 ''linear'' (Some default_retry_codes))"

text \<open>\<open>drawn\<close> is what \<open>random.uniform(0, jitter)\<close> returns.\<close>

definition sleep_for :: "retry \<Rightarrow> nat \<Rightarrow> rat \<Rightarrow> rat" where
  "sleep_for r attempt drawn =
     (let base = (if rt_exponential r then rt_delay r * 2 ^ (attempt - 1) else rt_delay r * of_nat attempt)
      in if rt_jitter r \<noteq> 0 then base + drawn else base)"

definition should_retry_status :: "retry \<Rightarrow> nat option \<Rightarrow> bool" where
  "should_retry_status r status \<longleftrightarrow> (case status of None \<Rightarrow> False | Some n \<Rightarrow> n \<in> set (rt_codes r))"

section \<open>Adapters\<close>

text \<open>\<open>sorted(..., key=len, reverse=True)\<close> keeps the order of equal keys.\<close>

definition longest_first :: "('a \<Rightarrow> nat) \<Rightarrow> 'a list \<Rightarrow> 'a list" where
  "longest_first f xs = sort_key (\<lambda>x. - int (f x)) xs"

definition mount :: "string \<Rightarrow> 'a \<Rightarrow> (string, 'a) odict \<Rightarrow> (string, 'a) odict" where
  "mount prefix adapter adapters =
     (let m = od_put prefix adapter adapters
      in fold (\<lambda>k m. case od_get m k of Some a \<Rightarrow> od_put k a (od_del k m) | None \<Rightarrow> m)
           (longest_first length (filter (\<lambda>k. length k < length prefix) (od_keys m))) m)"

definition get_adapter :: "string \<Rightarrow> (string, 'a) odict \<Rightarrow> exc_class + 'a" where
  "get_adapter url adapters =
     (case find (\<lambda>(prefix, a). startswith (py_lower url) (py_lower prefix))
             (longest_first (\<lambda>p. length (fst p)) adapters) of
        Some (prefix, a) \<Rightarrow> Inr a
      | None \<Rightarrow> Inl InvalidSchema)"

section \<open>Redirects\<close>

definition drive_redirects_in_python :: "int option \<Rightarrow> bool \<Rightarrow> bool" where
  "drive_redirects_in_python max_redirects allow \<longleftrightarrow>
     allow \<and> (case max_redirects of None \<Rightarrow> False | Some n \<Rightarrow> n < DEFAULT_REDIRECT_LIMIT)"

definition rebuild_method :: "response \<Rightarrow> ('jar, 'h) prepared \<Rightarrow> ('jar, 'h) prepared" where
  "rebuild_method resp p =
     (let m0 = pr_method p;
          m1 = (if rp_status resp = Some 303 \<and> m0 \<noteq> Some ''HEAD'' then Some ''GET'' else m0);
          m2 = (if rp_status resp = Some 302 \<and> m1 \<noteq> Some ''HEAD'' then Some ''GET'' else m1);
          m3 = (if rp_status resp = Some 301 \<and> m2 = Some ''POST'' then Some ''GET'' else m2)
      in p\<lparr>pr_method := m3\<rparr>)"

definition hostname_of :: "string \<Rightarrow> exc_class + string option" where
  "hostname_of url = bind_res (urlsplit url) (\<lambda>p. Inr (url_hostname p))"

definition rebuild_auth :: "response \<Rightarrow> ('jar, 'h) prepared \<Rightarrow> exc_class + ('jar, 'h) prepared" where
  "rebuild_auth resp p =
     (if \<not> h_contains (pr_headers p) ''Authorization'' then Inr p
      else bind_res (hostname_of (rp_url resp)) (\<lambda>old. bind_res (hostname_of (pr_url p)) (\<lambda>new.
        if old \<noteq> new then Inr (p\<lparr>pr_headers := h_remove ''Authorization'' (pr_headers p)\<rparr>) else Inr p)))"

text \<open>The body and its headers go with a method that has none.\<close>

definition drop_body :: "response \<Rightarrow> ('jar, 'h) prepared \<Rightarrow> ('jar, 'h) prepared" where
  "drop_body resp p =
     (if pr_method p \<in> {Some ''GET'', Some ''HEAD''} \<or> rp_status resp = Some 303
      then p\<lparr>pr_body := None, pr_stream_body := False,
             pr_headers := h_pop ''Transfer-Encoding'' (h_pop ''Content-Type''
                             (h_pop ''Content-Length'' (pr_headers p)))\<rparr>
      else p)"

definition next_hop :: "('jar \<Rightarrow> 'jar) \<Rightarrow> response \<Rightarrow> ('jar, 'h) prepared \<Rightarrow> exc_class + ('jar, 'h) prepared" where
  "next_hop copy_jar resp p =
     bind_res (urljoin (rp_url resp) (case h_get (rp_headers resp) ''location'' of Some l \<Rightarrow> l | None \<Rightarrow> []))
       (\<lambda>joined. bind_res (requote_uri joined) (\<lambda>url.
         let following = drop_body resp (rebuild_method resp ((pr_copy copy_jar p)\<lparr>pr_url := url\<rparr>))
         in bind_res (rebuild_auth resp following) (\<lambda>f.
              Inr (f\<lparr>pr_headers := h_pop ''Cookie'' (pr_headers f)\<rparr>))))"

section \<open>Properties\<close>

lemma header_key_facts:
  "key_of ''location'' = ''location''" "key_of ''Location'' = ''location''"
  by (simp_all add: key_of_def py_lower_def py_str)

lemmas hop_keys = header_keys header_key_facts

lemma h_get_copy [simp]: "h_get (h_copy h) k = h_get h k" if "h_wf h"
  using that h_copy_list [OF that] h_wf_copy [of h] by (simp add: h_get_joined h_get_list_def)

lemma rebuild_method_headers [simp]:
  "pr_headers (rebuild_method resp p) = pr_headers p" "pr_url (rebuild_method resp p) = pr_url p"
  by (simp_all add: rebuild_method_def Let_def)

lemma drop_body_sel [simp]:
  "pr_url (drop_body resp p) = pr_url p" "pr_method (drop_body resp p) = pr_method p"
  "h_wf (pr_headers p) \<Longrightarrow> h_wf (pr_headers (drop_body resp p))"
  by (simp_all add: drop_body_def wf_intros)

lemma drop_body_get:
  "h_wf (pr_headers p) \<Longrightarrow> k \<in> {''Authorization'', ''Cookie''} \<Longrightarrow>
   h_get (pr_headers (drop_body resp p)) k = h_get (pr_headers p) k"
  by (auto simp: drop_body_def h_get_pop wf_intros hop_keys)

lemma rebuild_auth_spec:
  assumes "rebuild_auth resp p = Inr q" and "h_wf (pr_headers p)"
  shows "pr_url q = pr_url p \<and> pr_method q = pr_method p \<and> pr_body q = pr_body p
    \<and> h_wf (pr_headers q)
    \<and> (\<forall>k. key_of k \<noteq> ''authorization'' \<longrightarrow> h_get (pr_headers q) k = h_get (pr_headers p) k)
    \<and> h_get (pr_headers q) ''Authorization'' =
        (if hostname_of (rp_url resp) = hostname_of (pr_url p) then h_get (pr_headers p) ''Authorization'' else None)"
proof (cases "h_contains (pr_headers p) ''Authorization''")
  case False
  then have "h_get (pr_headers p) ''Authorization'' = None"
    using h_contains_iff [OF assms(2)] h_get_joined [OF assms(2)] by simp
  with False assms show ?thesis by (simp add: rebuild_auth_def)
next
  case True
  with assms(1) obtain old new where h: "hostname_of (rp_url resp) = Inr old" "hostname_of (pr_url p) = Inr new"
    and q: "q = (if old \<noteq> new then p\<lparr>pr_headers := h_remove ''Authorization'' (pr_headers p)\<rparr> else p)"
    by (auto simp: rebuild_auth_def bind_res_Inr split: if_splits)
  show ?thesis
  proof (cases "old = new")
    case False
    with assms(2) q h show ?thesis by (auto simp: h_get_remove wf_intros hop_keys)
  qed (use q h assms(2) in simp)
qed

lemma next_hop_cookie:
  assumes "next_hop copy_jar resp p = Inr f"
  shows "h_get (pr_headers f) ''Cookie'' = None \<and> h_wf (pr_headers f)"
proof -
  from assms obtain url g where
    g: "rebuild_auth resp (drop_body resp (rebuild_method resp ((pr_copy copy_jar p)\<lparr>pr_url := url\<rparr>))) = Inr g"
    and f: "f = g\<lparr>pr_headers := h_pop ''Cookie'' (pr_headers g)\<rparr>"
    by (auto simp: next_hop_def bind_res_Inr Let_def)
  have "h_wf (pr_headers (drop_body resp (rebuild_method resp ((pr_copy copy_jar p)\<lparr>pr_url := url\<rparr>))))"
    by (simp add: pr_copy_def wf_intros)
  from rebuild_auth_spec [OF g this] show ?thesis by (simp add: f h_get_pop hop_keys wf_intros)
qed

text \<open>
  C7: What a redirect hop followed from Python carries: never the old \<open>Cookie\<close> line, no
  body headers and no body once the method has none, and the caller's
  \<open>Authorization\<close> exactly when the host name is the same; the scheme and the port are not
  compared, so credentials sent over HTTPS follow a redirect to plain HTTP.
\<close>

theorem next_hop_headers:
  assumes "next_hop copy_jar resp p = Inr f" and "h_wf (pr_headers p)"
  shows "h_get (pr_headers f) ''Cookie'' = None
    \<and> h_get (pr_headers f) ''Authorization'' =
        (if hostname_of (rp_url resp) = hostname_of (pr_url f)
         then h_get (pr_headers p) ''Authorization'' else None)
    \<and> (pr_method f \<in> {Some ''GET'', Some ''HEAD''} \<longrightarrow>
         pr_body f = None \<and> h_get (pr_headers f) ''Content-Length'' = None
         \<and> h_get (pr_headers f) ''Content-Type'' = None \<and> h_get (pr_headers f) ''Transfer-Encoding'' = None)"
proof -
  from assms(1) obtain url g where
    g: "rebuild_auth resp (drop_body resp (rebuild_method resp ((pr_copy copy_jar p)\<lparr>pr_url := url\<rparr>))) = Inr g"
    and f: "f = g\<lparr>pr_headers := h_pop ''Cookie'' (pr_headers g)\<rparr>"
    by (auto simp: next_hop_def bind_res_Inr Let_def)
  let ?m = "rebuild_method resp ((pr_copy copy_jar p)\<lparr>pr_url := url\<rparr>)"
  let ?d = "drop_body resp ?m"
  have wm: "h_wf (pr_headers ?m)" by (simp add: pr_copy_def wf_intros)
  then have wd: "h_wf (pr_headers ?d)" by simp
  note spec = rebuild_auth_spec [OF g wd]
  have auth: "h_get (pr_headers ?d) ''Authorization'' = h_get (pr_headers p) ''Authorization''"
    using wm assms(2) by (simp add: drop_body_get) (simp add: pr_copy_def)
  have body: "pr_method ?d \<in> {Some ''GET'', Some ''HEAD''} \<Longrightarrow>
      pr_body ?d = None \<and> h_get (pr_headers ?d) ''Content-Length'' = None
      \<and> h_get (pr_headers ?d) ''Content-Type'' = None \<and> h_get (pr_headers ?d) ''Transfer-Encoding'' = None"
    using wm by (auto simp: drop_body_def h_get_pop wf_intros hop_keys)
  show ?thesis using spec auth body by (auto simp: f h_get_pop hop_keys)
qed

definition sample_redirect :: response where
  "sample_redirect = rp_new\<lparr>rp_url := ''https://h/a'', rp_status := Some 302,
     rp_headers := h_add ''Location'' (PyStr ''http://h/b'') (h_empty Utf8)\<rparr>"

definition sample_request :: "(unit, unit) prepared" where
  "sample_request = pr_empty\<lparr>pr_method := Some ''GET'', pr_url := ''https://h/a'',
     pr_headers := h_setitem ''Authorization'' (PyStr ''Basic eA=='') (h_empty Utf8)\<rparr>"

lemma sample_urls:
  "urljoin ''https://h/a'' ''http://h/b'' = Inr ''http://h/b''"
  "requote_uri ''http://h/b'' = Inr ''http://h/b''"
  "hostname_of ''https://h/a'' = Inr (Some ''h'')" "hostname_of ''http://h/b'' = Inr (Some ''h'')"
  by code_simp+

lemma sample_next_hop: "\<exists>f. next_hop id sample_redirect sample_request = Inr f \<and> pr_url f = ''http://h/b''"
proof -
  have "h_get (rp_headers sample_redirect) ''location'' = Some ''http://h/b''"
    by (simp add: sample_redirect_def h_get_joined wf_intros h_get_list_add hop_keys) (simp add: h_get_list_def h_empty_def fields_of_def)
  moreover have "rp_url sample_redirect = ''https://h/a''" by (simp add: sample_redirect_def)
  ultimately show ?thesis
    by (simp add: next_hop_def sample_urls Let_def rebuild_auth_def)
qed

theorem next_hop_headers_witness:
  "\<exists>f. next_hop id sample_redirect sample_request = Inr f \<and> pr_url f = ''http://h/b''
     \<and> h_get (pr_headers f) ''Authorization'' = Some ''Basic eA==''"
proof -
  obtain f where f: "next_hop id sample_redirect sample_request = Inr f" "pr_url f = ''http://h/b''"
    using sample_next_hop by blast
  have "h_wf (pr_headers sample_request)" by (simp add: sample_request_def pr_empty_def wf_intros)
  from next_hop_headers [OF f(1) this] f show ?thesis
    by (simp add: sample_urls) (simp add: sample_redirect_def sample_request_def sample_urls pr_empty_def h_get_setitem)
qed

text \<open>
  The session's own \<open>proxies\<close> are looked at before its \<open>proxy\<close>, and a more specific key of
  the session before a general one of the call, although the order documented for
  \<open>_effective_proxy\<close> is the other way round.
\<close>

theorem session_proxies_before_proxy:
  assumes "proxy_from_proxies url (Some session_proxies) = Inr (Some chosen)" and "session_proxies \<noteq> []"
  shows "effective_proxy env session_proxies (Some session_proxy) trust_env url None [] = Inr (Some chosen)"
  using assms by (simp add: effective_proxy_def od_update_def)

text \<open>Credentials in front of an IPv6 literal cost the literal its brackets.\<close>

theorem proxy_credentials_drop_brackets:
  "split_proxy_credentials (Some ''http://u:p@[::1]:8080'')
     = Inr (Some ''http://::1:8080'', Some ''u'', Some ''p'')"
proof -
  have sp: "urlsplit ''http://u:p@[::1]:8080'' = Inr \<lparr>u_scheme = ''http'', u_netloc = ''u:p@[::1]:8080'',
      u_path = [], u_params = [], u_query = [], u_fragment = []\<rparr>" by code_simp
  have ui: "userinfo ''u:p@[::1]:8080'' = (Some ''u'', Some ''p'')"
    and hi: "hostinfo ''u:p@[::1]:8080'' = (''::1'', ''8080'')" by code_simp+
  have "url_port \<lparr>u_scheme = ''http'', u_netloc = ''u:p@[::1]:8080'', u_path = [], u_params = [],
      u_query = [], u_fragment = []\<rparr> = Inr (Some 8080)"
    by (simp add: url_port_def hi read_eval)
  moreover have "url_hostname \<lparr>u_scheme = ''http'', u_netloc = ''u:p@[::1]:8080'', u_path = [], u_params = [],
      u_query = [], u_fragment = []\<rparr> = Some ''::1''"
    by (simp add: url_hostname_def hi partition_at_def) code_simp
  ultimately show ?thesis
    by (simp add: split_proxy_credentials_def sp ui show_eval)
qed

text \<open>The adapter chosen is mounted at a prefix of the URL, and at a longest one.\<close>

lemma find_found: "find P xs = Some x \<Longrightarrow> x \<in> set xs \<and> P x"
  by (induction xs) (auto split: if_splits)

lemma find_sorted_key:
  "sorted (map f xs) \<Longrightarrow> find P xs = Some x \<Longrightarrow> y \<in> set xs \<Longrightarrow> P y \<Longrightarrow> f x \<le> f y"
  by (induction xs) (auto split: if_splits)

theorem get_adapter_longest:
  assumes "get_adapter url adapters = Inr a"
  shows "\<exists>prefix. (prefix, a) \<in> set adapters \<and> startswith (py_lower url) (py_lower prefix)
    \<and> (\<forall>(q, b) \<in> set adapters. startswith (py_lower url) (py_lower q) \<longrightarrow> length q \<le> length prefix)"
proof -
  let ?P = "\<lambda>(prefix, a). startswith (py_lower url) (py_lower prefix)"
    and ?xs = "longest_first (\<lambda>p. length (fst p)) adapters"
  from assms obtain prefix where f: "find ?P ?xs = Some (prefix, a)"
    by (auto simp: get_adapter_def split: option.splits)
  have srt: "sorted (map (\<lambda>p. - int (length (fst p))) ?xs)" unfolding longest_first_def by simp
  have "length q \<le> length prefix" if "(q, b) \<in> set adapters" "startswith (py_lower url) (py_lower q)" for q b
    using find_sorted_key [OF srt f, of "(q, b)"] that by (simp add: longest_first_def)
  moreover have "(prefix, a) \<in> set adapters" "startswith (py_lower url) (py_lower prefix)"
    using find_found [OF f] by (simp_all add: longest_first_def)
  ultimately show ?thesis by blast
qed

end
