(* ===== verification/Sessions.thy ===== *)
theory Sessions
  imports Session_Policy
begin

text \<open>
  \<open>BaseSession\<close>, \<open>Session\<close> and \<open>AsyncSession\<close> of
  \<open>bindings/python/chrome_client/_python_impl/sessions.py\<close>: construction, the engine
  configuration and slot of a request, the two-store cookie policy, the preparation of a
  call, sending with retries, and redirects driven from Python.

  An engine slot is a number; its cookie mirror is looked up in the session.  A mounted
  adapter is \<open>None\<close> for the library's own \<open>HTTPAdapter\<close> and a number for a caller's.
  The native request, the files read, the cookie policy of the standard library, the hooks
  and the caller's adapters are arguments.
\<close>

section \<open>State\<close>

datatype verify_arg = VNone | VBool bool | VPath string

record settings =
  st_impersonate :: "string option"
  st_http_version :: "string option"
  st_proxy :: "string option"
  st_proxies :: "(string, pyval) odict"
  st_proxy_auth :: "(string \<times> string) option"
  st_verify :: verify_arg
  st_timeout :: timeout_arg
  st_headers :: headers
  st_params :: "(string, mvalue option) odict"
  st_stream :: bool
  st_max_redirects :: int
  st_trust_env :: bool
  st_allow_redirects :: bool
  st_max_response_bytes :: limit_arg
  st_base_url :: string
  st_default_encoding :: string
  st_discard_cookies :: bool
  st_raise_for_status :: bool
  st_retry :: retry
  st_cache :: bool
  st_user_agent :: "string option"
  st_accept_language :: "string option"
  st_header_order :: "string list"
  st_form_boundary :: "string option"

record session =
  ss_set :: settings
  ss_cookies :: jar
  ss_cookie_revision :: nat
  ss_engines :: "nat cache"
  ss_mirrors :: "(nat, jar) odict"
  ss_next_slot :: nat
  ss_generation :: nat
  ss_closed :: bool
  ss_adapters :: "(string, nat option) odict"

text \<open>
  \<open>BaseSession.__init__\<close>.  \<open>refused\<close> says which of \<open>cert\<close>, \<open>interface\<close>,
  \<open>doh_url\<close>, \<open>curl_options\<close> and \<open>max_recv_speed\<close> were given; \<open>base\<close> carries the
  settings that are stored as they are.
\<close>

definition fp_names :: "fp_value option \<Rightarrow> string list" where
  "fp_names v = (case v of Some (FSeq ns) \<Rightarrow> ns | _ \<Rightarrow> [])"

definition fp_text :: "fp_value option \<Rightarrow> string option" where
  "fp_text v = (case v of Some (FStr t) \<Rightarrow> Some t | _ \<Rightarrow> None)"

definition session_init ::
  "fp_value \<Rightarrow> fp_value \<Rightarrow> fp_value \<Rightarrow> bool list \<Rightarrow> (string, fp_value) odict option \<Rightarrow> target \<Rightarrow> argument
   \<Rightarrow> retry_arg \<Rightarrow> jar \<Rightarrow> int \<Rightarrow> int \<Rightarrow> settings \<Rightarrow> exc_class + session" where
  "session_init ja3 akamai perk refused extra_fp imp version rt jar max_engines pid base =
     bind_res (reject_fingerprint_overrides ja3 akamai perk) (\<lambda>_.
     if list_ex id refused then Inl UnsupportedFeature
     else bind_res (validate_extra_fp extra_fp) (\<lambda>(order, boundary).
     bind_res (normalize_impersonate imp) (\<lambda>profile.
     bind_res (normalize_http_version version) (\<lambda>http_version.
     bind_res (retry_coerce rt) (\<lambda>r.
     bind_res (validate_max_response_bytes (st_max_response_bytes base)) (\<lambda>_.
       Inr \<lparr>ss_set = base\<lparr>st_impersonate := profile, st_http_version := http_version, st_retry := r,
                          st_header_order := fp_names order, st_form_boundary := fp_text boundary\<rparr>,
            ss_cookies = jar, ss_cookie_revision = jar_revision jar, ss_engines = ec_init max_engines pid,
            ss_mirrors = [], ss_next_slot = 0, ss_generation = 0, ss_closed = False,
            ss_adapters = mount ''http://'' None (mount ''https://'' None [])\<rparr>))))))"

definition session_close :: "session \<Rightarrow> session" where
  "session_close s = s\<lparr>ss_closed := True, ss_engines := ec_close (ss_engines s)\<rparr>"

definition ensure_open :: "session \<Rightarrow> exc + unit" where
  "ensure_open s = (if ss_closed s then raise_exc SessionClosed ''Session is closed'' else Inr ())"

section \<open>Engine selection\<close>

text \<open>\<open>verify=\<close> as a flag and a CA bundle; \<open>read_file\<close> is \<open>open(path, "rb").read()\<close>.\<close>

definition verify_setting :: "(string \<Rightarrow> string option) \<Rightarrow> verify_arg \<Rightarrow> verify_arg \<Rightarrow> exc_class + bool \<times> string option" where
  "verify_setting read_file own verify =
     (let load = (\<lambda>p. case read_file p of None \<Rightarrow> Inl IOError | Some pem \<Rightarrow> Inr (True, Some pem)) in
      case verify of
        VPath p \<Rightarrow> load p
      | VBool b \<Rightarrow> Inr (b, None)
      | VNone \<Rightarrow> (case own of VPath p \<Rightarrow> load p | VBool b \<Rightarrow> Inr (b, None) | VNone \<Rightarrow> Inr (False, None)))"

definition engine_config ::
  "(string \<Rightarrow> string option) \<Rightarrow> string option \<Rightarrow> string option \<Rightarrow> verify_arg \<Rightarrow> string option \<Rightarrow> session
   \<Rightarrow> exc_class + config" where
  "engine_config read_file imp proxy verify http_version s =
     bind_res (split_proxy_credentials proxy) (\<lambda>(px, url_user, url_password).
     bind_res (verify_setting read_file (st_verify (ss_set s)) verify) (\<lambda>(flag, ca_pem).
     let st = ss_set s;
         (username, password) =
           (case (url_user, st_proxy_auth st) of
              (None, Some (u, w)) \<Rightarrow> (Some u, Some w) | _ \<Rightarrow> (url_user, url_password))
     in Inr \<lparr>cfg_impersonate = (if imp \<noteq> None then imp else st_impersonate st), cfg_proxy = px,
             cfg_verify = flag, cfg_ca_pem = ca_pem, cfg_user_agent = st_user_agent st,
             cfg_accept_language = st_accept_language st, cfg_proxy_username = username,
             cfg_proxy_password = password,
             cfg_http_version = (if http_version \<noteq> None then http_version else st_http_version st),
             cfg_cache = st_cache st, cfg_profile_namespace = None, cfg_generation = ss_generation s\<rparr>))"

type_synonym slot = "config \<times> nat"

text \<open>\<open>self._engines.get(config)\<close>; \<open>build\<close> is what constructing the engine does.\<close>

definition get_slot :: "int \<Rightarrow> (config \<Rightarrow> exc + unit) \<Rightarrow> config \<Rightarrow> session \<Rightarrow> (exc + slot) \<times> session" where
  "get_slot pid build cfg s =
     (case ec_get pid (case build cfg of Inl e \<Rightarrow> Inl e | Inr _ \<Rightarrow> Inr (ss_next_slot s)) cfg (ss_engines s) of
        (Inl e, c) \<Rightarrow> (Inl e, s\<lparr>ss_engines := c\<rparr>)
      | (Inr i, c) \<Rightarrow>
          (Inr (cfg, i), s\<lparr>ss_engines := c,
             ss_next_slot := (if i = ss_next_slot s then i + 1 else ss_next_slot s)\<rparr>))"

definition mirror_of :: "session \<Rightarrow> nat \<Rightarrow> jar" where
  "mirror_of s i = (case od_get (ss_mirrors s) i of Some j \<Rightarrow> j | None \<Rightarrow> jar_empty)"

section \<open>Cookie policy\<close>

text \<open>\<open>hdr jar url\<close> is the \<open>Cookie\<close> line a jar would send.\<close>

definition resolve_cookies ::
  "(jar \<Rightarrow> string \<Rightarrow> string option) \<Rightarrow> int \<Rightarrow> (config \<Rightarrow> exc + unit) \<Rightarrow> slot \<Rightarrow> (jar, 'h) prepared \<Rightarrow> bool
   \<Rightarrow> session \<Rightarrow> (exc + slot) \<times> (jar, 'h) prepared \<times> session" where
  "resolve_cookies hdr pid build sl p discard s =
     (if discard
      then
        let p1 = p\<lparr>pr_headers := h_pop ''Cookie'' (pr_headers p)\<rparr>;
            s1 = s\<lparr>ss_generation := ss_generation s + 1\<rparr>
        in (case get_slot pid build (config_replace (ss_generation s1) (fst sl)) s1 of
              (Inl e, s2) \<Rightarrow> (Inl e, p1, s2)
            | (Inr r, s2) \<Rightarrow>
                (Inr r, p1, if snd r \<noteq> snd sl then s2\<lparr>ss_engines := ec_discard (fst sl) (ss_engines s2)\<rparr> else s2))
      else
        let desired = hdr (case pr_cookies p of Some j \<Rightarrow> j | None \<Rightarrow> ss_cookies s) (pr_url p);
            store = hdr (mirror_of s (snd sl)) (pr_url p);
            with_cookie = (\<lambda>p. case desired of
                Some (c # d) \<Rightarrow> p\<lparr>pr_headers := h_setitem ''Cookie'' (PyStr (c # d)) (pr_headers p)\<rparr>
              | _ \<Rightarrow> p)
        in if store = None then (Inr sl, with_cookie p, s)
           else if desired = store
           then (Inr sl, p\<lparr>pr_headers := h_pop ''Cookie'' (pr_headers p)\<rparr>, s)
           else
             let s1 = s\<lparr>ss_generation := ss_generation s + 1\<rparr>
             in (case get_slot pid build (config_replace (ss_generation s1) (fst sl)) s1 of
                   (Inl e, s2) \<Rightarrow> (Inl e, p, s2)
                 | (Inr r, s2) \<Rightarrow> (Inr r, with_cookie p, s2)))"

text \<open>What the final hop and each redirect set, recorded in the mirror, the response and the jar.\<close>

definition absorb_one ::
  "(string \<Rightarrow> string list \<Rightarrow> jar) \<Rightarrow> nat \<Rightarrow> string \<times> headers \<Rightarrow> jar \<times> session \<Rightarrow> jar \<times> session" where
  "absorb_one ex i uh js = (case (uh, js) of ((url, h), (j, s)) \<Rightarrow>
     let lines = h_get_list h ''set-cookie'' in
     if lines = [] then (j, s)
     else (absorb_set_cookie ex url lines j,
           s\<lparr>ss_mirrors := od_put i (absorb_set_cookie ex url lines (mirror_of s i)) (ss_mirrors s),
             ss_cookies := absorb_set_cookie ex url lines (ss_cookies s)\<rparr>))"

definition absorb_cookies ::
  "(string \<Rightarrow> string list \<Rightarrow> jar) \<Rightarrow> nat \<Rightarrow> response \<Rightarrow> bool \<Rightarrow> jar \<Rightarrow> session \<Rightarrow> jar \<times> session" where
  "absorb_cookies ex i resp discard j s =
     (if discard then (j, s)
      else (case fold (absorb_one ex i) (rp_history_headers resp @ [(rp_url resp, rp_headers resp)]) (j, s) of
              (j', s') \<Rightarrow> (j', s'\<lparr>ss_cookie_revision := jar_revision (ss_cookies s')\<rparr>)))"

section \<open>Responses\<close>

record 'h reply =
  re_response :: response
  re_cookies :: jar
  re_history :: "response list"
  re_next :: "(jar, 'h) prepared option"
  re_request :: "(jar, 'h) prepared"

definition describe :: "nat \<Rightarrow> string \<Rightarrow> string \<Rightarrow> response \<Rightarrow> response" where
  "describe status raw url r =
     (case parse_raw_headers raw of (line, h) \<Rightarrow>
        r\<lparr>rp_status := Some status, rp_headers := h, rp_status_line := line,
          rp_reason := reason_from_status_line line status,
          rp_http_version := negotiated_http_version line, rp_url := url\<rparr>)"

text \<open>The hops Chromium followed, each at the URL it was asked for, and the final URL.\<close>

fun hop_responses :: "string \<Rightarrow> (nat \<times> string \<times> string) list \<Rightarrow> response list \<times> string" where
  "hop_responses url [] = ([], url)"
| "hop_responses url ((status, raw, new_url) # hops) =
     (case hop_responses new_url hops of
        (rest, final) \<Rightarrow> (rp_set_content [] (describe status raw url rp_new) # rest, final))"

definition finalize ::
  "(string \<Rightarrow> string list \<Rightarrow> jar) \<Rightarrow> response \<Rightarrow> (jar, 'h) prepared \<Rightarrow> nat \<Rightarrow> string \<Rightarrow> (nat \<times> string \<times> string) list
   \<Rightarrow> nat \<Rightarrow> bool \<Rightarrow> string option \<Rightarrow> session \<Rightarrow> (exc + 'h reply) \<times> session" where
  "finalize ex resp p status raw hops i discard body s =
     (case hop_responses (pr_url p) hops of (hist, url) \<Rightarrow>
        let r1 = (case body of Some b \<Rightarrow> rp_set_content b resp | None \<Rightarrow> resp);
            r2 = (describe status raw url r1)\<lparr>rp_redirect_count := length hops,
                    rp_redirect_url := (if hist = [] then None else Some url),
                    rp_history_headers := map (\<lambda>h. (rp_url h, rp_headers h)) hist\<rparr>
        in (case absorb_cookies ex i r2 discard jar_empty s of (j, s1) \<Rightarrow>
              (lift_exc
                (if is_redirect r2
                 then bind_res (urljoin url (case h_get (rp_headers r2) ''location'' of Some l \<Rightarrow> l | None \<Rightarrow> []))
                        (\<lambda>next_url. Inr \<lparr>re_response = r2, re_cookies = j, re_history = hist,
                           re_next = Some ((pr_copy jar_copy p)\<lparr>pr_url := next_url\<rparr>), re_request = p\<rparr>)
                 else Inr \<lparr>re_response = r2, re_cookies = j, re_history = hist, re_next = None, re_request = p\<rparr>), s1)))"

section \<open>Options\<close>

record options =
  op_impersonate :: "string option"
  op_proxy :: "string option"
  op_proxies :: "(string \<times> pyval) list"
  op_verify :: verify_arg
  op_http_version :: "string option"
  op_timeout :: timeout_arg
  op_stream :: "bool option"
  op_max_response_bytes :: limit_arg
  op_native_redirects :: "bool option"
  op_python_redirects :: "bool option"
  op_max_redirects :: "int option"
  op_retry :: "retry option"
  op_raise_for_status :: "bool option"
  op_discard_cookies :: "bool option"

definition no_options :: options where
  "no_options = \<lparr>op_impersonate = None, op_proxy = None, op_proxies = [], op_verify = VNone,
     op_http_version = None, op_timeout = NoTimeout, op_stream = None, op_max_response_bytes = LimitNone,
     op_native_redirects = None, op_python_redirects = None, op_max_redirects = None, op_retry = None,
     op_raise_for_status = None, op_discard_cookies = None\<rparr>"

text \<open>\<open>_with_session_defaults\<close>: what a direct \<open>Session.send\<close> takes from the session.\<close>

definition with_session_defaults :: "settings \<Rightarrow> options \<Rightarrow> exc_class + options" where
  "with_session_defaults st o1 =
     bind_res (if op_max_response_bytes o1 = LimitNone then Inr (st_max_response_bytes st)
               else bind_res (validate_max_response_bytes (op_max_response_bytes o1))
                      (\<lambda>_. Inr (op_max_response_bytes o1))) (\<lambda>limit.
     let o2 = o1\<lparr>op_max_response_bytes := limit,
                 op_timeout := (if op_timeout o1 = NoTimeout then st_timeout st else op_timeout o1),
                 op_stream := (if op_stream o1 = None then Some (st_stream st) else op_stream o1)\<rparr>
     in Inr (if op_native_redirects o2 = None \<and> op_python_redirects o2 = None
             then let py = drive_redirects_in_python (op_max_redirects o2) (st_allow_redirects st)
                  in o2\<lparr>op_python_redirects := Some py, op_native_redirects := Some (\<not> py),
                        op_max_redirects := (if op_max_redirects o2 = None then Some (st_max_redirects st)
                                             else op_max_redirects o2)\<rparr>
             else o2))"

text \<open>The transport options \<open>_prepare_call\<close> makes of a \<open>request()\<close> call.\<close>

record call_options =
  co_allow_redirects :: "bool option"
  co_max_redirects :: "int option"
  co_stream :: "bool option"
  co_limit :: limit_arg
  co_timeout :: timeout_arg
  co_retry :: retry_arg
  co_rest :: options

definition call_to_options :: "settings \<Rightarrow> call_options \<Rightarrow> exc_class + options" where
  "call_to_options st c =
     (let allow = (case co_allow_redirects c of None \<Rightarrow> st_allow_redirects st | Some b \<Rightarrow> b);
          py = drive_redirects_in_python (co_max_redirects c) allow
      in bind_res (if co_limit c = LimitNone then Inr (st_max_response_bytes st)
                   else bind_res (validate_max_response_bytes (co_limit c)) (\<lambda>_. Inr (co_limit c))) (\<lambda>limit.
         bind_res (if co_retry c = RetryNone then Inr None
                   else bind_res (retry_coerce (co_retry c)) (\<lambda>r. Inr (Some r))) (\<lambda>rt.
         Inr ((co_rest c)\<lparr>
           op_timeout := (if co_timeout c = NoTimeout then st_timeout st else co_timeout c),
           op_stream := Some (case co_stream c of None \<Rightarrow> st_stream st | Some b \<Rightarrow> b),
           op_max_response_bytes := limit,
           op_native_redirects := Some (allow \<and> \<not> py),
           op_python_redirects := Some py,
           op_max_redirects := Some (case co_max_redirects c of None \<Rightarrow> st_max_redirects st | Some n \<Rightarrow> n),
           op_retry := rt\<rparr>))))"

section \<open>Sending once\<close>

text \<open>\<open>_slot\<close>: the proxy, the configuration and the engine of a request.\<close>

definition slot_for ::
  "environ \<Rightarrow> (string \<Rightarrow> string option) \<Rightarrow> int \<Rightarrow> (config \<Rightarrow> exc + unit) \<Rightarrow> options \<Rightarrow> string \<Rightarrow> session
   \<Rightarrow> (exc + slot) \<times> session" where
  "slot_for env read_file pid build opts url s =
     (case bind_res (ensure_open s) (\<lambda>_.
           bind_res (lift_exc (effective_proxy env (st_proxies (ss_set s)) (st_proxy (ss_set s)) (st_trust_env (ss_set s))
             url (op_proxy opts) (op_proxies opts))) (\<lambda>px.
           lift_exc (engine_config read_file (op_impersonate opts) px (op_verify opts) (op_http_version opts) s))) of
        Inl e \<Rightarrow> (Inl e, s)
      | Inr cfg \<Rightarrow> get_slot pid build cfg s)"

text \<open>What the native request does once it is started.\<close>

datatype native_result =
    NativeFail string
  | TimedOut
  | HopSeen nat string
  | Head nat string "(nat \<times> string \<times> string) list" feed

definition limit_of :: "limit_arg \<Rightarrow> nat option" where
  "limit_of v = (case v of LimitInt i \<Rightarrow> Some (nat i) | _ \<Rightarrow> None)"

text \<open>The body of a response: left to its reader, read by the Core, or joined under the limit.\<close>

definition read_response :: "bool \<Rightarrow> nat option \<Rightarrow> feed \<Rightarrow> exc + response" where
  "read_response stream limit f =
     (if stream then Inr (rp_new\<lparr>rp_reader := Some (f, sr_init limit)\<rparr>)
      else case fst (sr_collect f (sr_init limit)) of
             Inl e \<Rightarrow> Inl e
           | Inr b \<Rightarrow> Inr (rp_set_content b rp_new))"

text \<open>From the started request to the response.\<close>

definition run_native ::
  "(string \<Rightarrow> string list \<Rightarrow> jar) \<Rightarrow> native_result \<Rightarrow> options \<Rightarrow> (jar, 'h) prepared \<Rightarrow> slot \<Rightarrow> bool \<Rightarrow> session
   \<Rightarrow> (exc + 'h reply) \<times> session" where
  "run_native ex res opts p sl discard s =
     (case res of
        NativeFail m \<Rightarrow> (Inl (map_native_error m), s)
      | TimedOut \<Rightarrow> (Inl \<lparr>exc_kind = Timeout, exc_msg = ''request timed out''\<rparr>, s)
      | HopSeen status raw \<Rightarrow> finalize ex rp_new p status raw [] (snd sl) discard (Some []) s
      | Head status raw hops f \<Rightarrow>
          (case read_response (op_stream opts = Some True) (limit_of (op_max_response_bytes opts)) f of
             Inl e \<Rightarrow> (Inl e, s)
           | Inr resp \<Rightarrow> finalize ex resp p status raw hops (snd sl) discard None s))"

definition send_once ::
  "(jar \<Rightarrow> string \<Rightarrow> string option) \<Rightarrow> (string \<Rightarrow> string list \<Rightarrow> jar) \<Rightarrow> environ \<Rightarrow> (string \<Rightarrow> string option)
   \<Rightarrow> int \<Rightarrow> (config \<Rightarrow> exc + unit) \<Rightarrow> (slot \<Rightarrow> (jar, 'h) prepared \<Rightarrow> bool \<Rightarrow> native_result)
   \<Rightarrow> options \<Rightarrow> (jar, 'h) prepared \<Rightarrow> session \<Rightarrow> (exc + 'h reply) \<times> (jar, 'h) prepared \<times> session" where
  "send_once hdr ex env read_file pid build native opts p s =
     (case slot_for env read_file pid build opts (pr_url p) s of
        (Inl e, s1) \<Rightarrow> (Inl e, p, s1)
      | (Inr sl, s1) \<Rightarrow>
          let discard = (case op_discard_cookies opts of None \<Rightarrow> st_discard_cookies (ss_set s) | Some b \<Rightarrow> b) in
     (case resolve_cookies hdr pid build sl p discard s1 of
        (Inl e, p2, s2) \<Rightarrow> (Inl e, p2, s2)
      | (Inr sl2, p2, s2) \<Rightarrow>
          let follow = (case op_native_redirects opts of None \<Rightarrow> True | Some b \<Rightarrow> b) in
     (case lift_exc (split_timeout (op_timeout opts)) of
        Inl e \<Rightarrow> (Inl e, p2, s2)
      | Inr _ \<Rightarrow>
          (case run_native ex (native sl2 p2 follow) opts p2 sl2 discard s2 of (out, s3) \<Rightarrow> (out, p2, s3)))))"

section \<open>Retries and redirects\<close>

text \<open>
  The loop of \<open>send\<close>; \<open>left\<close> is how many retries remain.  The attempts after which it
  slept are returned with the outcome.
\<close>

fun send_loop ::
  "('s \<Rightarrow> (exc + 'h reply) \<times> 's) \<Rightarrow> retry \<Rightarrow> nat \<Rightarrow> nat \<Rightarrow> 's \<Rightarrow> (exc + 'h reply) \<times> nat list \<times> 's" where
  "send_loop once r attempt 0 s = (case once s of (out, s') \<Rightarrow> (out, [], s'))"
| "send_loop once r attempt (Suc left) s =
     (case once s of
        (Inl e, s') \<Rightarrow>
          if is_subclass (exc_kind e) ResponseTooLarge \<or> \<not> is_subclass (exc_kind e) RequestException
          then (Inl e, [], s')
          else (case send_loop once r (attempt + 1) left s' of (out, sleeps, s2) \<Rightarrow> (out, attempt # sleeps, s2))
      | (Inr re, s') \<Rightarrow>
          if should_retry_status r (rp_status (re_response re))
          then (case send_loop once r (attempt + 1) left s' of (out, sleeps, s2) \<Rightarrow> (out, attempt # sleeps, s2))
          else (Inr re, [], s'))"

text \<open>
  \<open>_follow_in_python\<close>; \<open>left\<close> is how many hops the limit still allows.  Each redirect is
  read to its end before the next request, and each request is left as its sending has
  changed it.
\<close>

fun follow_hops ::
  "((jar, 'h) prepared \<Rightarrow> 's \<Rightarrow> (exc + 'h reply) \<times> (jar, 'h) prepared \<times> 's) \<Rightarrow> nat \<Rightarrow> response list
   \<Rightarrow> (jar, 'h) prepared \<Rightarrow> 'h reply \<Rightarrow> 's \<Rightarrow> (exc + 'h reply) \<times> 's" where
  "follow_hops send left history hop_request re s =
     (if \<not> is_redirect (re_response re)
      then (Inr (if history = [] then re else re\<lparr>re_history := history @ re_history re\<rparr>), s)
      else case left of
        0 \<Rightarrow> (Inl (bare_exc TooManyRedirects), s)
      | Suc n \<Rightarrow>
          (case rp_get_content (re_response re) of
             (Inl e, _) \<Rightarrow> (Inl e, s)
           | (Inr _, resp) \<Rightarrow>
               (case lift_exc (next_hop jar_copy resp hop_request) of
                  Inl e \<Rightarrow> (Inl e, s)
                | Inr hop \<Rightarrow>
                    (case send hop s of
                       (Inl e, _, s') \<Rightarrow> (Inl e, s')
                     | (Inr re', hop', s') \<Rightarrow> follow_hops send n (history @ [resp]) hop' re' s'))))"

declare follow_hops.simps [simp del]

definition follow_in_python ::
  "((jar, 'h) prepared \<Rightarrow> 's \<Rightarrow> (exc + 'h reply) \<times> (jar, 'h) prepared \<times> 's) \<Rightarrow> int \<Rightarrow> (jar, 'h) prepared
   \<Rightarrow> 'h reply \<Rightarrow> 's \<Rightarrow> (exc + 'h reply) \<times> 's" where
  "follow_in_python send limit p re s = follow_hops send (nat limit) [] p re s"

text \<open>Hooks may replace the response; \<open>run\<close> calls one.\<close>

definition dispatch_hooks :: "('h \<Rightarrow> 'h reply \<Rightarrow> 'h reply option) \<Rightarrow> (jar, 'h) prepared \<Rightarrow> 'h reply \<Rightarrow> 'h reply" where
  "dispatch_hooks run p re =
     fold (\<lambda>h re. case run h re of Some r \<Rightarrow> r | None \<Rightarrow> re)
       (case od_get (pr_hooks p) ''response'' of Some hs \<Rightarrow> hs | None \<Rightarrow> []) re"

text \<open>The end of \<open>send\<close>, common to both sessions.\<close>

definition finish_send ::
  "('h \<Rightarrow> 'h reply \<Rightarrow> 'h reply option) \<Rightarrow> bool option \<Rightarrow> bool \<Rightarrow> (jar, 'h) prepared \<Rightarrow> 'h reply \<Rightarrow> exc + 'h reply" where
  "finish_send run raise_option raise_default p re =
     (let re' = dispatch_hooks run p re in
      if (case raise_option of None \<Rightarrow> raise_default | Some b \<Rightarrow> b)
      then bind_res (raise_for_status (re_response re')) (\<lambda>_. Inr re') else Inr re')"

text \<open>
  \<open>send\<close> of either session on its options; \<open>once\<close> is \<open>_send_once\<close> with them.  Options
  that ask for redirects driven from Python carry a limit: both places that set the one
  set the other.
\<close>

type_synonym 'h once = "(jar, 'h) prepared \<Rightarrow> session \<Rightarrow> (exc + 'h reply) \<times> (jar, 'h) prepared \<times> session"

definition send_with ::
  "'h once \<Rightarrow> ('h \<Rightarrow> 'h reply \<Rightarrow> 'h reply option) \<Rightarrow> options \<Rightarrow> (jar, 'h) prepared \<Rightarrow> session
   \<Rightarrow> (exc + 'h reply) \<times> session" where
  "send_with once run opts p s =
     (let r = (case op_retry opts of Some r \<Rightarrow> r | None \<Rightarrow> st_retry (ss_set s)) in
      case send_loop (\<lambda>(p, s). once p s) r 1 (rt_count r) (p, s) of
        (Inl e, _, _, s1) \<Rightarrow> (Inl e, s1)
      | (Inr re, _, p1, s1) \<Rightarrow>
          (case (if op_python_redirects opts = Some True
                 then follow_in_python once (case op_max_redirects opts of Some n \<Rightarrow> n | None \<Rightarrow> 0) p1 re s1
                 else (Inr re, s1)) of
             (Inl e, s2) \<Rightarrow> (Inl e, s2)
           | (Inr re2, s2) \<Rightarrow>
               (finish_send run (op_raise_for_status opts) (st_raise_for_status (ss_set s)) p1 re2, s2)))"

definition session_send ::
  "(nat \<Rightarrow> options \<Rightarrow> (jar, 'h) prepared \<Rightarrow> exc + 'h reply) \<Rightarrow> (options \<Rightarrow> 'h once)
   \<Rightarrow> ('h \<Rightarrow> 'h reply \<Rightarrow> 'h reply option) \<Rightarrow> options \<Rightarrow> (jar, 'h) prepared \<Rightarrow> session
   \<Rightarrow> (exc + 'h reply) \<times> session" where
  "session_send foreign once run opts p s =
     (case bind_res (ensure_open s) (\<lambda>_. bind_res (lift_exc (with_session_defaults (ss_set s) opts)) (\<lambda>opts'.
           bind_res (lift_exc (get_adapter (pr_url p) (ss_adapters s))) (\<lambda>adapter. Inr (opts', adapter)))) of
        Inl e \<Rightarrow> (Inl e, s)
      | Inr (opts', Some i) \<Rightarrow> (foreign i opts' p, s)
      | Inr (opts', None) \<Rightarrow> send_with (once opts') run opts' p s)"

text \<open>\<open>AsyncSession.send\<close> uses the options as they are, and no adapter.\<close>

definition async_session_send ::
  "(options \<Rightarrow> 'h once) \<Rightarrow> ('h \<Rightarrow> 'h reply \<Rightarrow> 'h reply option) \<Rightarrow> options \<Rightarrow> (jar, 'h) prepared \<Rightarrow> session
   \<Rightarrow> (exc + 'h reply) \<times> session" where
  "async_session_send once run opts p s =
     (case ensure_open s of Inl e \<Rightarrow> (Inl e, s) | Inr _ \<Rightarrow> send_with (once opts) run opts p s)"

section \<open>Retries\<close>

definition retriable :: "retry \<Rightarrow> exc + 'h reply \<Rightarrow> bool" where
  "retriable r out = (case out of
     Inl e \<Rightarrow> is_subclass (exc_kind e) RequestException \<and> \<not> is_subclass (exc_kind e) ResponseTooLarge
   | Inr re \<Rightarrow> should_retry_status r (rp_status (re_response re)))"

text \<open>The state in which attempt \<open>k + 1\<close> starts when the ones before were made.\<close>

primrec state_before :: "('s \<Rightarrow> 'o \<times> 's) \<Rightarrow> 's \<Rightarrow> nat \<Rightarrow> 's" where
  "state_before once s 0 = s"
| "state_before once s (Suc k) = state_before once (snd (once s)) k"

lemma send_loop_stop:
  "\<not> retriable r (fst (once s)) \<Longrightarrow> send_loop once r a left s = (fst (once s), [], snd (once s))"
proof -
  assume n: "\<not> retriable r (fst (once s))"
  obtain out s1 where o1: "once s = (out, s1)" by (cases "once s")
  show ?thesis using n unfolding retriable_def o1
    by (cases left; cases out) (auto simp: o1)
qed

lemma send_loop_again:
  "retriable r (fst (once s)) \<Longrightarrow> send_loop once r a (Suc left) s =
     (case send_loop once r (a + 1) left (snd (once s)) of (out, sleeps, s2) \<Rightarrow> (out, a # sleeps, s2))"
  by (auto simp: retriable_def split: prod.splits sum.splits)

text \<open>
  C6: \<open>send\<close> makes at most \<open>retry.count + 1\<close> attempts and always ends: it returns the
  outcome of the first attempt that is not worth another (a response whose status is not
  in the list, \<open>ResponseTooLarge\<close>, an error of another kind), or of the last one; it
  sleeps once after each earlier attempt, with the number of that attempt.
\<close>

theorem send_loop_attempts:
  "\<exists>k \<le> left. send_loop once r a left s =
       (fst (once (state_before once s k)), [a..<a + k], snd (once (state_before once s k)))
     \<and> (\<forall>i < k. retriable r (fst (once (state_before once s i))))
     \<and> (k < left \<longrightarrow> \<not> retriable r (fst (once (state_before once s k))))"
proof (induction left arbitrary: a s)
  case 0
  then show ?case by (auto split: prod.splits)
next
  case (Suc left)
  show ?case
  proof (cases "retriable r (fst (once s))")
    case False
    then show ?thesis by (intro exI [of _ 0]) (simp add: send_loop_stop del: send_loop.simps)
  next
    case True
    obtain k where k: "k \<le> left"
      "send_loop once r (a + 1) left (snd (once s)) =
         (fst (once (state_before once (snd (once s)) k)), [a + 1..<a + 1 + k],
          snd (once (state_before once (snd (once s)) k)))"
      "\<forall>i < k. retriable r (fst (once (state_before once (snd (once s)) i)))"
      "k < left \<longrightarrow> \<not> retriable r (fst (once (state_before once (snd (once s)) k)))"
      using Suc.IH by blast
    have "retriable r (fst (once (state_before once s i)))" if "i < Suc k" for i
      using that k(3) True by (cases i) auto
    with k True show ?thesis
      by (intro exI [of _ "Suc k"]) (simp add: send_loop_again upt_conv_Cons del: send_loop.simps)
  qed
qed

definition sample_retry :: retry where
  "sample_retry = \<lparr>rt_count = 2, rt_delay = 0, rt_jitter = 0, rt_exponential = False, rt_codes = [503]\<rparr>"

definition too_large_sender :: "nat \<Rightarrow> (exc + unit reply) \<times> nat" where
  "too_large_sender n = (Inl (bare_exc ResponseTooLarge), n + 1)"

theorem send_loop_attempts_witness:
  "send_loop too_large_sender sample_retry 1 2 0 = (Inl (bare_exc ResponseTooLarge), [], 1)"
proof -
  obtain k where k: "send_loop too_large_sender sample_retry 1 2 0 =
      (fst (too_large_sender (state_before too_large_sender 0 k)), [1..<1 + k],
       snd (too_large_sender (state_before too_large_sender 0 k)))"
    "\<forall>i < k. retriable sample_retry (fst (too_large_sender (state_before too_large_sender 0 i)))"
    using send_loop_attempts [of 2 too_large_sender sample_retry 1 0] by blast
  have "k = 0" using k(2) by (cases k) (auto simp: retriable_def too_large_sender_def bare_exc_def)
  with k(1) show ?thesis by (simp add: too_large_sender_def)
qed

section \<open>Redirects driven from Python\<close>

text \<open>A sender that counts its requests.\<close>

definition counting ::
  "((jar, 'h) prepared \<Rightarrow> 's \<Rightarrow> (exc + 'h reply) \<times> (jar, 'h) prepared \<times> 's)
   \<Rightarrow> (jar, 'h) prepared \<Rightarrow> nat \<times> 's \<Rightarrow> (exc + 'h reply) \<times> (jar, 'h) prepared \<times> nat \<times> 's" where
  "counting send p ns = (case ns of (n, s) \<Rightarrow> case send p s of (out, p', s') \<Rightarrow> (out, p', n + 1, s'))"

lemma is_redirect_content [simp]: "rp_get_content r = (x, r') \<Longrightarrow> is_redirect r' = is_redirect r"
  by (auto simp: rp_get_content_def is_redirect_def split: option.splits prod.splits sum.splits)

lemma follow_hops_spec:
  "follow_hops (counting send) left hist p re (n, s) = (out, m, s') \<Longrightarrow>
   n \<le> m \<and> m \<le> n + left
   \<and> (\<forall>re'. out = Inr re' \<longrightarrow> \<not> is_redirect (re_response re')
        \<and> (\<exists>hops own. length hops = m - n \<and> list_all is_redirect hops
             \<and> re_history re' = hist @ hops @ own))"
proof (induction left arbitrary: hist p re n s)
  case 0
  then show ?case
    by (subst (asm) follow_hops.simps) (auto split: if_splits intro: exI [of _ "[]"])
next
  case (Suc left)
  show ?case
  proof (cases "is_redirect (re_response re)")
    case False
    with Suc.prems show ?thesis
      by (subst (asm) follow_hops.simps) (auto split: if_splits intro: exI [of _ "[]"])
  next
    case True
    obtain c resp where c: "rp_get_content (re_response re) = (c, resp)" by fastforce
    show ?thesis
    proof (cases "\<exists>b hop. c = Inr b \<and> lift_exc (next_hop jar_copy resp p) = Inr hop")
      case False
      with Suc.prems True c show ?thesis
        by (subst (asm) follow_hops.simps) (auto split: sum.splits)
    next
      case True': True
      then obtain b hop where bh: "c = Inr b" "lift_exc (next_hop jar_copy resp p) = Inr hop" by blast
      obtain o1 p1 s1 where sd: "send hop s = (o1, p1, s1)" by (metis prod_cases3)
      show ?thesis
      proof (cases o1)
        case (Inl e)
        with Suc.prems True c bh sd show ?thesis
          by (subst (asm) follow_hops.simps) (auto simp: counting_def)
      next
        case (Inr re1)
        with Suc.prems True c bh sd
        have "follow_hops (counting send) left (hist @ [resp]) p1 re1 (n + 1, s1) = (out, m, s')"
          by (subst (asm) follow_hops.simps) (simp add: counting_def)
        note ih = Suc.IH [OF this]
        show ?thesis
        proof (intro conjI allI impI)
          fix re' assume "out = Inr re'"
          with ih obtain hops own where h: "length hops = m - (n + 1)" "list_all is_redirect hops"
            "re_history re' = (hist @ [resp]) @ hops @ own" "\<not> is_redirect (re_response re')" by auto
          have "is_redirect resp" using True c by simp
          with h ih show "\<exists>hops own. length hops = m - n \<and> list_all is_redirect hops \<and> re_history re' = hist @ hops @ own"
            by (intro exI [of _ "resp # hops"] exI [of _ own]) auto
          show "\<not> is_redirect (re_response re')" by (rule h(4))
        qed (use ih in auto)
      qed
    qed
  qed
qed

text \<open>
  C5: Redirects driven from Python end after at most \<open>max_redirects\<close> requests: a response
  that is returned is no redirect, and its history lists one redirect response per request
  made, in order, before the redirects Chromium followed itself.
\<close>

theorem follow_in_python_bounded:
  "case follow_in_python (counting send) limit p re (0, s) of
     (out, n, s') \<Rightarrow> int n \<le> max 0 limit
       \<and> (case out of Inl e \<Rightarrow> True
          | Inr re' \<Rightarrow> \<not> is_redirect (re_response re')
              \<and> list_all is_redirect (take n (re_history re')) \<and> n \<le> length (re_history re'))"
proof -
  obtain out n s' where f: "follow_in_python (counting send) limit p re (0, s) = (out, n, s')"
    by (metis prod_cases3)
  note sp = follow_hops_spec [OF f [unfolded follow_in_python_def]]
  show ?thesis
  proof (cases out)
    case (Inr re')
    with sp obtain hops own where "length hops = n" "list_all is_redirect hops" "re_history re' = hops @ own"
      "\<not> is_redirect (re_response re')" "n \<le> nat limit" by auto
    with f Inr show ?thesis by auto
  qed (use f sp in auto)
qed

section \<open>Engines, generations and cookie mirrors\<close>

text \<open>
  Every cached engine was built for a generation up to the current one, no two
  configurations share a slot, and mirrors belong to slots that were handed out.
\<close>

definition ss_inv :: "session \<Rightarrow> bool" where
  "ss_inv s \<longleftrightarrow> ec_inv (ss_engines s)
     \<and> (\<forall>cfg i. od_get (ec_slots (ss_engines s)) cfg = Some i \<longrightarrow>
           cfg_generation cfg \<le> ss_generation s \<and> i < ss_next_slot s)
     \<and> (\<forall>c d i. od_get (ec_slots (ss_engines s)) c = Some i \<longrightarrow>
           od_get (ec_slots (ss_engines s)) d = Some i \<longrightarrow> c = d)
     \<and> (\<forall>i. od_get (ss_mirrors s) i \<noteq> None \<longrightarrow> i < ss_next_slot s)"

definition slot_ok :: "session \<Rightarrow> slot \<Rightarrow> bool" where
  "slot_ok s sl \<longleftrightarrow> snd sl < ss_next_slot s \<and> cfg_generation (fst sl) \<le> ss_generation s"

lemma ec_reset_slots: "od_get (ec_slots (ec_reset_after_fork pid c)) k = Some i \<Longrightarrow> od_get (ec_slots c) k = Some i"
  by (auto simp: ec_reset_after_fork_def od_get_def split: if_splits)

lemma ec_get_slots:
  assumes "od_get (ec_slots (snd (ec_get pid built cfg c))) k = Some i"
  shows "od_get (ec_slots c) k = Some i \<or> (k = cfg \<and> built = Inr i \<and> fst (ec_get pid built cfg c) = Inr i)"
  using assms ec_reset_slots [of pid c k i]
  by (auto simp: ec_get_def Let_def split_beta ec_evict_slots od_get_put split: if_splits option.splits sum.splits)

lemma ec_get_answer:
  "fst (ec_get pid built cfg c) = Inr i \<Longrightarrow> od_get (ec_slots c) cfg = Some i \<or> built = Inr i"
  using ec_reset_slots [of pid c cfg i]
  by (auto simp: ec_get_def raise_exc_def Let_def split_beta split: if_splits option.splits sum.splits)

lemma get_slot_spec:
  assumes inv: "ss_inv s" and g: "cfg_generation cfg \<le> ss_generation s"
    and get: "get_slot pid build cfg s = (out, s')"
  shows "ss_inv s' \<and> ss_generation s' = ss_generation s \<and> ss_mirrors s' = ss_mirrors s
    \<and> ss_cookies s' = ss_cookies s \<and> ss_set s' = ss_set s \<and> ss_next_slot s \<le> ss_next_slot s'
    \<and> (\<forall>r. out = Inr r \<longrightarrow> fst r = cfg \<and> slot_ok s' r
          \<and> (od_get (ec_slots (ss_engines s)) cfg = None \<longrightarrow> snd r = ss_next_slot s))"
proof -
  let ?built = "(case build cfg of Inl e \<Rightarrow> Inl e | Inr _ \<Rightarrow> Inr (ss_next_slot s)) :: exc + nat"
  let ?n = "ss_next_slot s"
  obtain res c where ec: "ec_get pid ?built cfg (ss_engines s) = (res, c)" by fastforce
  have built: "?built = Inr i \<Longrightarrow> i = ?n" for i by (auto split: sum.splits)
  have inv_c: "ec_inv c" using ec_inv_get [of "ss_engines s" pid ?built cfg] inv ec by (simp add: ss_inv_def)
  have slots: "od_get (ec_slots (ss_engines s)) k = Some i \<or> (k = cfg \<and> i = ?n \<and> res = Inr i)"
    if "od_get (ec_slots c) k = Some i" for k i
    using ec_get_slots [of pid ?built cfg "ss_engines s" k i] that ec built by fastforce
  have old: "cfg_generation k \<le> ss_generation s \<and> i < ?n"
    if "od_get (ec_slots (ss_engines s)) k = Some i" for k i
    using inv that by (auto simp: ss_inv_def)
  show ?thesis
  proof (cases res)
    case (Inl e)
    then have s': "s' = s\<lparr>ss_engines := c\<rparr>" "out = Inl e" using get ec by (auto simp: get_slot_def)
    have "od_get (ec_slots c) k = Some i \<Longrightarrow> od_get (ec_slots (ss_engines s)) k = Some i" for k i
      using slots Inl by blast
    with inv inv_c s' show ?thesis unfolding ss_inv_def by (simp; blast)
  next
    case (Inr i)
    then have s': "s' = s\<lparr>ss_engines := c, ss_next_slot := (if i = ?n then i + 1 else ?n)\<rparr>" "out = Inr (cfg, i)"
      using get ec by (auto simp: get_slot_def)
    have i: "od_get (ec_slots (ss_engines s)) cfg = Some i \<or> i = ?n"
      using ec_get_answer [of pid ?built cfg "ss_engines s" i] ec Inr built by auto
    then have next_slot: "?n \<le> ss_next_slot s'" "i < ss_next_slot s'" using s' old by auto
    have fresh: "k = cfg" if "od_get (ec_slots c) k = Some ?n" for k
      using slots [OF that] old by blast
    have inj: "k = l" if "od_get (ec_slots c) k = Some j" "od_get (ec_slots c) l = Some j" for k l j
    proof (cases "j = ?n")
      case True
      with that fresh show ?thesis by blast
    next
      case False
      with that slots have "od_get (ec_slots (ss_engines s)) k = Some j" "od_get (ec_slots (ss_engines s)) l = Some j"
        by blast+
      with inv show ?thesis unfolding ss_inv_def by blast
    qed
    have bound: "cfg_generation k \<le> ss_generation s \<and> j < ss_next_slot s'"
      if "od_get (ec_slots c) k = Some j" for k j
      using slots [OF that] old [of k j] g next_slot Inr by auto
    have mirrors: "j < ss_next_slot s'" if "od_get (ss_mirrors s) j \<noteq> None" for j
      using inv that next_slot unfolding ss_inv_def by fastforce
    have "ss_inv s'" using inv_c inj bound mirrors s' unfolding ss_inv_def by (simp; blast)
    with s' i next_slot g show ?thesis by (auto simp: slot_ok_def)
  qed
qed

lemma ss_inv_raise:
  "ss_inv s \<Longrightarrow> ss_inv (s\<lparr>ss_generation := ss_generation s + 1\<rparr>)"
  unfolding ss_inv_def by (simp, meson le_SucI)

text \<open>A configuration of the next generation is not cached, so its slot is new and empty.\<close>

lemma next_generation_slot:
  assumes inv: "ss_inv s"
    and get: "get_slot pid build (config_replace (ss_generation s + 1) cfg) (s\<lparr>ss_generation := ss_generation s + 1\<rparr>)
                = (out, s')"
  shows "ss_inv s' \<and> ss_generation s' = ss_generation s + 1 \<and> ss_mirrors s' = ss_mirrors s \<and> ss_next_slot s \<le> ss_next_slot s'
    \<and> ss_cookies s' = ss_cookies s \<and> ss_set s' = ss_set s
    \<and> (\<forall>r. out = Inr r \<longrightarrow> slot_ok s' r \<and> snd r = ss_next_slot s \<and> mirror_of s' (snd r) = jar_empty)"
proof -
  let ?cfg = "config_replace (ss_generation s + 1) cfg"
  have "od_get (ec_slots (ss_engines s)) ?cfg = None"
  proof (rule ccontr)
    assume "od_get (ec_slots (ss_engines s)) ?cfg \<noteq> None"
    then obtain i where "od_get (ec_slots (ss_engines s)) ?cfg = Some i" by blast
    with inv have "cfg_generation ?cfg \<le> ss_generation s" unfolding ss_inv_def by blast
    then show False by simp
  qed
  moreover have "od_get (ss_mirrors s) (ss_next_slot s) = None"
    using inv unfolding ss_inv_def by blast
  ultimately show ?thesis
    using get_slot_spec [OF ss_inv_raise [OF inv] _ get] by (auto simp: mirror_of_def)
qed

text \<open>
  The cookie line of a request: Chromium sends its own store's line whenever the store has
  one for the URL, and the request's header otherwise.
\<close>

definition wire_cookie ::
  "(jar \<Rightarrow> string \<Rightarrow> string option) \<Rightarrow> session \<Rightarrow> slot \<Rightarrow> (jar, 'h) prepared \<Rightarrow> string option" where
  "wire_cookie hdr s sl p =
     (case hdr (mirror_of s (snd sl)) (pr_url p) of
        Some line \<Rightarrow> Some line | None \<Rightarrow> h_get (pr_headers p) ''Cookie'')"

lemma ss_inv_discard: "ss_inv s \<Longrightarrow> ss_inv (s\<lparr>ss_engines := ec_discard cfg (ss_engines s)\<rparr>)"
proof -
  assume inv: "ss_inv s"
  have "od_get (ec_slots (ec_discard cfg (ss_engines s))) k = Some i \<Longrightarrow> od_get (ec_slots (ss_engines s)) k = Some i" for k i
    by (auto simp: ec_discard_def od_get_del split: if_splits)
  then show ?thesis using inv ec_inv_discard unfolding ss_inv_def by (simp; blast)
qed

lemma resolve_cookies_slot:
  assumes "ss_inv s" and "slot_ok s sl"
    and "resolve_cookies hdr pid build sl p discard s = (out, p', s')"
  shows "ss_inv s' \<and> ss_generation s \<le> ss_generation s' \<and> ss_next_slot s \<le> ss_next_slot s'
    \<and> ss_set s' = ss_set s \<and> (\<forall>r. out = Inr r \<longrightarrow> slot_ok s' r)"
proof -
  let ?s1 = "s\<lparr>ss_generation := ss_generation s + 1\<rparr>"
  obtain res s2 where g: "get_slot pid build (config_replace (ss_generation s + 1) (fst sl)) ?s1 = (res, s2)"
    by fastforce
  note new = next_generation_slot [OF assms(1) g]
  have disc: "ss_inv (s2\<lparr>ss_engines := ec_discard (fst sl) (ss_engines s2)\<rparr>)"
    using new by (intro ss_inv_discard) simp
  show ?thesis
  proof (cases discard)
    case True
    with assms(3) g new disc show ?thesis
      by (auto simp: resolve_cookies_def Let_def slot_ok_def split: sum.splits if_splits)
  next
    case False
    with assms g new show ?thesis
      by (auto simp: resolve_cookies_def Let_def split: sum.splits if_splits)
  qed
qed

text \<open>
  The two-store cookie policy: whichever cookies the engine's own store already holds,
  the line that goes out is the one the jar asks for; a request that asks for none keeps
  the caller's own \<open>Cookie\<close> header, and with \<open>discard_cookies\<close> none is sent.
\<close>

theorem cookie_line_follows_jar:
  assumes "ss_inv s" and "slot_ok s sl" and "h_wf (pr_headers p)"
    and "\<And>url. hdr jar_empty url = None"
    and "hdr (case pr_cookies p of Some j \<Rightarrow> j | None \<Rightarrow> ss_cookies s) (pr_url p) \<noteq> Some []"
    and "resolve_cookies hdr pid build sl p discard s = (Inr sl', p', s')"
  shows "wire_cookie hdr s' sl' p' =
    (if discard then None
     else case hdr (case pr_cookies p of Some j \<Rightarrow> j | None \<Rightarrow> ss_cookies s) (pr_url p) of
            Some line \<Rightarrow> Some line | None \<Rightarrow> h_get (pr_headers p) ''Cookie'')"
proof -
  let ?s1 = "s\<lparr>ss_generation := ss_generation s + 1\<rparr>"
  let ?hdr = "\<lambda>url. hdr (case pr_cookies p of Some j \<Rightarrow> j | None \<Rightarrow> ss_cookies s) url"
  obtain res s2 where g: "get_slot pid build (config_replace (ss_generation s + 1) (fst sl)) ?s1 = (res, s2)"
    by fastforce
  note new = next_generation_slot [OF assms(1) g]
  have fresh: "mirror_of s2 (snd sl') = jar_empty" if "res = Inr sl'" using new that by blast
  have mirror_eng: "mirror_of (t\<lparr>ss_engines := e\<rparr>) i = mirror_of t i" for t e i
    by (simp add: mirror_of_def)
  show ?thesis
  proof (cases discard)
    case True
    with assms(6) g have r: "res = Inr sl'" "p' = p\<lparr>pr_headers := h_pop ''Cookie'' (pr_headers p)\<rparr>"
      "\<exists>e. s' = s2\<lparr>ss_engines := e\<rparr> \<or> s' = s2"
      by (auto simp: resolve_cookies_def Let_def split: sum.splits if_splits)
    with new have "mirror_of s' (snd sl') = jar_empty" by (auto simp: mirror_eng)
    with r True assms(3,4) show ?thesis by (simp add: wire_cookie_def h_get_pop hop_keys)
  next
    case False
    show ?thesis
    proof (cases "?hdr (pr_url p)")
      case None
      with False assms(3,4,6) g fresh show ?thesis
        by (auto simp: resolve_cookies_def Let_def wire_cookie_def split: sum.splits if_splits)
    next
      case (Some line)
      then obtain c d where "line = c # d" using assms(5) by (cases line) auto
      with Some False assms(3,4,6) g fresh show ?thesis
        by (auto simp: resolve_cookies_def Let_def wire_cookie_def h_get_setitem hop_keys split: sum.splits if_splits)
    qed
  qed
qed

definition sample_settings :: settings where
  "sample_settings = \<lparr>st_impersonate = None, st_http_version = None, st_proxy = None, st_proxies = [],
     st_proxy_auth = None, st_verify = VBool True, st_timeout = NoTimeout, st_headers = h_empty Utf8,
     st_params = [], st_stream = False, st_max_redirects = 5, st_trust_env = False,
     st_allow_redirects = False, st_max_response_bytes = LimitNone, st_base_url = [],
     st_default_encoding = ''utf-8'', st_discard_cookies = False, st_raise_for_status = False,
     st_retry = sample_retry, st_cache = True, st_user_agent = None, st_accept_language = None,
     st_header_order = [], st_form_boundary = None\<rparr>"

definition edited_jar :: jar where
  "edited_jar = jar_set_cookie (plain_cookie ''a'' (Some ''1'')) jar_empty"

definition sample_session :: session where
  "sample_session = \<lparr>ss_set = sample_settings, ss_cookies = edited_jar, ss_cookie_revision = 1,
     ss_engines = ec_init 8 1, ss_mirrors = [(0, edited_jar)], ss_next_slot = 1, ss_generation = 0,
     ss_closed = False, ss_adapters = mount ''http://'' None (mount ''https://'' None [])\<rparr>"

text \<open>A cookie line that depends on the jar only through its being empty.\<close>

definition sample_line :: "jar \<Rightarrow> string \<Rightarrow> string option" where
  "sample_line j url = (if jar_store j = [] then None else Some (if jar_revision j = 1 then ''a=1'' else ''a=2''))"

lemma ss_inv_sample: "ss_inv sample_session" "slot_ok sample_session (example_config, 0)"
  by (auto simp: ss_inv_def slot_ok_def sample_session_def example_config_def ec_inv_init)
    (auto simp: ec_init_def od_get_def split: if_splits)

text \<open>The caller's jar differs from the engine's store, so the engine is replaced.\<close>

theorem cookie_line_follows_jar_witness:
  "\<exists>sl' p' s'. resolve_cookies sample_line 1 (\<lambda>_. Inr ()) (example_config, 0)
       ((pr_empty :: (jar, unit) prepared)\<lparr>pr_cookies := Some (edited_jar\<lparr>jar_revision := 2\<rparr>)\<rparr>) False sample_session
       = (Inr sl', p', s')
     \<and> snd sl' = 1 \<and> wire_cookie sample_line s' sl' p' = Some ''a=2''"
proof -
  let ?p = "(pr_empty :: (jar, unit) prepared)\<lparr>pr_cookies := Some (edited_jar\<lparr>jar_revision := 2\<rparr>)\<rparr>"
  have store: "jar_store edited_jar \<noteq> []" "jar_revision edited_jar = 1"
    by (simp_all add: edited_jar_def jar_set_cookie_def store_put_def od_put_def Let_def jar_empty_def)
  obtain sl' p' s' where r: "resolve_cookies sample_line 1 (\<lambda>_. Inr ()) (example_config, 0) ?p False sample_session
       = (Inr sl', p', s')" "snd sl' = 1"
    using store
    by (auto simp: resolve_cookies_def sample_line_def mirror_of_def sample_session_def Let_def get_slot_def ec_get_def
        ec_init_def ec_reset_after_fork_def od_get_def od_put_def)
  have "wire_cookie sample_line s' sl' p' = Some ''a=2''"
    using cookie_line_follows_jar [OF ss_inv_sample _ _ _ r(1)] store
    by (simp add: sample_line_def jar_empty_def pr_empty_def wf_intros)
  with r show ?thesis by blast
qed

section \<open>The invariant of a session\<close>

lemma ss_inv_init:
  "session_init ja3 akamai perk refused extra_fp imp version rt jar max_engines pid base = Inr s \<Longrightarrow> ss_inv s"
  by (auto simp: session_init_def bind_res_Inr ss_inv_def ec_inv_init split: if_splits)
     (auto simp: ec_init_def)

lemma ss_inv_close: "ss_inv s \<Longrightarrow> ss_inv (session_close s)"
  using ec_inv_close [of "ss_engines s"] by (auto simp: ss_inv_def session_close_def) (auto simp: ec_close_def)

lemma ss_inv_revision [simp]: "ss_inv (s\<lparr>ss_cookie_revision := r\<rparr>) = ss_inv s"
  by (simp add: ss_inv_def)

lemma ss_inv_absorb_one:
  "ss_inv s \<and> i < ss_next_slot s \<Longrightarrow> absorb_one ex i uh (j, s) = (j', s') \<Longrightarrow>
   ss_inv s' \<and> i < ss_next_slot s' \<and> ss_set s' = ss_set s"
  by (auto simp: absorb_one_def ss_inv_def Let_def od_get_put split: prod.splits if_splits)

lemma ss_inv_absorb_fold:
  "ss_inv s \<and> i < ss_next_slot s \<Longrightarrow> fold (absorb_one ex i) uhs (j, s) = (j', s') \<Longrightarrow>
   ss_inv s' \<and> ss_set s' = ss_set s"
proof (induction uhs arbitrary: j s)
  case (Cons uh uhs)
  obtain j1 s1 where a: "absorb_one ex i uh (j, s) = (j1, s1)" by fastforce
  with Cons.prems(2) have "fold (absorb_one ex i) uhs (j1, s1) = (j', s')" by simp
  with ss_inv_absorb_one [OF Cons.prems(1) a] Cons.IH show ?case by auto
qed simp

lemma ss_inv_absorb:
  assumes "ss_inv s" and "i < ss_next_slot s"
  shows "ss_inv (snd (absorb_cookies ex i resp discard j s))
    \<and> ss_set (snd (absorb_cookies ex i resp discard j s)) = ss_set s"
proof (cases discard)
  case False
  obtain j' s' where f: "fold (absorb_one ex i) (rp_history_headers resp @ [(rp_url resp, rp_headers resp)]) (j, s)
      = (j', s')" by fastforce
  with ss_inv_absorb_fold [OF conjI [OF assms] f] False show ?thesis
    by (simp add: absorb_cookies_def del: fold_append)
qed (simp add: absorb_cookies_def assms)

lemma ss_inv_finalize:
  fixes p :: "(jar, 'h) prepared"
  assumes "ss_inv s" and "i < ss_next_slot s" and "finalize ex resp p status raw hops i discard body s = (out, s')"
  shows "ss_inv s' \<and> ss_set s' = ss_set s"
proof -
  have "\<exists>r. snd (finalize ex resp p status raw hops i discard body s :: (exc + 'h reply) \<times> session)
      = snd (absorb_cookies ex i r discard jar_empty s)"
    by (simp add: finalize_def Let_def split_beta) blast
  with assms(3) obtain r where "s' = snd (absorb_cookies ex i r discard jar_empty s)"
    by (metis snd_conv)
  with ss_inv_absorb [OF assms(1,2)] show ?thesis by blast
qed

lemma engine_config_generation:
  "engine_config read_file imp proxy verify http_version s = Inr cfg \<Longrightarrow> cfg_generation cfg = ss_generation s"
  by (auto simp: engine_config_def bind_res_Inr Let_def split_beta)

lemma ss_inv_slot_for:
  assumes "ss_inv s" and "slot_for env read_file pid build opts url s = (out, s')"
  shows "ss_inv s' \<and> ss_set s' = ss_set s \<and> (\<forall>r. out = Inr r \<longrightarrow> slot_ok s' r)"
proof (cases "bind_res (ensure_open s) (\<lambda>_.
    bind_res (lift_exc (effective_proxy env (st_proxies (ss_set s)) (st_proxy (ss_set s)) (st_trust_env (ss_set s))
             url (op_proxy opts) (op_proxies opts))) (\<lambda>px.
           lift_exc (engine_config read_file (op_impersonate opts) px (op_verify opts) (op_http_version opts) s)))")
  case (Inl e)
  with assms show ?thesis by (auto simp: slot_for_def)
next
  case (Inr cfg)
  then have "cfg_generation cfg = ss_generation s"
    by (auto simp: bind_res_Inr lift_exc_def engine_config_generation split: sum.splits)
  moreover have "get_slot pid build cfg s = (out, s')" using assms(2) Inr by (simp add: slot_for_def)
  ultimately show ?thesis using get_slot_spec [OF assms(1), of cfg pid build out s'] by simp
qed

lemma ss_inv_run_native:
  assumes "ss_inv s" and "slot_ok s sl" and "run_native ex res opts p sl discard s = (out, s')"
  shows "ss_inv s' \<and> ss_set s' = ss_set s"
  using assms by (cases res) (auto simp: run_native_def slot_ok_def split: sum.splits dest: ss_inv_finalize)

lemma ss_inv_send_once:
  assumes "ss_inv s" and "send_once hdr ex env read_file pid build native opts p s = (out, p', s')"
  shows "ss_inv s' \<and> ss_set s' = ss_set s"
proof -
  let ?discard = "case op_discard_cookies opts of None \<Rightarrow> st_discard_cookies (ss_set s) | Some b \<Rightarrow> b"
  obtain r1 s1 where sl: "slot_for env read_file pid build opts (pr_url p) s = (r1, s1)" by fastforce
  note i1 = ss_inv_slot_for [OF assms(1) sl]
  show ?thesis
  proof (cases r1)
    case (Inl e)
    with assms(2) sl i1 show ?thesis by (simp add: send_once_def)
  next
    case (Inr slot)
    obtain r2 p2 s2 where rs: "resolve_cookies hdr pid build slot p ?discard s1 = (r2, p2, s2)"
      by (metis prod_cases3)
    have i2: "ss_inv s2 \<and> ss_set s2 = ss_set s1 \<and> (\<forall>r. r2 = Inr r \<longrightarrow> slot_ok s2 r)"
      using resolve_cookies_slot [OF _ _ rs] i1 Inr by simp
    show ?thesis
    proof (cases r2)
      case (Inl e)
      with assms(2) sl Inr rs i1 i2 show ?thesis by (simp add: send_once_def)
    next
      case (Inr slot2)
      with i2 have ok: "ss_inv s2" "slot_ok s2 slot2" by auto
      obtain out3 s3 where rn: "run_native ex (native slot2 p2 (case op_native_redirects opts of None \<Rightarrow> True | Some b \<Rightarrow> b))
          opts p2 slot2 ?discard s2 = (out3, s3)" by fastforce
      note ss_inv_run_native [OF ok rn]
      with assms(2) sl \<open>r1 = Inr slot\<close> Inr rs i1 i2 rn show ?thesis
        by (auto simp: send_once_def Let_def split: sum.splits)
    qed
  qed
qed

text \<open>What a loop of sends keeps when one send keeps it.\<close>

lemma send_loop_keeps:
  assumes "\<And>s out s'. once s = (out, s') \<Longrightarrow> P s \<Longrightarrow> P s'"
  shows "P s \<Longrightarrow> send_loop once r a left s = (out, sleeps, s') \<Longrightarrow> P s'"
proof (induction left arbitrary: a s sleeps)
  case 0
  then show ?case using assms by (auto split: prod.splits)
next
  case (Suc left)
  obtain out1 s1 where o1: "once s = (out1, s1)" by (cases "once s")
  then have p1: "P s1" using assms Suc.prems(1) by blast
  show ?case
  proof (cases "retriable r (fst (once s))")
    case True
    obtain out2 sl2 s2 where "send_loop once r (a + 1) left s1 = (out2, sl2, s2)" by (metis prod_cases3)
    with Suc.IH [OF p1, of "a + 1"] Suc.prems(2) True o1 show ?thesis
      by (simp add: send_loop_again del: send_loop.simps)
  next
    case False
    with Suc.prems(2) p1 o1 show ?thesis by (simp add: send_loop_stop del: send_loop.simps)
  qed
qed

lemma follow_hops_keeps:
  assumes "\<And>p s out p' s'. send p s = (out, p', s') \<Longrightarrow> P s \<Longrightarrow> P s'"
  shows "P s \<Longrightarrow> follow_hops send left hist p re s = (out, s') \<Longrightarrow> P s'"
proof (induction left arbitrary: hist p re s)
  case 0
  then show ?case by (subst (asm) follow_hops.simps) (auto split: if_splits)
next
  case (Suc left)
  from Suc.prems show ?case
    by (subst (asm) follow_hops.simps)
      (auto split: if_splits prod.splits sum.splits intro: Suc.IH dest: assms)
qed

text \<open>Everything outside the session, fixed while it lives.\<close>

record 'h world =
  w_cookie_header :: "jar \<Rightarrow> string \<Rightarrow> string option"
  w_extract :: "string \<Rightarrow> string list \<Rightarrow> jar"
  w_env :: environ
  w_read_file :: "string \<Rightarrow> string option"
  w_build :: "config \<Rightarrow> exc + unit"
  w_native :: "slot \<Rightarrow> (jar, 'h) prepared \<Rightarrow> bool \<Rightarrow> native_result"
  w_hook :: "'h \<Rightarrow> 'h reply \<Rightarrow> 'h reply option"
  w_adapter :: "nat \<Rightarrow> options \<Rightarrow> (jar, 'h) prepared \<Rightarrow> exc + 'h reply"

definition world_once :: "'h world \<Rightarrow> int \<Rightarrow> options \<Rightarrow> 'h once" where
  "world_once w pid opts = send_once (w_cookie_header w) (w_extract w) (w_env w) (w_read_file w) pid
     (w_build w) (w_native w) opts"

text \<open>What callers do to a session; \<open>int\<close> is the process they run in.\<close>

datatype 'h session_op =
    Send int options "(jar, 'h) prepared"
  | AsyncSend int options "(jar, 'h) prepared"
  | CloseSession

fun session_step :: "'h world \<Rightarrow> 'h session_op \<Rightarrow> session \<Rightarrow> session" where
  "session_step w (Send pid opts p) s = snd (session_send (w_adapter w) (world_once w pid) (w_hook w) opts p s)"
| "session_step w (AsyncSend pid opts p) s = snd (async_session_send (world_once w pid) (w_hook w) opts p s)"
| "session_step w CloseSession s = session_close s"

definition session_run :: "'h world \<Rightarrow> 'h session_op list \<Rightarrow> session \<Rightarrow> session" where
  "session_run w ops s = fold (session_step w) ops s"

lemma ss_inv_send_with:
  assumes "ss_inv s"
  shows "ss_inv (snd (send_with (world_once w pid opts) run opts' p s))"
proof -
  let ?r = "case op_retry opts' of Some r \<Rightarrow> r | None \<Rightarrow> st_retry (ss_set s)"
  let ?once = "world_once w pid opts"
  have once: "ss_inv t'" if "?once q t = (out, q', t')" "ss_inv t" for q t out q' t'
    using ss_inv_send_once [OF that(2) that(1) [unfolded world_once_def]] by simp
  obtain out sleeps p1 s1 where sl: "send_loop (\<lambda>(p, s). ?once p s) ?r 1 (rt_count ?r) (p, s) = (out, sleeps, p1, s1)"
    by (metis prod_cases4)
  have i1: "ss_inv s1"
    using send_loop_keeps [of "\<lambda>(p, s). ?once p s" "\<lambda>(p, s). ss_inv s", OF _ _ sl] once assms by auto
  have i2: "ss_inv t" if "follow_in_python ?once n p1 re s1 = (x, t)" for n re x t
    using follow_hops_keeps [where P = ss_inv, OF _ i1] that once unfolding follow_in_python_def by blast
  show ?thesis
    using sl i1 i2 by (auto simp: send_with_def Let_def split: sum.splits prod.splits)
qed

interpretation sm: safe_machine "session_step w" ss_inv for w
proof
  show "ss_inv s \<Longrightarrow> ss_inv (session_step w op s)" for op s
    by (cases op) (auto simp: session_send_def async_session_send_def ss_inv_send_with ss_inv_close
        split: sum.splits option.splits)
qed

text \<open>
  C1: Whatever a session is asked for, from its construction on: the engine cache stays
  within its bound, two configurations never share an engine (and so never share the
  mirror of its cookie store), no engine belongs to a generation that is not reached yet,
  and a closed session refuses every further request.
\<close>

theorem session_engines_never_shared:
  "case session_init ja3 akamai perk refused extra_fp imp version rt jar max_engines pid base of
     Inl e \<Rightarrow> True
   | Inr s0 \<Rightarrow>
       let s = session_run w ops s0; slots = ec_slots (ss_engines s) in
       length slots \<le> ec_max (ss_engines s)
       \<and> inj_on (od_get slots) (set (od_keys slots))
       \<and> list_all (\<lambda>c. cfg_generation c \<le> ss_generation s) (od_keys slots)
       \<and> fst (session_send (w_adapter w) (world_once w pid') (w_hook w) opts p (session_close s))
           = raise_exc SessionClosed ''Session is closed''"
proof (cases "session_init ja3 akamai perk refused extra_fp imp version rt jar max_engines pid base")
  case (Inr s0)
  let ?s = "session_run w ops s0"
  let ?slots = "ec_slots (ss_engines ?s)"
  have shut: "fst (session_send (w_adapter w) (world_once w pid') (w_hook w) opts p (session_close s))
      = raise_exc SessionClosed ''Session is closed''" for s
    by (simp add: session_send_def session_close_def ensure_open_def raise_exc_def)
  have inv: "ss_inv ?s"
    using sm.inv_run [OF ss_inv_init [OF Inr], of w ops] by (simp add: session_run_def sm.run_def)
  then have "length ?slots \<le> ec_max (ss_engines ?s)"
    using ec_inv_len [of "ss_engines ?s"] by (simp add: ss_inv_def ec_len_def ec_inv_def)
  moreover have "inj_on (od_get ?slots) (set (od_keys ?slots))"
    using inv unfolding ss_inv_def by (intro inj_onI) (auto simp: od_keys_get)
  moreover have "list_all (\<lambda>c. cfg_generation c \<le> ss_generation ?s) (od_keys ?slots)"
    using inv unfolding ss_inv_def by (auto simp: list_all_iff od_keys_get)
  ultimately show ?thesis unfolding Inr sum.case Let_def using shut by blast
qed simp

section \<open>The redirect settings of a session\<close>

text \<open>
  The redirect settings of a session are not what its requests use: \<open>max_redirects\<close>
  has no effect on a call that does not repeat it (Chromium follows under its own limit),
  and a session with \<open>allow_redirects=False\<close> still follows when a prepared request is
  sent.
\<close>

theorem session_redirect_settings_unused:
  assumes "co_max_redirects c = None" and "call_to_options st c = Inr o1"
    and "op_native_redirects o2 = None" and "op_python_redirects o2 = None"
    and "\<not> st_allow_redirects st" and "with_session_defaults st o2 = Inr o3"
  shows "op_python_redirects o1 = Some False
    \<and> op_native_redirects o1 = Some (case co_allow_redirects c of None \<Rightarrow> False | Some b \<Rightarrow> b)
    \<and> op_native_redirects o3 = Some True"
proof -
  from assms(2) have "op_python_redirects o1 = Some False
      \<and> op_native_redirects o1 = Some (case co_allow_redirects c of None \<Rightarrow> False | Some b \<Rightarrow> b)"
    using assms(1,5) unfolding call_to_options_def Let_def drive_redirects_in_python_def bind_res_Inr
    by (elim exE conjE) (simp, hypsubst, simp split: option.split)
  moreover from assms(6) have "op_native_redirects o3 = Some True"
    using assms(3,4,5) unfolding with_session_defaults_def Let_def drive_redirects_in_python_def bind_res_Inr
    by (elim exE conjE) (simp, hypsubst, simp)
  ultimately show ?thesis by simp
qed

definition plain_call :: call_options where
  "plain_call = \<lparr>co_allow_redirects = Some True, co_max_redirects = None, co_stream = None,
     co_limit = LimitNone, co_timeout = NoTimeout, co_retry = RetryNone, co_rest = no_options\<rparr>"

theorem session_redirect_settings_unused_witness:
  "\<exists>o1 o3. call_to_options sample_settings plain_call = Inr o1 \<and> op_native_redirects o1 = Some True
     \<and> with_session_defaults sample_settings no_options = Inr o3 \<and> op_native_redirects o3 = Some True"
proof -
  obtain o1 where o1: "call_to_options sample_settings plain_call = Inr o1"
    by (simp add: call_to_options_def plain_call_def Let_def)
  obtain o3 where o3: "with_session_defaults sample_settings no_options = Inr o3"
    by (simp add: with_session_defaults_def no_options_def Let_def)
  from session_redirect_settings_unused [OF _ o1 _ _ _ o3] o1 o3 show ?thesis
    by (simp add: plain_call_def no_options_def sample_settings_def)
qed

end
