(* ===== verification/Session_Calls.thy ===== *)
theory Session_Calls
  imports Sessions
begin

text \<open>
  The way into a session of
  \<open>bindings/python/chrome_client/_python_impl/sessions.py\<close>: the keywords of
  \<open>request()\<close> and of the verbs, \<open>_prepare_call\<close>, \<open>prepare_request\<close>,
  \<open>merge_environment_settings\<close>, the WebSocket handshake, \<open>resolve_redirects\<close>, and the
  asynchronous sending with its admission gate.

  The session's \<open>auth\<close> and \<open>hooks\<close> hold callables and are arguments, as are the
  \<open>netrc\<close> lookup, the \<open>mimetypes\<close> table and the random multipart boundary.
\<close>

section \<open>A call\<close>

datatype call_params = ParamsDict "(string, mvalue option) odict" | ParamsOther params_arg

type_synonym 'h authenticator = "(jar, 'h) prepared \<Rightarrow> (jar, 'h) prepared"

record 'h call =
  cl_method :: "string option"
  cl_url :: string
  cl_params :: call_params
  cl_headers :: "header_src option"
  cl_cookies :: "(string, string option) odict + jar"
  cl_files :: "file_entry list pairs_arg"
  cl_data :: body_source
  cl_json :: "string option"
  cl_content :: "body_source option"
  cl_multipart :: "mime option"
  cl_auth :: "'h authenticator auth_arg"
  cl_hooks :: "(string \<times> 'h hook_arg) list"
  cl_quote :: "bool option"
  cl_referer :: "pyval option"
  cl_accept_encoding :: "pyval option"
  cl_ja3 :: fp_value
  cl_akamai :: fp_value
  cl_perk :: fp_value
  cl_extra_fp :: "(string, fp_value) odict option"
  cl_refused :: "bool list"
  cl_transport :: call_options

text \<open>
  \<open>allow_redirects=\<close>: the signature's default is \<open>True\<close> and \<open>head()\<close> sets
  \<open>False\<close>; an explicit \<open>None\<close> is what reaches the session's own setting.
\<close>

definition verb_allow :: "bool \<Rightarrow> bool option option \<Rightarrow> bool option" where
  "verb_allow is_head given = (case given of Some v \<Rightarrow> v | None \<Rightarrow> Some (\<not> is_head))"

text \<open>\<open>Request\<close> with the two attributes the session adds.\<close>

record 'h request =
  rq_method :: "string option"
  rq_url :: string
  rq_headers :: "headers option"
  rq_files :: "file_entry list pairs_arg"
  rq_data :: body_source
  rq_json :: "string option"
  rq_params :: call_params
  rq_auth :: "'h authenticator auth_arg"
  rq_cookies :: "(string, string option) odict + jar"
  rq_hooks :: "'h hooks"
  rq_quote :: "bool option"
  rq_header_order :: "string list"

definition register_hooks :: "(string \<times> 'h hook_arg) list \<Rightarrow> exc_class + 'h hooks" where
  "register_hooks args =
     fold (\<lambda>(event, a) acc. bind_res acc (register_hook event a)) args (Inr no_hooks)"

text \<open>The headers a call gives, with \<open>referer=\<close> and \<open>accept_encoding=\<close>.\<close>

definition call_headers :: "'h call \<Rightarrow> headers option" where
  "call_headers c =
     (let h0 = map_option (\<lambda>src. h_init (Some src) Utf8) (cl_headers c);
          h1 = (case cl_referer c of None \<Rightarrow> h0
                | Some v \<Rightarrow> Some (h_setdefault ''Referer'' v (case h0 of Some h \<Rightarrow> h | None \<Rightarrow> h_empty Utf8)));
          h2 = (case cl_accept_encoding c of None \<Rightarrow> h1
                | Some v \<Rightarrow> Some (h_setitem ''Accept-Encoding'' v (case h1 of Some h \<Rightarrow> h | None \<Rightarrow> h_empty Utf8)))
      in h2)"

definition with_content_type :: "string \<Rightarrow> headers option \<Rightarrow> headers option" where
  "with_content_type ct h =
     Some (h_setdefault ''Content-Type'' (PyStr ct) (case h of Some x \<Rightarrow> x | None \<Rightarrow> h_empty Utf8))"

text \<open>The body: \<open>multipart=\<close>, else \<open>content=\<close>, else \<open>files=\<close> with a pinned boundary.\<close>

definition call_body ::
  "(string \<Rightarrow> string option) \<Rightarrow> string \<Rightarrow> string option \<Rightarrow> 'h call
   \<Rightarrow> exc_class + body_source \<times> file_entry list pairs_arg \<times> headers option" where
  "call_body guess_type fresh boundary c =
     (let h = call_headers c in
      case cl_multipart c of
        Some m \<Rightarrow> (case mime_encode Utf8 boundary fresh m of
            (body, ct) \<Rightarrow> Inr (SBytes body, NoPairs, with_content_type ct h))
      | None \<Rightarrow>
          (case cl_content c of
             Some b \<Rightarrow> if body_truthy (cl_data c) then Inl ValueError else Inr (b, cl_files c, h)
           | None \<Rightarrow>
               if has_files (cl_files c) \<and> (case boundary of Some b \<Rightarrow> b \<noteq> [] | None \<Rightarrow> False)
               then bind_res (encode_multipart Utf8 guess_type (form_of (cl_data c)) (cl_files c) boundary fresh)
                      (\<lambda>(body, ct). Inr (SBytes body, NoPairs, with_content_type ct h))
               else Inr (cl_data c, cl_files c, h)))"

definition prepare_call ::
  "(string \<Rightarrow> string option) \<Rightarrow> string \<Rightarrow> settings \<Rightarrow> 'h call \<Rightarrow> exc_class + 'h request \<times> options" where
  "prepare_call guess_type fresh st c =
     bind_res (reject_fingerprint_overrides (cl_ja3 c) (cl_akamai c) (cl_perk c)) (\<lambda>_.
     if list_ex id (cl_refused c) then Inl UnsupportedFeature
     else bind_res (if cl_extra_fp c = None then Inr (st_header_order st, st_form_boundary st)
                    else bind_res (validate_extra_fp (cl_extra_fp c)) (\<lambda>(order, b). Inr (fp_names order, fp_text b)))
       (\<lambda>(order, boundary).
     bind_res (call_body guess_type fresh boundary c) (\<lambda>(body, files, hs).
     bind_res (register_hooks (cl_hooks c)) (\<lambda>hooks.
     bind_res (call_to_options st (cl_transport c)) (\<lambda>opts.
       Inr (\<lparr>rq_method = cl_method c, rq_url = cl_url c, rq_headers = hs, rq_files = files, rq_data = body,
             rq_json = cl_json c, rq_params = cl_params c, rq_auth = cl_auth c, rq_cookies = cl_cookies c,
             rq_hooks = hooks, rq_quote = cl_quote c, rq_header_order = order\<rparr>, opts))))))"

section \<open>Preparing the request\<close>

definition absolute_url :: "string \<Rightarrow> string \<Rightarrow> exc_class + string" where
  "absolute_url base url =
     (if base = [] then Inr url
      else bind_res (urlsplit url) (\<lambda>p. if u_scheme p = [] then urljoin base url else Inr url))"

text \<open>\<open>merge_setting\<close> of the parameters: only two mappings are merged.\<close>

definition merge_params :: "call_params \<Rightarrow> (string, mvalue option) odict \<Rightarrow> params_arg" where
  "merge_params request own = (case request of
     ParamsOther p \<Rightarrow> p
   | ParamsDict r \<Rightarrow>
       PairParams (Pairs (map (\<lambda>(k, v). (k, case v of Some x \<Rightarrow> x | None \<Rightarrow> One MNone))
         (case merge_dict (Some r) (Some own) of Some m \<Rightarrow> m | None \<Rightarrow> []))))"

definition apply_auth :: "'h authenticator auth \<Rightarrow> 'h authenticator option" where
  "apply_auth a = (case a of AuthNone \<Rightarrow> None | AuthBasic b \<Rightarrow> Some (basic_apply b) | AuthFun f \<Rightarrow> Some f)"

definition hook_args :: "'h hooks \<Rightarrow> (string \<times> 'h hook_arg) list" where
  "hook_args hs = map (\<lambda>(event, xs). (event, HookList (map Some xs))) hs"

definition request_jar :: "(string, string option) odict + jar \<Rightarrow> jar \<Rightarrow> jar" where
  "request_jar given own =
     (let cookies = (case given of Inl d \<Rightarrow> cookiejar_from_dict d jar_empty True | Inr j \<Rightarrow> j)
      in merge_cookies (merge_cookies jar_empty (MergeJar own)) (MergeJar cookies))"

definition prepare_request ::
  "(string \<Rightarrow> string option) \<Rightarrow> string \<Rightarrow> (string \<Rightarrow> (string \<times> string) option) \<Rightarrow> 'h authenticator option
   \<Rightarrow> 'h hooks \<Rightarrow> 'h request \<Rightarrow> session \<Rightarrow> exc_class + (jar, 'h) prepared" where
  "prepare_request guess_type fresh netrc own_auth own_hooks r s =
     (let st = ss_set s;
          auth = (case rq_auth r of
              NoAuth \<Rightarrow> if st_trust_env st
                        then (case netrc (rq_url r) of Some (u, w) \<Rightarrow> AuthPair u w | None \<Rightarrow> NoAuth) else NoAuth
            | a \<Rightarrow> a);
          p0 = pr_empty\<lparr>pr_header_order := (if rq_header_order r = [] then st_header_order st else rq_header_order r),
                        pr_quote := rq_quote r\<rparr>
      in bind_res (absolute_url (st_base_url st) (rq_url r)) (\<lambda>url.
         bind_res (build_auth auth) (\<lambda>a.
           prepare guess_type fresh
             (Some (case rq_method r of Some (c # m) \<Rightarrow> py_upper (c # m) | _ \<Rightarrow> ''GET''))
             url (HeadersObj (merge_headers (rq_headers r) (st_headers st))) (rq_files r)
             (if body_truthy (rq_data r) then rq_data r else SNone)
             (merge_params (rq_params r) (st_params st))
             (case apply_auth a of Some f \<Rightarrow> Some f | None \<Rightarrow> own_auth)
             (request_jar (rq_cookies r) (ss_cookies s))
             (hook_args (merge_hooks (rq_hooks r) own_hooks)) (rq_json r) p0)))"

text \<open>\<open>Session.request\<close>: preparation, then \<open>send\<close> with the options it made.\<close>

definition session_request ::
  "(string \<Rightarrow> string option) \<Rightarrow> string \<Rightarrow> (string \<Rightarrow> (string \<times> string) option) \<Rightarrow> 'h authenticator option
   \<Rightarrow> 'h hooks \<Rightarrow> 'h world \<Rightarrow> int \<Rightarrow> 'h call \<Rightarrow> session \<Rightarrow> (exc + 'h reply) \<times> session" where
  "session_request guess_type fresh netrc own_auth own_hooks w pid c s =
     (case lift_exc (bind_res (prepare_call guess_type fresh (ss_set s) c) (\<lambda>(r, opts).
             bind_res (prepare_request guess_type fresh netrc own_auth own_hooks r s) (\<lambda>p. Inr (p, opts)))) of
        Inl e \<Rightarrow> (Inl e, s)
      | Inr (p, opts) \<Rightarrow> session_send (w_adapter w) (world_once w pid) (w_hook w) opts p s)"

section \<open>Environment settings\<close>

text \<open>
  \<open>merge_environment_settings\<close>: the proxies and the \<open>verify\<close> setting; \<open>bundle\<close> is what
  the two environment variables name.
\<close>

definition merge_environment_proxies ::
  "environ \<Rightarrow> bool \<Rightarrow> string \<Rightarrow> (string, string option) odict \<Rightarrow> (string, string option) odict
   \<Rightarrow> exc_class + (string, string option) odict option" where
  "merge_environment_proxies env trust_env url proxies own =
     bind_res (if trust_env then resolve_proxies env url [] True else Inr []) (\<lambda>found.
       Inr (merge_dict (Some (fold (\<lambda>(k, v) m. if od_has m k then m else od_put k (Some v) m) found proxies)) (Some own)))"

definition merge_environment_verify :: "string option \<Rightarrow> bool \<Rightarrow> verify_arg \<Rightarrow> verify_arg \<Rightarrow> verify_arg" where
  "merge_environment_verify bundle trust_env verify own =
     (let v = (if trust_env \<and> (verify = VBool True \<or> verify = VNone)
               then (case bundle of Some (c # p) \<Rightarrow> VPath (c # p) | _ \<Rightarrow> verify) else verify)
      in if own = VNone then v else if v = VNone then own else v)"

section \<open>WebSocket handshakes\<close>

text \<open>What \<open>engine.websocket\<close> is called with.\<close>

record handshake =
  hs_url :: string
  hs_origin :: string
  hs_fields :: "(string \<times> string) list"
  hs_timeout :: "nat option"
  hs_protocols :: "string list"

definition ws_merged :: "headers \<Rightarrow> update_src option \<Rightarrow> headers" where
  "ws_merged own headers =
     (let m = h_init (Some (FromHeaders own)) Utf8
      in case headers of None \<Rightarrow> m | Some src \<Rightarrow> h_update (Some src) [] m)"

definition ws_cookie :: "string option \<Rightarrow> headers \<Rightarrow> headers" where
  "ws_cookie line h = (case line of Some (c # d) \<Rightarrow> h_setitem ''Cookie'' (PyStr (c # d)) h | _ \<Rightarrow> h)"

definition open_websocket ::
  "(jar \<Rightarrow> string \<Rightarrow> string option) \<Rightarrow> environ \<Rightarrow> (string \<Rightarrow> string option) \<Rightarrow> int \<Rightarrow> (config \<Rightarrow> exc + unit)
   \<Rightarrow> options \<Rightarrow> string \<Rightarrow> string \<Rightarrow> update_src option \<Rightarrow> timeout_arg \<Rightarrow> string list \<Rightarrow> session
   \<Rightarrow> (exc + slot \<times> handshake) \<times> session" where
  "open_websocket hdr env read_file pid build opts url origin headers timeout protocols s =
     (case slot_for env read_file pid build opts url s of
        (Inl e, s1) \<Rightarrow> (Inl e, s1)
      | (Inr sl, s1) \<Rightarrow>
          (let merged = ws_merged (st_headers (ss_set s)) headers
           in if list_ex is_forbidden_ws_header (h_keys merged) then (Inl (bare_exc UnsupportedFeature), s1)
              else
                let h = ws_cookie (hdr (ss_cookies s) (websocket_http_url url)) merged
                in (lift_exc
                     (bind_res (if origin = [] then default_websocket_origin url else Inr origin) (\<lambda>org.
                      bind_res (split_timeout (if timeout = NoTimeout then st_timeout (ss_set s) else timeout)) (\<lambda>limit.
                        Inr (sl, \<lparr>hs_url = url, hs_origin = org, hs_fields = h_multi_items h,
                                  hs_timeout = limit, hs_protocols = protocols\<rparr>)))), s1)))"

section \<open>Walking a redirect chain\<close>

text \<open>
  \<open>resolve_redirects\<close> with \<open>yield_requests=False\<close>: the responses it yields, and the
  error that ends it.
\<close>

fun walk_redirects ::
  "((jar, 'h) prepared \<Rightarrow> 's \<Rightarrow> (exc + 'h reply) \<times> (jar, 'h) prepared \<times> 's) \<Rightarrow> nat \<Rightarrow> (jar, 'h) prepared
   \<Rightarrow> response \<Rightarrow> 's \<Rightarrow> 'h reply list \<times> exc option \<times> 's" where
  "walk_redirects send left p resp s =
     (if \<not> is_redirect resp then ([], None, s)
      else case left of
        0 \<Rightarrow> ([], Some (bare_exc TooManyRedirects), s)
      | Suc n \<Rightarrow>
          (case rp_get_content resp of
             (Inl e, _) \<Rightarrow> ([], Some e, s)
           | (Inr _, resp') \<Rightarrow>
               (case lift_exc (next_hop jar_copy resp' p) of
                  Inl e \<Rightarrow> ([], Some e, s)
                | Inr hop \<Rightarrow>
                    (case send hop s of
                       (Inl e, _, s') \<Rightarrow> ([], Some e, s')
                     | (Inr re, hop', s') \<Rightarrow>
                         (case walk_redirects send n hop' (re_response re) s' of
                            (rest, err, s2) \<Rightarrow> (re # rest, err, s2))))))"

declare walk_redirects.simps [simp del]

definition resolve_redirects ::
  "(options \<Rightarrow> 'h once) \<Rightarrow> bool \<Rightarrow> timeout_arg \<Rightarrow> verify_arg \<Rightarrow> (string \<times> pyval) list \<Rightarrow> (jar, 'h) prepared
   \<Rightarrow> response \<Rightarrow> session \<Rightarrow> 'h reply list \<times> exc option \<times> session" where
  "resolve_redirects once stream timeout verify proxies p resp s =
     walk_redirects (once (no_options\<lparr>op_stream := Some stream, op_timeout := timeout, op_verify := verify,
         op_proxies := proxies, op_native_redirects := Some False\<rparr>))
       (nat (st_max_redirects (ss_set s))) p resp s"

section \<open>Asynchronous sending\<close>

text \<open>
  The gate of \<open>max_clients\<close>: a semaphore of the running loop, made anew for another loop.
  \<open>gt_free\<close> counts its permits.
\<close>

record gate =
  gt_loop :: nat
  gt_free :: nat

definition semaphore :: "int option \<Rightarrow> nat \<Rightarrow> gate option \<Rightarrow> gate option" where
  "semaphore max_clients loop g =
     (case max_clients of
        None \<Rightarrow> None
      | Some n \<Rightarrow>
          if n = 0 then None
          else (case g of
                  Some g \<Rightarrow> if gt_loop g = loop then Some g else Some \<lparr>gt_loop = loop, gt_free = nat n\<rparr>
                | None \<Rightarrow> Some \<lparr>gt_loop = loop, gt_free = nat n\<rparr>))"

text \<open>\<open>acquire()\<close> goes through, or waits for a permit.\<close>

definition gate_enter :: "gate \<Rightarrow> gate option" where
  "gate_enter g = (if gt_free g = 0 then None else Some (g\<lparr>gt_free := gt_free g - 1\<rparr>))"

definition gate_leave :: "gate \<Rightarrow> gate" where
  "gate_leave g = g\<lparr>gt_free := gt_free g + 1\<rparr>"

text \<open>One look of \<open>_await_headers\<close>: the head is there, an error is raised, or it waits.\<close>

definition await_headers :: "async_state \<Rightarrow> unit outcome" where
  "await_headers st =
     (case as_error st of
        Some e \<Rightarrow> if \<not> error_is_lazy st then Raise e
                  else if as_status st \<noteq> 0 \<or> as_done st then Chunk () else Wait
      | None \<Rightarrow> if as_status st \<noteq> 0 \<or> as_done st then Chunk () else Wait)"

text \<open>\<open>await state.future\<close>\<close>

definition await_future :: "async_state \<Rightarrow> unit outcome" where
  "await_future st = (case as_future st of
     Pending \<Rightarrow> Wait | Resolved \<Rightarrow> Chunk () | Failed e \<Rightarrow> Raise e | Cancelled \<Rightarrow> Stop)"

text \<open>
  \<open>_perform\<close>: \<open>drive\<close> starts the native request and runs the loop until what is awaited
  is decided; it gives the error of starting it, or the state left.  Cancellation of the
  awaiting task is not an outcome here.
\<close>

definition async_perform ::
  "(jar \<Rightarrow> string \<Rightarrow> string option) \<Rightarrow> (string \<Rightarrow> string list \<Rightarrow> jar) \<Rightarrow> environ \<Rightarrow> (string \<Rightarrow> string option)
   \<Rightarrow> int \<Rightarrow> (config \<Rightarrow> exc + unit)
   \<Rightarrow> (slot \<Rightarrow> (jar, 'h) prepared \<Rightarrow> async_state \<Rightarrow> string + async_state)
   \<Rightarrow> options \<Rightarrow> (jar, 'h) prepared \<Rightarrow> session
   \<Rightarrow> ((exc + 'h reply) \<times> (jar, 'h) prepared \<times> session) option" where
  "async_perform hdr ex env read_file pid build drive opts p s =
     (case slot_for env read_file pid build opts (pr_url p) s of
        (Inl e, s1) \<Rightarrow> Some (Inl e, p, s1)
      | (Inr sl, s1) \<Rightarrow>
          let discard = (case op_discard_cookies opts of None \<Rightarrow> st_discard_cookies (ss_set s) | Some b \<Rightarrow> b) in
     (case resolve_cookies hdr pid build sl p discard s1 of
        (Inl e, p2, s2) \<Rightarrow> Some (Inl e, p2, s2)
      | (Inr sl2, p2, s2) \<Rightarrow>
     (case lift_exc (split_timeout (op_timeout opts)) of
        Inl e \<Rightarrow> Some (Inl e, p2, s2)
      | Inr timeout \<Rightarrow>
          let stream = (op_stream opts = Some True);
              follow = (case op_native_redirects opts of None \<Rightarrow> True | Some b \<Rightarrow> b);
              st0 = as_init stream (limit_of (op_max_response_bytes opts))
                      (timeout \<noteq> None \<and> timeout \<noteq> Some 0) follow
          in case drive sl2 p2 st0 of
               Inl m \<Rightarrow> Some (Inl (map_native_error m), p2, s2)
             | Inr st \<Rightarrow>
                 (case (if stream then await_headers st else await_future st) of
                    Raise e \<Rightarrow> Some (Inl e, p2, s2)
                  | Chunk _ \<Rightarrow>
                      (case finalize ex (if stream then rp_new else rp_set_content (as_body st) rp_new) p2
                              (as_status st) (as_raw_headers st) (as_hops st) (snd sl2) discard None s2 of
                         (out, s3) \<Rightarrow> Some (out, p2, s3))
                  | _ \<Rightarrow> None))))"

section \<open>Properties\<close>

lemma as_kept [simp]:
  "as_status (as_on_body c s) = as_status s" "as_raw_headers (as_on_body c s) = as_raw_headers s"
  "as_hops (as_on_body c s) = as_hops s" "as_follow (as_on_body c s) = as_follow s"
  "as_status (as_on_done s) = as_status s" "as_raw_headers (as_on_done s) = as_raw_headers s"
  "as_hops (as_on_done s) = as_hops s"
  by (auto simp: as_on_body_def as_on_done_def as_fail_def as_signal_def settle_def as_cancel_timer_def Let_def
      split: option.splits)

lemma fold_bodies_kept:
  "as_status (fold as_handle (map EvBody cs) s) = as_status s
   \<and> as_raw_headers (fold as_handle (map EvBody cs) s) = as_raw_headers s
   \<and> as_hops (fold as_handle (map EvBody cs) s) = as_hops s
   \<and> as_stream (fold as_handle (map EvBody cs) s) = as_stream s"
  by (induction cs arbitrary: s) auto

definition redirect_events :: "(nat \<times> string \<times> string) list \<Rightarrow> event list" where
  "redirect_events hops = map (\<lambda>(status, raw, url). EvRedirect status raw url) hops"

lemma fold_redirects:
  "as_follow s \<Longrightarrow> fold as_handle (redirect_events hops) s = s\<lparr>as_hops := as_hops s @ hops\<rparr>"
  by (induction hops arbitrary: s) (auto simp: redirect_events_def as_on_redirect_def)

text \<open>What the Core reports for a request that is answered: redirects, the head, the body, the end.\<close>

definition answer_events :: "(nat \<times> string \<times> string) list \<Rightarrow> nat \<Rightarrow> string \<Rightarrow> string list \<Rightarrow> event list" where
  "answer_events hops status raw cs = redirect_events hops @ EvResponse status raw # map EvBody cs @ [EvDone]"

text \<open>The re-arming counter is read by nothing, so the batches the events come in do not matter.\<close>

lemma as_handle_soon: "as_handle e (s\<lparr>as_soon := n\<rparr>) = (as_handle e s)\<lparr>as_soon := n\<rparr>"
  by (cases e) (auto simp: as_on_body_def as_on_redirect_def as_on_done_def as_fail_def as_signal_def settle_def
      as_cancel_timer_def Let_def split: option.splits)

lemma fold_handle_soon: "fold as_handle es (s\<lparr>as_soon := n\<rparr>) = (fold as_handle es s)\<lparr>as_soon := n\<rparr>"
  by (induction es arbitrary: s) (simp_all add: as_handle_soon)

lemma fold_handle_stream: "as_stream (fold as_handle es s) = as_stream s"
  using fold_handle_fixed by metis

lemma batches_join:
  "\<not> as_closed s \<Longrightarrow> \<not> as_stream s \<Longrightarrow>
   \<exists>n. fold (\<lambda>b. as_notify (Inr b)) batches s = (fold as_handle (concat batches) s)\<lparr>as_soon := n\<rparr>"
proof (induction batches arbitrary: s)
  case Nil
  then show ?case by (intro exI [of _ "as_soon s"]) simp
next
  case (Cons b batches)
  obtain n where n: "as_notify (Inr b) s = (fold as_handle b s)\<lparr>as_soon := n\<rparr>"
    using Cons.prems by (cases "length b = ASYNC_POLL_BATCH") (auto simp: as_notify_polls Let_def intro: that [of "as_soon (fold as_handle b s)"])
  have "\<not> as_closed (as_notify (Inr b) s) \<and> \<not> as_stream (as_notify (Inr b) s)"
    using Cons.prems by (simp add: n fold_handle_stream)
  with Cons.IH [of "as_notify (Inr b) s"] show ?case by (auto simp: n fold_handle_soon)
qed

lemma answered_state:
  fixes batches :: "event list list"
  assumes "concat batches = answer_events hops status raw cs"
  shows "let st = fold (\<lambda>b. as_notify (Inr b)) batches (as_init False limit timeout True) in
      as_status st = status \<and> as_raw_headers st = raw \<and> as_hops st = hops
    \<and> (case sr_join cs (sr_init limit) of
         Inr body \<Rightarrow> as_future st = Resolved \<and> as_body st = body
       | Inl e \<Rightarrow> as_future st = Failed e)"
proof -
  let ?s0 = "(as_init False limit timeout True)\<lparr>as_hops := hops, as_status := status, as_raw_headers := raw\<rparr>"
  let ?final = "as_on_done (fold as_handle (map EvBody cs) ?s0)"
  have init: "as_follow (as_init False limit timeout True)" by (simp add: as_init_def)
  have "fold as_handle (answer_events hops status raw cs) (as_init False limit timeout True) = ?final"
    unfolding answer_events_def fold_append o_apply fold_redirects [OF init] fold.simps
    by (simp add: as_init_def Let_def)
  then obtain n where "fold (\<lambda>b. as_notify (Inr b)) batches (as_init False limit timeout True) = ?final\<lparr>as_soon := n\<rparr>"
    using batches_join [of "as_init False limit timeout True" batches] assms by (auto simp: as_init_def)
  then show ?thesis
    using fold_bodies [of ?s0 cs] fold_bodies_kept [of cs ?s0]
    by (auto simp: as_init_def sr_join_concat sr_init_def Let_def split: if_splits)
qed

text \<open>
  C16: The asynchronous session gives what the synchronous one gives: whatever redirects,
  head and body the Core reports, in however many wake-ups, an awaited request ends in the
  same response or error, with the same cookies absorbed and the same engine kept.
\<close>

theorem async_send_agrees_with_sync:
  assumes "op_stream opts \<noteq> Some True" and "op_native_redirects opts \<noteq> Some False"
    and "concat batches = answer_events hops status raw cs"
  shows "async_perform hdr ex env read_file pid build
       (\<lambda>_ _ st. Inr (fold (\<lambda>b. as_notify (Inr b)) batches st)) opts p s
     = Some (send_once hdr ex env read_file pid build (\<lambda>_ _ _. Head status raw hops (map Inr cs)) opts p s)"
proof -
  have follow: "(case op_native_redirects opts of None \<Rightarrow> True | Some b \<Rightarrow> b)"
    using assms(2) by (auto split: option.splits)
  show ?thesis
  proof (cases "slot_for env read_file pid build opts (pr_url p) s")
    case (Pair r1 s1)
    show ?thesis
    proof (cases r1)
      case (Inr sl)
      obtain r2 p2 s2 where rs: "resolve_cookies hdr pid build sl p
          (case op_discard_cookies opts of None \<Rightarrow> st_discard_cookies (ss_set s) | Some b \<Rightarrow> b) s1 = (r2, p2, s2)"
        by (metis prod_cases3)
      show ?thesis
      proof (cases r2)
        case (Inr sl2)
        show ?thesis
        proof (cases "lift_exc (split_timeout (op_timeout opts))")
          case (Inr timeout)
          let ?limit = "limit_of (op_max_response_bytes opts)"
          let ?st = "fold (\<lambda>b. as_notify (Inr b)) batches
              (as_init False ?limit (timeout \<noteq> None \<and> timeout \<noteq> Some 0) True)"
          note st = answered_state [OF assms(3), of ?limit "timeout \<noteq> None \<and> timeout \<noteq> Some 0", unfolded Let_def]
          have read: "read_response False ?limit (map Inr cs) =
              (case sr_join cs (sr_init ?limit) of Inl e \<Rightarrow> Inl e | Inr b \<Rightarrow> Inr (rp_set_content b rp_new))"
            by (simp add: read_response_def sr_collect_join)
          show ?thesis
            using Pair \<open>r1 = Inr sl\<close> rs \<open>r2 = Inr sl2\<close> Inr follow assms(1) st read
            by (simp add: async_perform_def send_once_def run_native_def Let_def await_future_def
                split: sum.splits prod.split)
        qed (use Pair Inr rs \<open>r1 = Inr sl\<close> in \<open>simp add: async_perform_def send_once_def Let_def\<close>)
      qed (use Pair Inr rs in \<open>simp add: async_perform_def send_once_def Let_def\<close>)
    qed (use Pair in \<open>simp add: async_perform_def send_once_def\<close>)
  qed
qed

theorem async_send_agrees_with_sync_witness:
  "async_perform sample_line (\<lambda>_ _. jar_empty) [] (\<lambda>_. None) 1 (\<lambda>_. Inr ())
     (\<lambda>_ _ st. Inr (fold (\<lambda>b. as_notify (Inr b))
        [[EvRedirect 302 [] ''http://h/b'', EvResponse 200 []], [EvBody ''ab'', EvBody ''c''], [EvDone]] st))
     no_options (pr_empty :: (jar, unit) prepared) sample_session
   = Some (send_once sample_line (\<lambda>_ _. jar_empty) [] (\<lambda>_. None) 1 (\<lambda>_. Inr ())
     (\<lambda>_ _ _. Head 200 [] [(302, [], ''http://h/b'')] (map Inr [''ab'', ''c'']))
     no_options pr_empty sample_session)"
  by (rule async_send_agrees_with_sync) (simp_all add: no_options_def answer_events_def redirect_events_def)

text \<open>
  A streaming request never fails for its size before its response is handed out:
  waiting for the head raises no \<open>ResponseTooLarge\<close>, whatever has been received.
\<close>

theorem await_headers_never_too_large:
  assumes "as_stream st" and "await_headers st = Raise e"
  shows "\<not> is_subclass (exc_kind e) ResponseTooLarge"
  using assms by (auto simp: await_headers_def error_is_lazy_def split: option.splits if_splits)

theorem await_headers_never_too_large_witness:
  "\<not> is_subclass Timeout ResponseTooLarge"
  using await_headers_never_too_large [of "as_expire (as_init True None True True)"
      "\<lparr>exc_kind = Timeout, exc_msg = ''request timed out''\<rparr>"]
  by (simp add: as_expire_def await_headers_def error_is_lazy_def as_init_def is_subclass.simps [of Timeout]
      is_subclass.simps [of RequestException] is_subclass.simps [of IOError])

lemma walk_redirects_spec:
  "walk_redirects send left p resp s = (res, err, s') \<Longrightarrow>
   length res \<le> left \<and> list_all (\<lambda>re. is_redirect (re_response re)) (butlast res)
   \<and> (err = None \<longrightarrow> \<not> is_redirect (last (resp # map re_response res)))"
proof (induction left arbitrary: p resp s res err s')
  case 0
  then show ?case by (subst (asm) walk_redirects.simps) (auto split: if_splits)
next
  case (Suc left)
  show ?case
  proof (cases "is_redirect resp")
    case False
    with Suc.prems show ?thesis by (subst (asm) walk_redirects.simps) simp
  next
    case True
    obtain c resp' where c: "rp_get_content resp = (c, resp')" by fastforce
    show ?thesis
    proof (cases "\<exists>b hop. c = Inr b \<and> lift_exc (next_hop jar_copy resp' p) = Inr hop")
      case False
      with Suc.prems True c show ?thesis
        by (subst (asm) walk_redirects.simps) (auto split: sum.splits)
    next
      case True': True
      then obtain b hop where bh: "c = Inr b" "lift_exc (next_hop jar_copy resp' p) = Inr hop" by blast
      obtain o1 p1 s1 where sd: "send hop s = (o1, p1, s1)" by (metis prod_cases3)
      show ?thesis
      proof (cases o1)
        case (Inl e)
        with Suc.prems True c bh sd show ?thesis
          by (subst (asm) walk_redirects.simps) auto
      next
        case (Inr re1)
        obtain rest err1 s2 where w: "walk_redirects send left p1 (re_response re1) s1 = (rest, err1, s2)"
          by (metis prod_cases3)
        with Suc.prems True c bh sd Inr have res: "res = re1 # rest" "err = err1"
          by (subst (asm) walk_redirects.simps, simp)+
        have "is_redirect (re_response re1)" if "rest \<noteq> []"
          using that w by (subst (asm) walk_redirects.simps) (auto split: if_splits)
        with Suc.IH [OF w] show ?thesis by (auto simp: res last_map)
      qed
    qed
  qed
qed

text \<open>
  \<open>resolve_redirects\<close> yields at most \<open>max_redirects\<close> responses, all but the last of
  them redirects, and when it ends without an error the chain has ended.
\<close>

theorem resolve_redirects_bounded:
  "case resolve_redirects once stream timeout verify proxies p resp s of
     (res, err, s') \<Rightarrow> int (length res) \<le> max 0 (st_max_redirects (ss_set s))
       \<and> list_all (\<lambda>re. is_redirect (re_response re)) (butlast res)
       \<and> (case err of Some e \<Rightarrow> True | None \<Rightarrow> \<not> is_redirect (last (resp # map re_response res)))"
proof -
  obtain res err s' where r: "resolve_redirects once stream timeout verify proxies p resp s = (res, err, s')"
    by (metis prod_cases3)
  show ?thesis
    using walk_redirects_spec [OF r [unfolded resolve_redirects_def]] r by (auto split: option.splits)
qed

section \<open>What a call overrides\<close>

lemma h_items_lower: "h_wf h \<Longrightarrow> map (\<lambda>(n, v). (key_of n, v)) (h_items h) = cid_lower_items (h_store h)"
  using h_wf_keys [of h] by (auto simp: h_items_def cid_items_def cid_lower_items_def cid_wf_def)

lemma h_items_distinct: "h_wf h \<Longrightarrow> distinct (map (key_of \<circ> fst) (h_items h))"
  using hdr.keys_distinct [of h]
  by (simp add: h_items_def cid_items_def h_keys_def cid_iter_def o_def split_beta)

lemma map_of_items:
  "h_wf h \<Longrightarrow> map_of (rev (map (\<lambda>(n, v). (key_of n, v)) (h_items h))) (key_of k) = h_get h k"
  by (simp add: h_items_lower map_of_lower_items h_wf_keys h_get_def cid_get_def)

lemma h_get_list_add_all:
  "h_get_list (h_add_all ps h) k = h_get_list h k @ map snd (filter (\<lambda>p. key_of (fst p) = key_of k) ps)"
  by (simp add: h_get_list_def h_list_add_all fields_of_append)
     (simp add: fields_of_def filter_map o_def split_beta)

lemma h_get_add_all:
  "distinct (map (key_of \<circ> fst) ps) \<Longrightarrow>
   h_get (h_add_all ps (h_empty enc)) k = map_of (map (\<lambda>(n, v). (key_of n, v)) ps) (key_of k)"
proof -
  assume d: "distinct (map (key_of \<circ> fst) ps)"
  have "h_get_list (h_empty enc) k = []" by (simp add: h_get_list_def h_empty_def fields_of_def)
  then have l: "h_get_list (h_add_all ps (h_empty enc)) k = map snd (filter (\<lambda>p. key_of (fst p) = key_of k) ps)"
    by (simp add: h_get_list_add_all)
  have "map snd (filter (\<lambda>p. key_of (fst p) = key_of k) ps) =
      (case map_of (map (\<lambda>(n, v). (key_of n, v)) ps) (key_of k) of None \<Rightarrow> [] | Some v \<Rightarrow> [v])"
    using d by (induction ps) (auto simp: filter_empty_conv map_of_eq_None_iff image_iff split: option.splits)
  then show ?thesis
    by (auto simp: h_get_joined h_wf_add_all h_wf_empty l split: option.splits)
qed

text \<open>
  A header given to a call replaces the session's header of the same name, whatever
  its spelling, and every other session header is sent too; no call can take a session
  header away.
\<close>

theorem call_headers_win:
  assumes "h_wf r" and "h_wf session"
  shows "h_get (merge_headers (Some r) session) k =
    (case h_get r k of Some v \<Rightarrow> Some v | None \<Rightarrow> h_get session k)"
proof -
  let ?base = "h_add_all (h_items session) (h_empty Utf8)"
  have wf: "h_wf ?base" by (simp add: h_wf_add_all h_wf_empty)
  have base: "h_get ?base k = h_get session k"
    using h_get_add_all [OF h_items_distinct [OF assms(2)]] map_of_items [OF assms(2)]
      map_of_rev_distinct [of "map (\<lambda>(n, v). (key_of n, v)) (h_items session)"] h_items_distinct [OF assms(2)]
    by (simp add: o_def split_beta)
  have "h_set_all (map (\<lambda>(k, v). (k, PyStr v)) (h_items r)) ?base = hdr.put_all (h_items r) ?base"
    by (simp add: h_set_all_def hdr.put_all_def fold_map o_def split_beta')
  then show ?thesis
    using hdr.lookup_put_all [OF wf, of "h_items r" k] map_of_items [OF assms(1)] base
    by (simp add: merge_headers_def split: option.split)
qed

text \<open>
  A query parameter given to a call replaces the session's, and \<open>None\<close> takes the
  session's parameter away.
\<close>

theorem call_params_win:
  assumes "od_wf r" and "od_wf own"
  shows "\<exists>m. merge_dict (Some r) (Some own) = Some m
    \<and> od_get m k = (case od_get r k of Some None \<Rightarrow> None | Some (Some v) \<Rightarrow> Some (Some v) | None \<Rightarrow> od_get own k)"
proof -
  have del: "od_get (fold (\<lambda>(k, v) m. if v = None then od_del k m else m) ps m) j =
      (if (j, None) \<in> set ps then None else od_get m j)" for ps and m :: "('a, 'b option) odict" and j
    by (induction ps arbitrary: m) (auto simp: od_get_del split: if_splits)
  have upd: "od_get (od_update m ps) j = (case map_of (rev ps) j of Some v \<Rightarrow> Some v | None \<Rightarrow> od_get m j)"
    if "od_wf m" for ps and m :: "('a, 'b option) odict" and j
    using od.lookup_put_all [OF that, of ps j] by (simp add: od_update_put_all split_beta)
  have rev_r: "map_of (rev ps) j = od_get ps j" if "od_wf ps" for ps :: "('a, 'b option) odict" and j
    using that by (simp add: map_of_rev_distinct od_wf_def od_get_def)
  have own: "od_get (od_of own) k = od_get own k"
    using upd [of "[]" own k] rev_r [OF assms(2)] by (simp add: od_of_def split: option.splits)
  have null: "(k, None) \<in> set r \<longleftrightarrow> od_get r k = Some None"
    using assms(1) by (auto simp: od_wf_def od_get_def dest: map_of_SomeD)
  show ?thesis
    using upd [OF od_wf_of [of own], of r k] rev_r [OF assms(1)] own null
    by (auto simp: merge_dict_def del split: option.splits)
qed

theorem call_headers_win_witness:
  "h_get (merge_headers (Some (h_setitem ''ACCEPT'' (PyStr ''b'') (h_empty Utf8)))
     (h_setitem ''Accept'' (PyStr ''a'') (h_empty Utf8))) ''accept'' = Some ''b''"
proof -
  have keys: "key_of ''accept'' = key_of ''ACCEPT''" by (simp add: key_of_def py_lower_def py_str)
  show ?thesis
    using call_headers_win [of "h_setitem ''ACCEPT'' (PyStr ''b'') (h_empty Utf8)"
        "h_setitem ''Accept'' (PyStr ''a'') (h_empty Utf8)" "''accept''"]
    by (simp add: wf_intros h_get_setitem keys)
qed

theorem call_params_win_witness:
  "\<exists>m. merge_dict (Some [(''q'', None)]) (Some [(''q'', Some (1::nat)), (''p'', Some 2)]) = Some m
     \<and> od_get m ''q'' = None"
  using call_params_win [of "[(''q'', None)]" "[(''q'', Some (1::nat)), (''p'', Some 2)]" "''q''"]
  by (simp add: od_wf_def od_get_def)

text \<open>
  A verb that is called without \<open>allow_redirects=\<close> follows redirects also in a session
  built with \<open>allow_redirects=False\<close>: the signature's default is not the session's.
\<close>

theorem session_allow_redirects_ignored:
  assumes "co_allow_redirects c = verb_allow False None" and "co_max_redirects c = None"
    and "call_to_options st c = Inr opts"
  shows "op_native_redirects opts = Some True"
  using assms(1,2,3) unfolding call_to_options_def Let_def drive_redirects_in_python_def bind_res_Inr verb_allow_def
  by (elim exE conjE) (simp, hypsubst, simp)

section \<open>Handshakes and admission\<close>

lemma forbidden_key: "is_forbidden_ws_header n = is_forbidden_ws_header (key_of n)"
  by (simp add: is_forbidden_ws_header_def key_of_def)

lemma allowed_fields:
  assumes "h_wf h" and "\<not> list_ex is_forbidden_ws_header (h_keys h)" and "(k, n, v) \<in> set (h_list h)"
  shows "\<not> is_forbidden_ws_header n"
proof -
  have k: "k = key_of n" using assms(1,3) by (auto simp: h_wf_def)
  obtain m where "m \<in> set (h_keys h)" "key_of n = key_of m"
    using h_keys_cover [OF assms(1,3)] k by auto
  with assms(2) show ?thesis by (metis forbidden_key list_ex_iff)
qed

text \<open>
  Every WebSocket handshake that is opened carries an origin and none of the headers
  Chromium derives itself, whatever the session and the call put there.
\<close>

theorem handshake_fields_allowed:
  assumes "open_websocket hdr env read_file pid build opts url origin headers timeout protocols s = (Inr (sl, hs), s')"
  shows "hs_origin hs \<noteq> [] \<and> list_all (\<lambda>(n, v). \<not> is_forbidden_ws_header n) (hs_fields hs)"
proof -
  let ?m = "ws_merged (st_headers (ss_set s)) headers"
  let ?h = "ws_cookie (hdr (ss_cookies s) (websocket_http_url url)) ?m"
  have wf: "h_wf ?m" by (auto simp: ws_merged_def h_wf_init h_wf_update Let_def split: option.split)
  have cookie: "\<not> is_forbidden_ws_header ''Cookie''"
    by (simp add: is_forbidden_ws_header_def py_lower_def py_str)
  have ok: "\<not> list_ex is_forbidden_ws_header (h_keys ?m)" and f: "hs_fields hs = h_multi_items ?h"
    and org: "(if origin = [] then default_websocket_origin url else Inr origin) = Inr (hs_origin hs)"
    using assms by (auto simp: open_websocket_def Let_def bind_res_Inr lift_exc_def split: sum.splits prod.splits if_splits)
  have "\<not> is_forbidden_ws_header n" if "(k, n, v) \<in> set (h_list ?h)" for k n v
    using that allowed_fields [OF wf ok] cookie
    by (auto simp: ws_cookie_def h_setitem_def split: option.splits list.splits)
  then have "list_all (\<lambda>(n, v). \<not> is_forbidden_ws_header n) (hs_fields hs)"
    by (auto simp: f h_multi_items_def list_all_iff)
  moreover have "hs_origin hs \<noteq> []"
    using org by (auto simp: default_websocket_origin_def bind_res_Inr split: if_splits)
  ultimately show ?thesis by simp
qed

theorem handshake_fields_allowed_witness:
  "\<exists>sl hs s'. open_websocket sample_line [] (\<lambda>_. None) 1 (\<lambda>_. Inr ()) no_options ''wss://h/'' ''https://h''
       (Some (UpdPairs [(''X-A'', PyStr ''1'')])) NoTimeout [] sample_session = (Inr (sl, hs), s')
     \<and> hs_origin hs \<noteq> [] \<and> list_all (\<lambda>(n, v). \<not> is_forbidden_ws_header n) (hs_fields hs)"
proof -
  have keys: "h_keys (ws_merged (h_empty Utf8) (Some (UpdPairs [(''X-A'', PyStr ''1'')]))) = [''X-A'']"
    by (simp add: ws_merged_def Let_def h_init_def h_add_all_def h_multi_items_def h_empty_def h_set_all_def
        h_setitem_def h_refresh_def summary_def h_keys_def cid_iter_def od_put_def fields_of_def)
  have allowed: "\<not> is_forbidden_ws_header ''X-A''"
    by (simp add: is_forbidden_ws_header_def py_lower_def py_str)
  obtain sl hs s' where o1: "open_websocket sample_line [] (\<lambda>_. None) 1 (\<lambda>_. Inr ()) no_options ''wss://h/'' ''https://h''
       (Some (UpdPairs [(''X-A'', PyStr ''1'')])) NoTimeout [] sample_session = (Inr (sl, hs), s')"
    by (simp add: open_websocket_def Let_def slot_for_def ensure_open_def sample_session_def sample_settings_def
        effective_proxy_def no_options_def od_update_def engine_config_def split_proxy_credentials_def
        verify_setting_def get_slot_def ec_get_def ec_init_def ec_reset_after_fork_def od_get_def keys allowed
        split_timeout_def split: prod.splits)
  from handshake_fields_allowed [OF o1] o1 show ?thesis by blast
qed

text \<open>Requests entering (\<open>True\<close>) and leaving the gate; one that finds no permit stays outside.\<close>

fun gate_step :: "bool \<Rightarrow> gate \<times> nat \<Rightarrow> gate \<times> nat" where
  "gate_step True (g, running) = (case gate_enter g of Some g' \<Rightarrow> (g', running + 1) | None \<Rightarrow> (g, running))"
| "gate_step False (g, running) = (if running = 0 then (g, running) else (gate_leave g, running - 1))"

lemma gate_run: "gt_free (fst (fold gate_step ops (g, n))) + snd (fold gate_step ops (g, n)) = gt_free g + n"
proof (induction ops arbitrary: g n)
  case (Cons b ops)
  obtain g' n' where st: "gate_step b (g, n) = (g', n')" by fastforce
  then have "gt_free g' + n' = gt_free g + n"
    by (cases b) (auto simp: gate_enter_def gate_leave_def split: if_splits)
  with Cons.IH [of g' n'] st show ?case by simp
qed simp

text \<open>
  With \<open>max_clients\<close> set, no sequence of requests entering and leaving has more than
  that many of them in flight on one event loop.
\<close>

theorem gate_bounds_clients:
  "case semaphore (Some (int (Suc n))) loop None of
     None \<Rightarrow> False
   | Some g \<Rightarrow> gt_loop g = loop \<and> snd (fold gate_step ops (g, 0)) \<le> Suc n
       \<and> semaphore (Some (int (Suc n))) loop (Some (fst (fold gate_step ops (g, 0)))) = Some (fst (fold gate_step ops (g, 0)))"
proof -
  let ?g = "\<lparr>gt_loop = loop, gt_free = Suc n\<rparr>"
  have step: "gt_loop (fst (gate_step b gn)) = gt_loop (fst gn)" for b gn
    by (cases gn; cases b) (auto simp: gate_enter_def gate_leave_def)
  have loop: "gt_loop (fst (fold gate_step xs gn)) = gt_loop (fst gn)" for xs gn
    by (induction xs arbitrary: gn) (auto simp: step)
  have "semaphore (Some (int (Suc n))) loop None = Some ?g" by (simp add: semaphore_def nat_add_distrib)
  then show ?thesis using gate_run [of ops ?g 0] by (simp add: loop) (simp add: semaphore_def loop)
qed

end
