(* ===== verification/Api.thy ===== *)
theory Api
  imports Exceptions Py_Prelude "HOL-Library.Multiset"
begin

text \<open>
  \<open>bindings/python/chrome_client/_python_impl/api.py\<close>: the module-level functions, the
  process-wide session they share and the private sessions some options ask for.  A session
  is a number; what a session does with a request is \<open>Session_Calls\<close>.  Python refuses a
  keyword a signature does not have with \<open>TypeError\<close>, so the two signatures are here as
  lists of names.
\<close>

section \<open>Keywords\<close>

datatype 'v kwarg = KNone | KFalse | KValue 'v

type_synonym 'v kwargs = "(string, 'v kwarg) odict"

definition SESSION_ONLY :: "string list" where
  "SESSION_ONLY =
    [''base_url'', ''default_headers'', ''trust_env'', ''max_engines'', ''user_agent'',
     ''accept_language'', ''cache'', ''response_class'', ''proxy_auth'', ''max_clients'']"

definition SESSION_KEYWORDS :: "string list" where
  "SESSION_KEYWORDS =
    [''impersonate'', ''proxy'', ''proxies'', ''proxy_auth'', ''verify'', ''timeout'', ''headers'',
     ''cookies'', ''params'', ''auth'', ''cert'', ''stream'', ''hooks'', ''max_redirects'',
     ''trust_env'', ''allow_redirects'', ''max_response_bytes'', ''base_url'', ''http_version'',
     ''ja3'', ''akamai'', ''perk'', ''extra_fp'', ''default_headers'', ''default_encoding'',
     ''discard_cookies'', ''raise_for_status'', ''retry'', ''cache'', ''user_agent'',
     ''accept_language'', ''interface'', ''doh_url'', ''max_recv_speed'', ''curl_options'',
     ''max_engines'', ''response_class'']"

definition REQUEST_KEYWORDS :: "string list" where
  "REQUEST_KEYWORDS =
    [''params'', ''data'', ''headers'', ''cookies'', ''files'', ''auth'', ''timeout'',
     ''allow_redirects'', ''proxies'', ''hooks'', ''stream'', ''verify'', ''cert'', ''json'',
     ''content'', ''multipart'', ''impersonate'', ''proxy'', ''http_version'', ''max_redirects'',
     ''max_response_bytes'', ''referer'', ''accept_encoding'', ''default_encoding'',
     ''discard_cookies'', ''retry'', ''cache_mode'', ''priority'', ''ja3'', ''akamai'', ''perk'',
     ''extra_fp'', ''content_callback'', ''raise_for_status'', ''quote'', ''curl_options'',
     ''interface'', ''doh_url'', ''max_recv_speed'', ''thread'', ''debug'']"

definition accepts :: "string list \<Rightarrow> 'v kwargs \<Rightarrow> bool" where
  "accepts names kw \<longleftrightarrow> list_all (\<lambda>(k, v). k \<in> set names) kw"

section \<open>Sessions\<close>

record api =
  ap_made :: nat
  ap_shared :: "(nat \<times> int) option"
  ap_open :: "nat list"

definition api_init :: api where
  "api_init = \<lparr>ap_made = 0, ap_shared = None, ap_open = []\<rparr>"

definition new_session :: "api \<Rightarrow> nat \<times> api" where
  "new_session a = (ap_made a, a\<lparr>ap_made := Suc (ap_made a), ap_open := ap_open a @ [ap_made a]\<rparr>)"

definition end_session :: "nat \<Rightarrow> api \<Rightarrow> api" where
  "end_session i a = a\<lparr>ap_open := filter (\<lambda>j. j \<noteq> i) (ap_open a)\<rparr>"

text \<open>A forked child builds a session of its own and leaves the one it inherited alone.\<close>

definition shared_session :: "int \<Rightarrow> api \<Rightarrow> nat \<times> api" where
  "shared_session pid a =
     (case ap_shared a of
        Some (i, p) \<Rightarrow>
          if p = pid then (i, a)
          else (case new_session a of (j, a1) \<Rightarrow> (j, a1\<lparr>ap_shared := Some (j, pid)\<rparr>))
      | None \<Rightarrow> (case new_session a of (j, a1) \<Rightarrow> (j, a1\<lparr>ap_shared := Some (j, pid)\<rparr>)))"

definition close_shared_session :: "api \<Rightarrow> api" where
  "close_shared_session a =
     (case ap_shared a of
        None \<Rightarrow> a
      | Some (i, p) \<Rightarrow> end_session i (a\<lparr>ap_shared := None\<rparr>))"

section \<open>Requests\<close>

text \<open>The options that are for a constructor, and the rest of the call.\<close>

definition constructor_options :: "'v kwargs \<Rightarrow> 'v kwargs" where
  "constructor_options kw = filter (\<lambda>(k, v). k \<in> set SESSION_ONLY \<and> v \<noteq> KNone) kw"

definition call_options_of :: "'v kwargs \<Rightarrow> 'v kwargs" where
  "call_options_of kw = filter (\<lambda>(k, v). \<not> (k \<in> set SESSION_ONLY \<and> v \<noteq> KNone)) kw"

text \<open>
  \<open>request\<close>: the session that gets the request, how it was constructed and the keywords it
  is called with.  The \<open>with\<close> statement closes a private session however the call ends.
\<close>

definition api_request ::
  "int \<Rightarrow> string \<Rightarrow> 'v kwargs \<Rightarrow> api \<Rightarrow> (exc_class + nat \<times> 'v kwargs \<times> string \<times> 'v kwargs) \<times> api" where
  "api_request pid verb kw a =
     (let cons = constructor_options kw; rest = call_options_of kw in
      if cons \<noteq> []
      then if \<not> accepts SESSION_KEYWORDS cons then (Inl TypeError, a)
           else (case new_session a of (i, a1) \<Rightarrow>
                   (if accepts REQUEST_KEYWORDS rest then Inr (i, cons, verb, rest) else Inl TypeError,
                    end_session i a1))
      else (case shared_session pid a of (i, a1) \<Rightarrow>
              (if accepts REQUEST_KEYWORDS rest then Inr (i, [], verb, rest) else Inl TypeError, a1)))"

definition api_get ::
  "int \<Rightarrow> 'v kwarg \<Rightarrow> 'v kwargs \<Rightarrow> api \<Rightarrow> (exc_class + nat \<times> 'v kwargs \<times> string \<times> 'v kwargs) \<times> api" where
  "api_get pid params kw a = api_request pid ''GET'' ((''params'', params) # kw) a"

definition api_head ::
  "int \<Rightarrow> 'v kwargs \<Rightarrow> api \<Rightarrow> (exc_class + nat \<times> 'v kwargs \<times> string \<times> 'v kwargs) \<times> api" where
  "api_head pid kw a = api_request pid ''HEAD'' (od_setdefault ''allow_redirects'' KFalse kw) a"

definition api_post ::
  "int \<Rightarrow> 'v kwarg \<Rightarrow> 'v kwarg \<Rightarrow> 'v kwargs \<Rightarrow> api
   \<Rightarrow> (exc_class + nat \<times> 'v kwargs \<times> string \<times> 'v kwargs) \<times> api" where
  "api_post pid data json kw a = api_request pid ''POST'' ((''data'', data) # (''json'', json) # kw) a"

text \<open>\<open>put\<close> and \<open>patch\<close> name \<open>data\<close>; \<open>options\<close>, \<open>delete\<close>, \<open>trace\<close> and \<open>query\<close> name nothing.\<close>

definition api_put ::
  "int \<Rightarrow> 'v kwarg \<Rightarrow> 'v kwargs \<Rightarrow> api \<Rightarrow> (exc_class + nat \<times> 'v kwargs \<times> string \<times> 'v kwargs) \<times> api" where
  "api_put pid data kw a = api_request pid ''PUT'' ((''data'', data) # kw) a"

definition api_patch ::
  "int \<Rightarrow> 'v kwarg \<Rightarrow> 'v kwargs \<Rightarrow> api \<Rightarrow> (exc_class + nat \<times> 'v kwargs \<times> string \<times> 'v kwargs) \<times> api" where
  "api_patch pid data kw a = api_request pid ''PATCH'' ((''data'', data) # kw) a"

definition api_options ::
  "int \<Rightarrow> 'v kwargs \<Rightarrow> api \<Rightarrow> (exc_class + nat \<times> 'v kwargs \<times> string \<times> 'v kwargs) \<times> api" where
  "api_options pid kw a = api_request pid ''OPTIONS'' kw a"

definition api_delete ::
  "int \<Rightarrow> 'v kwargs \<Rightarrow> api \<Rightarrow> (exc_class + nat \<times> 'v kwargs \<times> string \<times> 'v kwargs) \<times> api" where
  "api_delete pid kw a = api_request pid ''DELETE'' kw a"

definition api_trace ::
  "int \<Rightarrow> 'v kwargs \<Rightarrow> api \<Rightarrow> (exc_class + nat \<times> 'v kwargs \<times> string \<times> 'v kwargs) \<times> api" where
  "api_trace pid kw a = api_request pid ''TRACE'' kw a"

definition api_query ::
  "int \<Rightarrow> 'v kwargs \<Rightarrow> api \<Rightarrow> (exc_class + nat \<times> 'v kwargs \<times> string \<times> 'v kwargs) \<times> api" where
  "api_query pid kw a = api_request pid ''QUERY'' kw a"

text \<open>\<open>session()\<close> constructs a \<open>Session\<close>, which the caller owns and closes.\<close>

definition api_session :: "'v kwargs \<Rightarrow> api \<Rightarrow> exc_class + nat \<times> api" where
  "api_session kw a = (if accepts SESSION_KEYWORDS kw then Inr (new_session a) else Inl TypeError)"

section \<open>A process\<close>

datatype 'v api_op = ApiCall string "'v kwargs" | ApiShared | ApiClose

fun api_apply :: "int \<Rightarrow> 'v api_op \<Rightarrow> api \<Rightarrow> api" where
  "api_apply pid (ApiCall verb kw) a = snd (api_request pid verb kw a)"
| "api_apply pid ApiShared a = snd (shared_session pid a)"
| "api_apply pid ApiClose a = close_shared_session a"

definition api_inv :: "int \<Rightarrow> api \<Rightarrow> bool" where
  "api_inv pid a \<longleftrightarrow>
     (case ap_shared a of
        None \<Rightarrow> ap_open a = []
      | Some (i, p) \<Rightarrow> p = pid \<and> ap_open a = [i] \<and> i < ap_made a)"

lemma api_inv_init: "api_inv pid api_init"
  by (simp add: api_inv_def api_init_def)

lemma api_inv_shared: "api_inv pid a \<Longrightarrow> api_inv pid (snd (shared_session pid a))"
  by (auto simp: api_inv_def shared_session_def new_session_def split: option.splits)

lemma api_inv_private: "api_inv pid a \<Longrightarrow> api_inv pid (end_session (ap_made a) (snd (new_session a)))"
  by (auto simp: api_inv_def end_session_def new_session_def split: option.splits)

lemma api_inv_request: "api_inv pid a \<Longrightarrow> api_inv pid (snd (api_request pid verb kw a))"
  using api_inv_private [of pid a] api_inv_shared [of pid a]
  by (cases "shared_session pid a") (simp add: api_request_def Let_def new_session_def)

interpretation ap: safe_machine "api_apply pid" "api_inv pid" for pid
proof
  fix a :: api and op :: "'v api_op"
  assume inv: "api_inv pid a"
  show "api_inv pid (api_apply pid op a)"
  proof (cases op)
    case ApiClose
    with inv show ?thesis
      by (auto simp: api_inv_def close_shared_session_def end_session_def split: option.splits)
  qed (simp_all add: inv api_inv_request api_inv_shared)
qed

definition api_run :: "int \<Rightarrow> 'v api_op list \<Rightarrow> api \<Rightarrow> api" where
  "api_run pid ops a = fold (api_apply pid) ops a"

lemma api_inv_run: "api_inv pid (api_run pid ops api_init)"
  using ap.inv_run [OF api_inv_init, of pid ops] by (simp add: ap.run_def api_run_def)

text \<open>
  C28: In one process, whatever calls are made and however they end, no session stays open but
  the shared one, and it stays the shared one until it is closed; a forked child that asks
  for it gets a session made anew.
\<close>

theorem api_one_open_session:
  "ap_open (api_run pid ops api_init)
     = (case ap_shared (api_run pid ops api_init) of None \<Rightarrow> [] | Some (i, p) \<Rightarrow> [i])
   \<and> (case shared_session pid (api_run pid ops api_init) of
        (i, a) \<Rightarrow> fst (shared_session pid (snd (api_request pid verb kw a))) = i
          \<and> fst (shared_session (pid + 1) a) = ap_made a \<and> i < ap_made a)"
proof -
  let ?a = "api_run pid ops api_init"
  have inv: "api_inv pid ?a" by (rule api_inv_run)
  obtain i a where sh: "shared_session pid ?a = (i, a)" by fastforce
  with api_inv_shared [OF inv] have a: "api_inv pid a" by simp
  from sh have s: "ap_shared a = Some (i, pid)"
    by (auto simp: shared_session_def new_session_def split: option.splits if_splits prod.splits)
  then have "ap_shared (snd (api_request pid verb kw a)) = Some (i, pid)"
    by (simp add: api_request_def Let_def new_session_def end_session_def shared_session_def)
  with s a inv sh show ?thesis
    by (auto simp: shared_session_def new_session_def api_inv_def split: option.splits)
qed

text \<open>
  A call gets a session of its own exactly when it gives a constructor option other than
  \<open>None\<close>; that session is new and closed when the call returns, any other call goes to the
  shared session, and every keyword reaches one of the two, in the order given.
\<close>

theorem api_request_routes:
  assumes "api_request pid verb kw a = (Inr (i, cons, v, rest), a')"
  shows "v = verb \<and> mset cons + mset rest = mset kw
    \<and> (if list_ex (\<lambda>(k, x). k \<in> set SESSION_ONLY \<and> x \<noteq> KNone) kw
       then i = ap_made a \<and> i \<notin> set (ap_open a') \<and> ap_shared a' = ap_shared a \<and> cons \<noteq> []
       else (i, a') = shared_session pid a \<and> cons = [] \<and> rest = kw)
    \<and> list_all (\<lambda>(k, x). k \<in> set SESSION_ONLY \<and> x \<noteq> KNone) cons \<and> accepts REQUEST_KEYWORDS rest"
proof -
  have some: "constructor_options kw \<noteq> [] \<longleftrightarrow> list_ex (\<lambda>(k, x). k \<in> set SESSION_ONLY \<and> x \<noteq> KNone) kw"
    by (auto simp: constructor_options_def filter_empty_conv list_ex_iff)
  have parts: "mset (constructor_options kw) + mset (call_options_of kw) = mset kw"
    using multiset_partition [of "mset kw" "\<lambda>(k, x). k \<in> set SESSION_ONLY \<and> x \<noteq> KNone"]
    by (simp add: constructor_options_def call_options_of_def split_def flip: mset_filter)
  have all: "list_all (\<lambda>(k, x). k \<in> set SESSION_ONLY \<and> x \<noteq> KNone) (constructor_options kw)"
    by (auto simp: constructor_options_def list_all_iff)
  show ?thesis
  proof (cases "constructor_options kw = []")
    case True
    then have "call_options_of kw = kw"
      by (auto simp: constructor_options_def call_options_of_def filter_empty_conv filter_id_conv)
    with True assms parts some show ?thesis
      by (auto simp: api_request_def Let_def split: prod.splits if_splits)
  next
    case False
    with assms parts some all show ?thesis
      by (auto simp: api_request_def Let_def new_session_def end_session_def split: if_splits)
  qed
qed

theorem api_request_routes_witness:
  "\<exists>i a'. api_request 7 ''GET'' [(''base_url'', KValue ''http://h/''), (''timeout'', KNone)] api_init
       = (Inr (i, [(''base_url'', KValue ''http://h/'')], ''GET'', [(''timeout'', KNone)]), a')
     \<and> i = 0 \<and> i \<notin> set (ap_open a')"
proof -
  let ?kw = "[(''base_url'', KValue ''http://h/''), (''timeout'', KNone)]"
  have "\<exists>i a'. api_request 7 ''GET'' ?kw api_init
      = (Inr (i, [(''base_url'', KValue ''http://h/'')], ''GET'', [(''timeout'', KNone)]), a')"
    by (simp add: api_request_def constructor_options_def call_options_of_def accepts_def SESSION_ONLY_def
        SESSION_KEYWORDS_def REQUEST_KEYWORDS_def new_session_def)
  then obtain i a' where r: "api_request 7 ''GET'' ?kw api_init
      = (Inr (i, [(''base_url'', KValue ''http://h/'')], ''GET'', [(''timeout'', KNone)]), a')" by blast
  from api_request_routes [OF r] have "i = 0 \<and> i \<notin> set (ap_open a')"
    by (auto simp: SESSION_ONLY_def api_init_def)
  with r show ?thesis by blast
qed

text \<open>
  \<open>max_clients\<close> is listed as a constructor option, but the constructor it is given to is
  that of \<open>Session\<close>, which has no such parameter.
\<close>

theorem api_max_clients_refused:
  assumes "(''max_clients'', KValue n) \<in> set kw"
  shows "api_request pid verb kw a = (Inl TypeError, a)"
proof -
  have "(''max_clients'', KValue n) \<in> set (constructor_options kw)"
    using assms by (simp add: constructor_options_def SESSION_ONLY_def)
  moreover have "''max_clients'' \<notin> set SESSION_KEYWORDS" by (simp add: SESSION_KEYWORDS_def)
  ultimately show ?thesis
    by (auto simp: api_request_def Let_def accepts_def list_all_iff)
qed

text \<open>
  A constructor option given as \<open>None\<close> is left among the keywords of the call, whose
  signature has no such parameter.
\<close>

theorem api_none_option_refused:
  assumes "(''base_url'', KNone) \<in> set kw"
  shows "fst (api_request pid verb kw a) = Inl TypeError"
proof -
  have "(''base_url'', KNone) \<in> set (call_options_of kw)"
    using assms by (simp add: call_options_of_def)
  moreover have "''base_url'' \<notin> set REQUEST_KEYWORDS" by (simp add: REQUEST_KEYWORDS_def)
  ultimately have "\<not> accepts REQUEST_KEYWORDS (call_options_of kw)"
    by (auto simp: accepts_def list_all_iff)
  then show ?thesis by (simp add: api_request_def Let_def split: prod.split)
qed

end
