(* ===== verification/Client_Hello.thy ===== *)
theory Client_Hello
  imports Py_Prelude "HOL-Library.Word" "HOL-Library.Char_ord" "HOL-Library.List_Lexorder"
begin

text \<open>
  \<open>tools/inspect-client-hello.py\<close>: reading one TLS record off a socket, parsing the
  ClientHello in it, and comparing the extension sets of several samples.  Octets are
  8-bit words; a socket is the list of segments its \<open>recv\<close> will return, an empty segment
  or none being the end of the stream.  Opening sockets and driving the client is outside.
\<close>

section \<open>Octets\<close>

type_synonym octets = "8 word list"

datatype hello_error = Eof | BadIndex | BadStruct | BadRecord

definition be16 :: "8 word \<Rightarrow> 8 word \<Rightarrow> nat" where
  "be16 a b = unat a * 256 + unat b"

definition octet_at :: "octets \<Rightarrow> nat \<Rightarrow> hello_error + nat" where
  "octet_at view i = (if i < length view then Inr (unat (view ! i)) else Inl BadIndex)"

text \<open>\<open>struct.unpack_from("!nH", view, i)\<close>\<close>

fun be16s :: "octets \<Rightarrow> nat list" where
  "be16s (a # b # s) = be16 a b # be16s s"
| "be16s s = []"

definition unpack_u16s :: "nat \<Rightarrow> octets \<Rightarrow> nat \<Rightarrow> hello_error + nat list" where
  "unpack_u16s n view i =
     (if i + 2 * n \<le> length view then Inr (be16s (take (2 * n) (drop i view))) else Inl BadStruct)"

definition unpack_u16 :: "octets \<Rightarrow> nat \<Rightarrow> hello_error + nat" where
  "unpack_u16 view i =
     (if i + 2 \<le> length view then Inr (be16 (view ! i) (view ! (i + 1))) else Inl BadStruct)"

section \<open>Reading the record\<close>

function read_exact :: "nat \<Rightarrow> octets \<Rightarrow> octets list \<Rightarrow> hello_error + octets \<times> octets list" where
  "read_exact n buf segs =
     (if n \<le> length buf then Inr (buf, segs)
      else case segs of
        [] \<Rightarrow> Inl Eof
      | seg # rest \<Rightarrow>
          if seg = [] then Inl Eof
          else let k = n - length buf
               in read_exact n (buf @ take k seg) (if length seg \<le> k then rest else drop k seg # rest))"
  by pat_completeness auto
termination
  by (relation "measure (\<lambda>(n, buf, segs). n - length buf)") (auto simp: min_def neq_Nil_conv)

declare read_exact.simps [simp del]

definition read_client_hello :: "octets list \<Rightarrow> hello_error + octets" where
  "read_client_hello segs =
     bind_res (read_exact 5 [] segs) (\<lambda>(header, rest).
       if unat (header ! 0) \<noteq> 22 then Inl BadRecord
       else bind_res (read_exact (be16 (header ! 3) (header ! 4)) [] rest) (\<lambda>(body, _).
         if body = [] \<or> unat (hd body) \<noteq> 1 then Inl BadRecord else Inr (drop 4 body)))"

section \<open>Parsing the ClientHello\<close>

text \<open>\<open>while offset + 4 <= end\<close>; the payload is a slice, which the view's end cuts short.\<close>

function extension_loop :: "octets \<Rightarrow> nat \<Rightarrow> nat \<Rightarrow> hello_error + (nat \<times> octets) list" where
  "extension_loop view offset stop =
     (if offset + 4 \<le> stop
      then bind_res (unpack_u16s 2 view offset) (\<lambda>h.
        let len = h ! 1 in
        bind_res (extension_loop view (offset + 4 + len) stop) (\<lambda>rest.
          Inr ((h ! 0, take len (drop (offset + 4) view)) # rest)))
      else Inr [])"
  by pat_completeness auto
termination
  by (relation "measure (\<lambda>(view, offset, stop). stop - offset)") auto

declare extension_loop.simps [simp del]

definition parse_client_hello :: "octets \<Rightarrow> hello_error + nat list \<times> (nat \<times> octets) list" where
  "parse_client_hello view =
     bind_res (octet_at view 34) (\<lambda>session_len.
     let o1 = 35 + session_len in
     bind_res (unpack_u16 view o1) (\<lambda>cipher_len.
     bind_res (unpack_u16s (cipher_len div 2) view (o1 + 2)) (\<lambda>ciphers.
     let o2 = o1 + 2 + cipher_len in
     bind_res (octet_at view o2) (\<lambda>compression_len.
     let o3 = o2 + 1 + compression_len in
     if o3 + 2 \<le> length view
     then bind_res (unpack_u16 view o3) (\<lambda>total_len.
            bind_res (extension_loop view (o3 + 2) (o3 + 2 + total_len)) (\<lambda>extensions.
              Inr (ciphers, extensions)))
     else Inr (ciphers, [])))))"

section \<open>Trust anchors\<close>

definition hex_of :: "nat \<Rightarrow> char" where
  "hex_of n = (if n < 10 then char_of (48 + n) else char_of (87 + n))"

definition octets_hex :: "octets \<Rightarrow> string" where
  "octets_hex bs = concat (map (\<lambda>b. [hex_of (unat b div 16), hex_of (unat b mod 16)]) bs)"

text \<open>The identifiers, as octets, up to the first one that is empty or cut short.\<close>

function anchor_loop :: "octets \<Rightarrow> octets list" where
  "anchor_loop inner =
     (case inner of
        [] \<Rightarrow> []
      | l # rest \<Rightarrow>
          if unat l = 0 \<or> length rest < unat l then []
          else take (unat l) rest # anchor_loop (drop (unat l) rest))"
  by pat_completeness auto
termination
  by (relation "measure length") auto

declare anchor_loop.simps [simp del]

definition decode_trust_anchors :: "octets \<Rightarrow> string list" where
  "decode_trust_anchors payload =
     (case payload of
        a # b # rest \<Rightarrow> map octets_hex (anchor_loop (take (be16 a b) rest))
      | _ \<Rightarrow> [])"

section \<open>Comparing samples\<close>

definition GREASE_VALUES :: "nat list" where
  "GREASE_VALUES = map (\<lambda>i. (16 * i + 10) * 256 + (16 * i + 10)) [0..<16]"

definition TRUST_ANCHORS :: nat where "TRUST_ANCHORS = 0xCA34"

type_synonym sample = "nat list \<times> (nat \<times> octets) list"

definition plain_types :: "sample \<Rightarrow> nat list" where
  "plain_types s = filter (\<lambda>t. t \<notin> set GREASE_VALUES) (map fst (snd s))"

record summary_report =
  sr_stable :: "nat list"
  sr_varying :: "nat list"
  sr_anchors :: "string list"
  sr_anchor_sets :: nat
  sr_anchor_orders :: nat

definition anchor_lists :: "sample \<Rightarrow> string list list" where
  "anchor_lists s = map (\<lambda>(t, p). decode_trust_anchors p) (filter (\<lambda>(t, p). t = TRUST_ANCHORS) (snd s))"

text \<open>\<open>describe\<close>; without a sample it fails on the empty intersection.\<close>

definition describe_samples :: "sample list \<Rightarrow> summary_report option" where
  "describe_samples samples =
     (case samples of
        [] \<Rightarrow> None
      | first # _ \<Rightarrow>
          let stable = sort (remdups (filter (\<lambda>t. list_all (\<lambda>s. t \<in> set (plain_types s)) samples) (plain_types first)));
              seen = sort (remdups (concat (map plain_types samples)));
              all_anchors = concat (map anchor_lists samples)
          in Some \<lparr>sr_stable = stable, sr_varying = filter (\<lambda>t. t \<notin> set stable) seen,
                   sr_anchors = (case anchor_lists first of [] \<Rightarrow> [] | a # _ \<Rightarrow> sort a),
                   sr_anchor_sets = length (remdups (map sort all_anchors)),
                   sr_anchor_orders = length (remdups all_anchors)\<rparr>)"

text \<open>What the closing comparison prints: the stable types only one of two profiles has.\<close>

definition extension_diff :: "summary_report \<Rightarrow> summary_report \<Rightarrow> nat list \<times> nat list" where
  "extension_diff a b =
     (filter (\<lambda>t. t \<notin> set (sr_stable b)) (sr_stable a), filter (\<lambda>t. t \<notin> set (sr_stable a)) (sr_stable b))"

section \<open>Reading\<close>

lemma read_exact_spec:
  "[] \<notin> set segs \<Longrightarrow>
   read_exact n buf segs = (r :: hello_error + octets \<times> octets list) \<Longrightarrow>
   (if n \<le> length (buf @ concat segs)
    then \<exists>rest. r = Inr (buf @ take (n - length buf) (concat segs), rest)
           \<and> concat rest = drop (n - length buf) (concat segs) \<and> [] \<notin> set rest
    else r = Inl Eof)"
proof (induction n buf segs arbitrary: r rule: read_exact.induct)
  case (1 n buf segs)
  show ?case
  proof (cases "n \<le> length buf")
    case True
    with 1(2,3) show ?thesis by (subst (asm) read_exact.simps) auto
  next
    case big: False
    show ?thesis
    proof (cases segs)
      case Nil
      with big 1(3) show ?thesis by (subst (asm) read_exact.simps) auto
    next
      case (Cons seg rest)
      let ?k = "n - length buf" and ?rest = "if length seg \<le> n - length buf then rest else drop (n - length buf) seg # rest"
      have ne: "seg \<noteq> []" "[] \<notin> set ?rest" using 1(2) Cons by auto
      have r: "read_exact n (buf @ take ?k seg) ?rest = r"
        using 1(3) big Cons ne by (subst (asm) read_exact.simps) (simp add: Let_def)
      have cat: "take ?k seg @ concat ?rest = seg @ concat rest" by auto
      note ih = 1(1) [OF big Cons ne(1) refl ne(2) r]
      show ?thesis
      proof (cases "n \<le> length (buf @ concat segs)")
        case True
        then have "n \<le> length ((buf @ take ?k seg) @ concat ?rest)" using cat by (metis append_assoc concat.simps(2) Cons)
        with ih obtain t where t: "r = Inr ((buf @ take ?k seg) @ take (n - length (buf @ take ?k seg)) (concat ?rest), t)"
          "concat t = drop (n - length (buf @ take ?k seg)) (concat ?rest)" "[] \<notin> set t" by auto
        have "take ?k (concat segs) = take ?k seg @ take (n - length (buf @ take ?k seg)) (concat ?rest)
            \<and> drop ?k (concat segs) = drop (n - length (buf @ take ?k seg)) (concat ?rest)"
          by (auto simp: Cons min_def)
        with t True show ?thesis by auto
      next
        case False
        then have "\<not> n \<le> length ((buf @ take ?k seg) @ concat ?rest)" using cat by (metis append_assoc concat.simps(2) Cons)
        with ih False show ?thesis by auto
      qed
    qed
  qed
qed

lemma read_exact_stream:
  assumes "[] \<notin> set segs" and "[] \<notin> set segs'" and "concat segs = concat segs'"
  shows "(read_exact n [] segs = Inl Eof \<and> read_exact n [] segs' = Inl Eof)
    \<or> (\<exists>b r r'. read_exact n [] segs = Inr (b, r) \<and> read_exact n [] segs' = Inr (b, r')
          \<and> [] \<notin> set r \<and> [] \<notin> set r' \<and> concat r = concat r')"
  using read_exact_spec [OF assms(1) refl, of n "[]"] read_exact_spec [OF assms(2) refl, of n "[]"] assms(3)
  by (auto split: if_splits)

text \<open>
  C37: How the network cuts the stream into segments does not matter for what is read as the
  ClientHello, nor for the error when there is none.
\<close>

theorem hello_any_segmentation:
  assumes "[] \<notin> set segs" and "[] \<notin> set segs'" and "concat segs = concat segs'"
  shows "read_client_hello segs = read_client_hello segs'"
proof -
  note h = read_exact_stream [OF assms, of 5]
  show ?thesis
  proof (cases "read_exact 5 [] segs")
    case (Inl e)
    with h show ?thesis by (auto simp: read_client_hello_def)
  next
    case (Inr br)
    with h obtain b r r' where "read_exact 5 [] segs = Inr (b, r)" "read_exact 5 [] segs' = Inr (b, r')"
      and r: "[] \<notin> set r" "[] \<notin> set r'" "concat r = concat r'" by auto
    with read_exact_stream [OF r, of "be16 (b ! 3) (b ! 4)"] show ?thesis
      by (auto simp: read_client_hello_def)
  qed
qed

theorem hello_any_segmentation_witness:
  "read_client_hello [[22, 3, 1], [0], [5, 1, 0, 0], [1, 9]] = read_client_hello [[22, 3, 1, 0, 5, 1, 0, 0, 1, 9]]"
  by (rule hello_any_segmentation) simp_all

section \<open>Parsing what was built\<close>

definition be :: "nat \<Rightarrow> octets" where
  "be n = [of_nat (n div 256), of_nat (n mod 256)]"

lemma unat_be: "n < 65536 \<Longrightarrow> unat (of_nat (n div 256) :: 8 word) = n div 256"
  "unat (of_nat (n mod 256) :: 8 word) = n mod 256"
  by (simp_all add: unat_of_nat take_bit_eq_mod)

lemma be16_be: "n < 65536 \<Longrightarrow> be16 (of_nat (n div 256)) (of_nat (n mod 256)) = n"
  by (simp add: be16_def unat_be)

lemma length_be [simp]: "length (be n) = 2"
  by (simp add: be_def)

lemma be16s_be: "\<forall>n \<in> set ns. n < 65536 \<Longrightarrow> be16s (concat (map be ns)) = ns"
  by (induction ns) (auto simp: be_def be16_be)

lemma length_bes: "length (concat (map be ns)) = 2 * length ns"
  by (induction ns) auto

lemma unpack_u16_mid: "n < 65536 \<Longrightarrow> unpack_u16 (pre @ be n @ post) (length pre) = Inr n"
  by (simp add: unpack_u16_def nth_append be_def be16_be)

lemma unpack_u16s_mid:
  "\<forall>n \<in> set ns. n < 65536 \<Longrightarrow>
   unpack_u16s (length ns) (pre @ concat (map be ns) @ post) (length pre) = Inr ns"
  by (simp add: unpack_u16s_def length_bes be16s_be)

lemma octet_at_mid: "n < 256 \<Longrightarrow> octet_at (pre @ of_nat n # post) (length pre) = Inr n"
  by (simp add: octet_at_def nth_append unat_of_nat take_bit_eq_mod)

definition extension_octets :: "(nat \<times> octets) list \<Rightarrow> octets" where
  "extension_octets es = concat (map (\<lambda>(t, p). be t @ be (length p) @ p) es)"

definition valid_extensions :: "(nat \<times> octets) list \<Rightarrow> bool" where
  "valid_extensions es \<longleftrightarrow> list_all (\<lambda>(t, p). t < 65536 \<and> length p < 65536) es"

lemma extension_loop_octets:
  "valid_extensions es \<Longrightarrow>
   extension_loop (pre @ extension_octets es @ post) (length pre) (length pre + length (extension_octets es)) = Inr es"
proof (induction es arbitrary: pre)
  case Nil
  then show ?case by (subst extension_loop.simps) (simp add: extension_octets_def)
next
  case (Cons e es)
  obtain t p where e: "e = (t, p)" by (cases e)
  let ?view = "pre @ extension_octets (e # es) @ post"
  let ?pre = "pre @ be t @ be (length p) @ p"
  have view: "?view = ?pre @ extension_octets es @ post" by (simp add: e extension_octets_def)
  have "?view = pre @ concat (map be [t, length p]) @ (p @ extension_octets es @ post)"
    by (simp add: e extension_octets_def)
  then have head: "unpack_u16s 2 ?view (length pre) = Inr [t, length p]"
    using unpack_u16s_mid [of "[t, length p]" pre "p @ extension_octets es @ post"] Cons.prems
    by (simp add: e valid_extensions_def numeral_2_eq_2)
  have payload: "take (length p) (drop (length pre + 4) ?view) = p" by (simp add: e extension_octets_def)
  have stop: "length pre + length (extension_octets (e # es)) = length ?pre + length (extension_octets es)"
    by (simp add: e extension_octets_def)
  have rest: "extension_loop ?view (length pre + 4 + length p) (length pre + length (extension_octets (e # es))) = Inr es"
  proof -
    have off: "length pre + 4 + length p = length ?pre" by simp
    have "valid_extensions es" using Cons.prems by (simp add: valid_extensions_def)
    then show ?thesis unfolding view stop off by (rule Cons.IH)
  qed
  show ?case
    using head rest payload by (subst extension_loop.simps) (simp add: e extension_octets_def)
qed

definition hello_octets ::
  "octets \<Rightarrow> octets \<Rightarrow> nat list \<Rightarrow> octets \<Rightarrow> (nat \<times> octets) list \<Rightarrow> octets" where
  "hello_octets start session ciphers compression es =
     start @ of_nat (length session) # session @ be (2 * length ciphers) @ concat (map be ciphers)
       @ of_nat (length compression) # compression @ be (length (extension_octets es)) @ extension_octets es"

text \<open>
  C36: Parsing a ClientHello gives back the cipher suites and the extensions, payloads and
  order included, that it was built from.
\<close>

theorem parse_client_hello_roundtrip:
  assumes "length start = 34" and "length session < 256" and "length compression < 256"
    and "\<forall>c \<in> set ciphers. c < 65536" and "2 * length ciphers < 65536"
    and "valid_extensions es" and "length (extension_octets es) < 65536"
  shows "parse_client_hello (hello_octets start session ciphers compression es) = Inr (ciphers, es)"
proof -
  let ?view = "hello_octets start session ciphers compression es"
  let ?tail = "be (length (extension_octets es)) @ extension_octets es"
  let ?c = "concat (map be ciphers)"
  let ?p1 = "start @ of_nat (length session) # session"
  let ?p2 = "?p1 @ be (2 * length ciphers)"
  let ?p3 = "?p2 @ ?c"
  let ?p4 = "?p3 @ of_nat (length compression) # compression"
  have v: "?view = start @ of_nat (length session) # (session @ be (2 * length ciphers) @ ?c
        @ of_nat (length compression) # compression @ ?tail)"
    "?view = ?p1 @ be (2 * length ciphers) @ (?c @ of_nat (length compression) # compression @ ?tail)"
    "?view = ?p2 @ ?c @ (of_nat (length compression) # compression @ ?tail)"
    "?view = ?p3 @ of_nat (length compression) # (compression @ ?tail)"
    "?view = ?p4 @ be (length (extension_octets es)) @ extension_octets es"
    "?view = (?p4 @ be (length (extension_octets es))) @ extension_octets es @ []"
    by (simp_all add: hello_octets_def)
  have len: "length ?p1 = 35 + length session" "length ?p2 = 35 + length session + 2"
    "length ?p3 = 35 + length session + 2 + 2 * length ciphers"
    "length ?p4 = 35 + length session + 2 + 2 * length ciphers + 1 + length compression"
    using assms(1) by (simp_all add: length_bes)
  have s1: "octet_at ?view 34 = Inr (length session)"
    using octet_at_mid [OF assms(2), of start] unfolding v(1) assms(1) by simp
  have s2: "unpack_u16 ?view (35 + length session) = Inr (2 * length ciphers)"
    using unpack_u16_mid [OF assms(5), of ?p1] unfolding v(2) len(1) by simp
  have s3: "unpack_u16s (length ciphers) ?view (35 + length session + 2) = Inr ciphers"
    using unpack_u16s_mid [OF assms(4), of ?p2] unfolding v(3) len(2) by simp
  have s4: "octet_at ?view (35 + length session + 2 + 2 * length ciphers) = Inr (length compression)"
    using octet_at_mid [OF assms(3), of ?p3] unfolding v(4) len(3) by simp
  have s5: "unpack_u16 ?view (length ?p4) = Inr (length (extension_octets es))"
    using unpack_u16_mid [OF assms(7), of ?p4 "extension_octets es"] unfolding v(5) by simp
  have s6: "extension_loop ?view (length ?p4 + 2) (length ?p4 + 2 + length (extension_octets es)) = Inr es"
    using extension_loop_octets [OF assms(6), of "?p4 @ be (length (extension_octets es))" "[]"] unfolding v(6) by simp
  have big: "length ?p4 + 2 \<le> length ?view" unfolding v(5) by simp
  show ?thesis
    unfolding parse_client_hello_def Let_def s1 bind_res_simps s2 s3
    using s3 s4 s5 s6 big unfolding len(4) by simp
qed

theorem parse_client_hello_roundtrip_witness:
  "parse_client_hello (hello_octets (replicate 34 7) [1, 2] [0x1301, 0x1302] [0] [(0, [5]), (0xCA34, [])])
     = Inr ([0x1301, 0x1302], [(0, [5]), (0xCA34, [])])"
  by (rule parse_client_hello_roundtrip) (simp_all add: valid_extensions_def extension_octets_def)

section \<open>Trust anchors\<close>

definition anchor_octets :: "octets list \<Rightarrow> octets" where
  "anchor_octets ids = concat (map (\<lambda>i. of_nat (length i) # i) ids)"

definition valid_anchors :: "octets list \<Rightarrow> bool" where
  "valid_anchors ids \<longleftrightarrow> list_all (\<lambda>i. i \<noteq> [] \<and> length i < 256) ids"

lemma anchor_loop_octets:
  "valid_anchors ids \<Longrightarrow> anchor_loop tail = [] \<Longrightarrow> anchor_loop (anchor_octets ids @ tail) = ids"
proof (induction ids)
  case (Cons i ids)
  then have i: "i \<noteq> []" "unat (of_nat (length i) :: 8 word) = length i"
    by (auto simp: valid_anchors_def unat_of_nat take_bit_eq_mod)
  then show ?case
    using Cons by (subst anchor_loop.simps) (simp add: anchor_octets_def valid_anchors_def)
qed (simp add: anchor_octets_def)

text \<open>
  The identifiers in a trust-anchor extension are recovered in order, also when the
  list ends in one that is cut short, which is left out.
\<close>

theorem decode_trust_anchors_prefix:
  assumes "valid_anchors ids" and "frag = [] \<or> length frag \<le> unat (hd frag) \<or> hd frag = 0"
    and "length (anchor_octets ids @ frag) < 65536"
  shows "decode_trust_anchors (be (length (anchor_octets ids @ frag)) @ anchor_octets ids @ frag @ more_octets)
       = map octets_hex ids"
proof -
  have "anchor_loop frag = []"
    using assms(2) by (subst anchor_loop.simps) (auto split: list.split)
  moreover have "decode_trust_anchors (be (length x) @ x @ more_octets) = map octets_hex (anchor_loop x)"
    if "length x < 65536" for x
    using that by (simp add: decode_trust_anchors_def be_def be16_be)
  ultimately show ?thesis
    using anchor_loop_octets [OF assms(1)] assms(3) by (metis append_assoc)
qed

theorem decode_trust_anchors_prefix_witness:
  "decode_trust_anchors [0, 6, 2, 0xAB, 0x01, 1, 0xFF, 3] = map octets_hex [[0xAB, 0x01], [0xFF]]"
  using decode_trust_anchors_prefix [of "[[0xAB, 0x01], [0xFF]]" "[3]" "[]"]
  by (simp add: valid_anchors_def anchor_octets_def be_def)

section \<open>Samples\<close>

text \<open>
  Over several samples of a profile the stable extension set is what every sample
  carries and the varying set what only some do; GREASE is in neither, and the order in
  which the samples were taken does not matter.
\<close>

theorem describe_samples_partition:
  assumes "describe_samples samples = Some r"
  shows "set (sr_stable r) = (\<Inter>s \<in> set samples. set (plain_types s))
    \<and> set (sr_varying r) = (\<Union>s \<in> set samples. set (plain_types s)) - set (sr_stable r)
    \<and> set (sr_stable r) \<inter> set GREASE_VALUES = {} \<and> sorted (sr_stable r) \<and> distinct (sr_stable r)"
proof (cases samples)
  case (Cons first rest)
  let ?stable = "sort (remdups (filter (\<lambda>t. list_all (\<lambda>s. t \<in> set (plain_types s)) samples) (plain_types first)))"
  have r: "sr_stable r = ?stable"
    "sr_varying r = filter (\<lambda>t. t \<notin> set ?stable) (sort (remdups (concat (map plain_types samples))))"
    using assms unfolding Cons describe_samples_def Let_def by auto
  have st: "set (sr_stable r) = (\<Inter>s \<in> set samples. set (plain_types s))"
    unfolding r(1) by (auto simp: Cons list_all_iff)
  moreover have "set (sr_varying r) = (\<Union>s \<in> set samples. set (plain_types s)) - set (sr_stable r)"
    unfolding r by auto
  moreover have "set (sr_stable r) \<inter> set GREASE_VALUES = {}"
    unfolding st by (auto simp: Cons plain_types_def)
  moreover have "sorted (sr_stable r)" "distinct (sr_stable r)" unfolding r(1) by simp_all
  ultimately show ?thesis by blast
qed (use assms in \<open>simp add: describe_samples_def\<close>)

theorem describe_samples_partition_witness:
  "\<exists>r. describe_samples [([], [(0x0A0A, []), (0, []), (21, [])]), ([], [(0, []), (0x1A1A, [])])] = Some r
     \<and> sr_stable r = [0] \<and> set (sr_varying r) = {21}"
proof -
  let ?samples = "[([], [(0x0A0A, []), (0, []), (21, [])]), ([], [(0, []), (0x1A1A, [])])] :: sample list"
  have g: "(0::nat) \<notin> set GREASE_VALUES" "(21::nat) \<notin> set GREASE_VALUES"
    "(0x0A0A::nat) \<in> set GREASE_VALUES" "(0x1A1A::nat) \<in> set GREASE_VALUES"
    by (simp_all add: GREASE_VALUES_def upt_rec)
  obtain r where r: "describe_samples ?samples = Some r" by (simp add: describe_samples_def Let_def)
  have types: "plain_types ([], [(0x0A0A, []), (0, []), (21, [])]) = [0, 21]"
    "plain_types ([], [(0, []), (0x1A1A, [])]) = [0]"
    by (simp_all add: plain_types_def g)
  note part = describe_samples_partition [OF r]
  then have d: "distinct (sr_stable r)" by blast
  from part have s: "set (sr_stable r) = {0}" by (simp only: types list.set INT_simps INF_insert) auto
  have seen: "(\<Union>s \<in> set ?samples. set (plain_types s)) = {0, 21}"
    by (simp only: types list.set SUP_insert) auto
  from part have "set (sr_varying r) = {0, 21} - {0}" unfolding s seen by blast
  then have v: "set (sr_varying r) = {21}" by auto
  have "sr_stable r = [0]"
    using s d distinct_card [OF d] by (cases "sr_stable r"; cases "tl (sr_stable r)") auto
  with r v show ?thesis by blast
qed

end
