(* ===== verification/Wire_Verify.thy ===== *)
theory Wire_Verify
  imports Py_Url Client_Hello
begin

text \<open>
  \<open>tools/verify-wire-capture.py\<close>: from captured connections to the report that says
  whether a profile is verified on the wire.  A capture is a JSON value; \<open>json.dumps\<close> with
  sorted keys is represented by the value with its keys sorted, numbers are integers, and
  the decoder of one JSON value, the SHA-256 digest and \<open>repr\<close> of structured values are
  arguments.
\<close>

section \<open>JSON\<close>

datatype json = JNull | JBool bool | JInt int | JStr string | JList "json list" | JDict "(string \<times> json) list"

primrec canon :: "json \<Rightarrow> json" where
  "canon JNull = JNull"
| "canon (JBool b) = JBool b"
| "canon (JInt i) = JInt i"
| "canon (JStr s) = JStr s"
| "canon (JList xs) = JList (map canon xs)"
| "canon (JDict kvs) = JDict (sort_key fst (map (map_prod id canon) kvs))"

definition jget :: "string \<Rightarrow> json \<Rightarrow> json option" where
  "jget k v = (case v of JDict kvs \<Rightarrow> map_of kvs k | _ \<Rightarrow> None)"

text \<open>\<open>d.get(k, default)\<close>, \<open>d[k]\<close> of a list of objects\<close>

definition jget_or :: "json \<Rightarrow> string \<Rightarrow> json \<Rightarrow> json" where
  "jget_or dflt k v = (case jget k v of Some x \<Rightarrow> x | None \<Rightarrow> dflt)"

definition jitems :: "json \<Rightarrow> json list option" where
  "jitems v = (case v of JList xs \<Rightarrow> Some xs | _ \<Rightarrow> None)"

text \<open>Concatenated objects, with white space between them.\<close>

definition json_space :: "char \<Rightarrow> bool" where
  "json_space c \<longleftrightarrow> cp c \<in> {32, 9, 13, 10}"

function read_records :: "(string \<Rightarrow> (json \<times> string) option) \<Rightarrow> string \<Rightarrow> json list option" where
  "read_records decode s =
     (let t = dropWhile json_space s in
      if t = [] then Some []
      else case decode t of
        None \<Rightarrow> None
      | Some (r, rest) \<Rightarrow>
          if length rest < length t then map_option (Cons r) (read_records decode rest) else None)"
  by pat_completeness auto
termination
  by (relation "measure (\<lambda>(decode, s). length s)") (auto intro: less_le_trans length_dropWhile_le)

declare read_records.simps [simp del]

section \<open>GREASE and extension numbers\<close>

definition is_hex :: "char \<Rightarrow> bool" where
  "is_hex c \<longleftrightarrow> hex_val c \<noteq> None"

definition hex_number :: "string \<Rightarrow> nat" where
  "hex_number s = fold (\<lambda>c n. 16 * n + (case hex_val c of Some d \<Rightarrow> d | None \<Rightarrow> 0)) s 0"

text \<open>\<open>re.fullmatch(r"0x([0-9a-fA-F]{1,4})", text)\<close>\<close>

definition hex_literal :: "string \<Rightarrow> nat option" where
  "hex_literal t =
     (if startswith t ''0x'' \<and> length t \<in> {3, 4, 5, 6} \<and> list_all is_hex (drop 2 t)
      then Some (hex_number (drop 2 t)) else None)"

definition json_text :: "(json \<Rightarrow> string) \<Rightarrow> json \<Rightarrow> string" where
  "json_text repr v = (case v of
     JStr s \<Rightarrow> s | JInt i \<Rightarrow> show_int i | JBool b \<Rightarrow> (if b then ''True'' else ''False'')
   | JNull \<Rightarrow> ''None'' | _ \<Rightarrow> repr v)"

definition is_grease :: "(json \<Rightarrow> string) \<Rightarrow> json \<Rightarrow> bool" where
  "is_grease repr v =
     (let t = json_text repr v in
      occurs_in ''GREASE'' t \<or> (case hex_literal t of Some n \<Rightarrow> n \<in> set GREASE_VALUES | None \<Rightarrow> False))"

definition degrease :: "(json \<Rightarrow> string) \<Rightarrow> json list \<Rightarrow> json list" where
  "degrease repr vs = filter (\<lambda>v. \<not> is_grease repr v) vs"

text \<open>
  The number in closing parentheses, hexadecimal when one of its digits is a letter; else
  the digits at the end.
\<close>

definition paren_token :: "string \<Rightarrow> string option" where
  "paren_token t =
     (if t = [] \<or> last t \<noteq> CHR '')'' then None
      else
        let inner = rev (takeWhile (\<lambda>c. c \<noteq> CHR ''('') (tl (rev t)));
            opened = length inner + 1 < length t;
            bare = (if startswith inner ''0x'' then drop 2 inner else inner)
        in if opened \<and> bare \<noteq> [] \<and> list_all is_hex bare then Some bare else None)"

definition extension_id :: "string \<Rightarrow> nat option" where
  "extension_id name =
     (let t = rev (dropWhile py_isspace (rev name)) in
      case paren_token t of
        Some token \<Rightarrow> Some (if list_all ascii_digit token then read_nat token else hex_number token)
      | None \<Rightarrow>
          (let digits = rev (takeWhile ascii_digit (rev t))
           in if digits = [] then None else Some (read_nat digits)))"

section \<open>One connection\<close>

record view =
  vw_ids :: "nat option list"
  vw_set :: "nat list"
  vw_grease :: "nat list"
  vw_ciphers :: "json list"
  vw_groups :: "json list"
  vw_sigs :: "json list"
  vw_client_random :: json
  vw_session_id :: json
  vw_key_share :: string
  vw_ech :: string
  vw_anchors :: json
  vw_http2 :: json
  vw_user_agent :: json
  vw_port :: json

definition the_name :: "json \<Rightarrow> string option" where
  "the_name item = (case jget ''name'' item of Some (JStr s) \<Rightarrow> Some s | _ \<Rightarrow> None)"

definition extension_named :: "json list \<Rightarrow> nat \<Rightarrow> json" where
  "extension_named items wanted =
     (case find (\<lambda>item. case the_name item of Some n \<Rightarrow> extension_id n = Some wanted | None \<Rightarrow> False) items of
        Some item \<Rightarrow> item | None \<Rightarrow> JDict [])"

text \<open>\<open>describe\<close>; \<open>None\<close> where it fails on a missing key or a value that is no list.\<close>

definition describe_record :: "(json \<Rightarrow> string) \<Rightarrow> (json \<Rightarrow> string) \<Rightarrow> json \<Rightarrow> view option" where
  "describe_record repr digest r =
     Option.bind (jget ''tls'' r) (\<lambda>tls.
     Option.bind (Option.bind (jget ''extensions'' tls) jitems) (\<lambda>items.
     Option.bind (Option.bind (jget ''ciphers'' tls) jitems) (\<lambda>ciphers.
     Option.bind (jitems (jget_or (JList []) ''supported_groups'' (extension_named items 10))) (\<lambda>groups.
     Option.bind (jitems (jget_or (JList []) ''signature_algorithms'' (extension_named items 13))) (\<lambda>sigs.
     if \<not> list_all (\<lambda>i. the_name i \<noteq> None) items then None
     else
       let ids = map (\<lambda>i. Option.bind (the_name i) extension_id) items;
           known = concat (map (\<lambda>i. case i of Some n \<Rightarrow> [n] | None \<Rightarrow> []) ids)
       in Some \<lparr>vw_ids = ids, vw_set = sort (filter (\<lambda>n. n \<notin> set GREASE_VALUES) known),
                vw_grease = filter (\<lambda>n. n \<in> set GREASE_VALUES) known,
                vw_ciphers = degrease repr ciphers, vw_groups = degrease repr groups,
                vw_sigs = degrease repr sigs,
                vw_client_random = jget_or JNull ''client_random'' tls,
                vw_session_id = jget_or JNull ''session_id'' tls,
                vw_key_share = digest (canon (jget_or JNull ''shared_keys'' (extension_named items 51))),
                vw_ech = digest (canon (jget_or JNull ''data'' (extension_named items 65037))),
                vw_anchors = jget_or JNull ''data'' (extension_named items 51764),
                vw_http2 = jget_or JNull ''akamai_fingerprint'' (jget_or (JDict []) ''http2'' r),
                vw_user_agent = jget_or JNull ''user_agent'' r,
                vw_port = jget_or JNull ''src_port'' (jget_or (JDict []) ''tcp_syn''
                            (jget_or (JDict []) ''tcpip'' r))\<rparr>)))))"

section \<open>The report\<close>

definition STABLE_FIELDS :: "(string \<times> (view \<Rightarrow> json)) list" where
  "STABLE_FIELDS = [(''ciphers'', \<lambda>v. JList (vw_ciphers v)), (''groups'', \<lambda>v. JList (vw_groups v)),
     (''signature_algorithms'', \<lambda>v. JList (vw_sigs v)), (''http2_fingerprint'', vw_http2),
     (''trust_anchors_payload'', vw_anchors), (''user_agent'', vw_user_agent)]"

definition STOCHASTIC_FIELDS :: "(string \<times> (view \<Rightarrow> json)) list" where
  "STOCHASTIC_FIELDS = [(''client_random'', vw_client_random), (''session_id'', vw_session_id),
     (''extension_ids'', \<lambda>v. JList (map (\<lambda>i. case i of Some n \<Rightarrow> JInt (int n) | None \<Rightarrow> JNull) (vw_ids v))),
     (''grease_values'', \<lambda>v. JList (map (JInt \<circ> int) (vw_grease v))),
     (''key_share_digest'', \<lambda>v. JStr (vw_key_share v)), (''ech_digest'', \<lambda>v. JStr (vw_ech v))]"

definition RESUMPTION_EXTENSIONS :: "nat list" where "RESUMPTION_EXTENSIONS = [41]"
definition MIN_CONNECTIONS :: nat where "MIN_CONNECTIONS = 3"

text \<open>\<open>len({json.dumps(v[field]) for v in views})\<close>\<close>

definition distinct_values :: "(view \<Rightarrow> json) \<Rightarrow> view list \<Rightarrow> nat" where
  "distinct_values f views = card (set (map (\<lambda>v. canon (f v)) views))"

text \<open>\<open>min(sets, key=len)\<close>: the first of the smallest.\<close>

definition smallest_set :: "nat list list \<Rightarrow> nat list" where
  "smallest_set sets =
     fold (\<lambda>s best. if card (set s) < card (set best) then s else best) (tl sets) (hd sets)"

definition extra_extensions :: "nat list list \<Rightarrow> nat list" where
  "extra_extensions sets = remdups (concat (map (filter (\<lambda>i. i \<notin> set (smallest_set sets))) sets))"

record wire_report =
  wr_connections :: nat
  wr_ports :: nat
  wr_matches :: "(string \<times> bool) list"
  wr_counts :: "(string \<times> nat) list"
  wr_randomness :: bool
  wr_grease_present :: bool
  wr_verified :: bool

definition verify_views :: "view list \<Rightarrow> wire_report" where
  "verify_views views =
     (let ports = card (set (map vw_port views));
          extra = extra_extensions (map vw_set views);
          matches = map (\<lambda>(n, f). (n, distinct_values f views = 1)) STABLE_FIELDS
                      @ [(''extension_set'', set extra \<subseteq> set RESUMPTION_EXTENSIONS)];
          unique = map (\<lambda>(n, f). (n, distinct_values f views)) STOCHASTIC_FIELDS;
          randomness = list_all (\<lambda>(n, k). MIN_CONNECTIONS \<le> k) unique;
          grease = list_all (\<lambda>v. vw_grease v \<noteq> []) views
      in \<lparr>wr_connections = length views, wr_ports = ports, wr_matches = matches, wr_counts = unique,
          wr_randomness = randomness, wr_grease_present = grease,
          wr_verified = (MIN_CONNECTIONS \<le> length views \<and> ports = length views
                         \<and> list_all snd matches \<and> randomness \<and> grease)\<rparr>)"

text \<open>Without a record \<open>min\<close> of no sets fails; \<open>main\<close> refuses that case before.\<close>

definition verify_records :: "(json \<Rightarrow> string) \<Rightarrow> (json \<Rightarrow> string) \<Rightarrow> json list \<Rightarrow> wire_report option" where
  "verify_records repr digest records =
     (if records = [] then None
      else if list_all (\<lambda>r. describe_record repr digest r \<noteq> None) records
      then Some (verify_views (map (\<lambda>r. the (describe_record repr digest r)) records)) else None)"

definition REQUIRED_TLS_FIELDS :: "string list" where
  "REQUIRED_TLS_FIELDS = [''client_random'', ''session_id'', ''ciphers'', ''extensions'']"

datatype schema_error = NoTls nat | MissingTls nat "string list" | NoHttp2 nat

definition check_record :: "nat \<Rightarrow> json \<Rightarrow> schema_error + unit" where
  "check_record index r =
     (case jget ''tls'' r of
        Some (JDict tls) \<Rightarrow>
          (let missing = filter (\<lambda>f. f \<notin> fst ` set tls) REQUIRED_TLS_FIELDS in
           if missing \<noteq> [] then Inl (MissingTls index missing)
           else if jget ''akamai_fingerprint'' (jget_or (JDict []) ''http2'' r) = None then Inl (NoHttp2 index)
           else Inr ())
      | _ \<Rightarrow> Inl (NoTls index))"

fun check_schema_from :: "nat \<Rightarrow> json list \<Rightarrow> schema_error + unit" where
  "check_schema_from i [] = Inr ()"
| "check_schema_from i (r # rs) = bind_res (check_record i r) (\<lambda>_. check_schema_from (i + 1) rs)"

definition check_schema :: "json list \<Rightarrow> schema_error + unit" where
  "check_schema records = check_schema_from 1 records"

section \<open>Properties\<close>

text \<open>
  C39: A saved capture is read back record by record: a text made of printed objects, with
  any white space before each and at the end, gives exactly those objects, provided the
  decoder reads each printed object and stops behind it.
\<close>

theorem read_records_concatenated:
  assumes "\<And>r gap t rest. (r, gap, t) \<in> set items \<Longrightarrow>
      decode (t @ rest) = Some (r, rest) \<and> list_all json_space gap \<and> t \<noteq> [] \<and> \<not> json_space (hd t)"
    and "list_all json_space tail"
  shows "read_records decode (concat (map (\<lambda>(r, gap, t). gap @ t) items) @ tail) = Some (map fst items)"
  using assms(1)
proof (induction items)
  case Nil
  have "dropWhile json_space tail = []" using assms(2) by (simp add: list_all_iff)
  then show ?case by (subst read_records.simps) simp
next
  case (Cons item items)
  obtain r gap t where item: "item = (r, gap, t)" by (metis prod_cases3)
  let ?rest = "concat (map (\<lambda>(r, gap, t). gap @ t) items) @ tail"
  have t: "decode (t @ ?rest) = Some (r, ?rest)" "list_all json_space gap" "t \<noteq> []" "\<not> json_space (hd t)"
    using Cons.prems [of r gap t] by (simp_all add: item)
  have "dropWhile json_space (gap @ t @ ?rest) = t @ ?rest"
    using t(2,3,4) by (cases t) (auto simp: dropWhile_append list_all_iff)
  moreover have "read_records decode ?rest = Some (map fst items)"
  proof (rule Cons.IH)
    fix r gap t rest assume "(r, gap, t) \<in> set items"
    then show "decode (t @ rest) = Some (r, rest) \<and> list_all json_space gap \<and> t \<noteq> [] \<and> \<not> json_space (hd t)"
      by (intro Cons.prems) simp
  qed
  ultimately show ?case using t(1,3) by (subst read_records.simps) (simp add: item)
qed

definition brace_decode :: "string \<Rightarrow> (json \<times> string) option" where
  "brace_decode s = (case s of a # b # rest \<Rightarrow> if a = CHR ''{'' \<and> b = CHR ''}'' then Some (JDict [], rest) else None
     | _ \<Rightarrow> None)"

theorem read_records_concatenated_witness:
  "read_records brace_decode ''{} {}'' = Some [JDict [], JDict []]"
proof -
  let ?items = "[(JDict [], [], ''{}''), (JDict [], '' '', ''{}'')]"
  have "read_records brace_decode (concat (map (\<lambda>(r, gap, t). gap @ t) ?items) @ []) = Some (map fst ?items)"
    by (rule read_records_concatenated) (auto simp: brace_decode_def json_space_def)
  then show ?thesis by simp
qed

lemma fold_smallest: "fold (\<lambda>s best. if card (set s) < card (set best) then s else best) ss b \<in> set (b # ss)"
  by (induction ss arbitrary: b) force+

lemma card_one: "card (set (map f xs)) = 1 \<Longrightarrow> x \<in> set xs \<Longrightarrow> y \<in> set xs \<Longrightarrow> f x = f y"
  by (metis card_1_singletonE imageI list.set_map singletonD)


definition sample_view :: "nat \<Rightarrow> view" where
  "sample_view n = \<lparr>vw_ids = [Some n, Some 0], vw_set = [0, 1], vw_grease = [n], vw_ciphers = [], vw_groups = [],
     vw_sigs = [], vw_client_random = JInt (int n), vw_session_id = JInt (int n),
     vw_key_share = replicate n (CHR ''k''), vw_ech = replicate n (CHR ''e''), vw_anchors = JNull,
     vw_http2 = JNull, vw_user_agent = JNull, vw_port = JInt (int n)\<rparr>"

lemmas report_eval = verify_views_def Let_def distinct_values_def STABLE_FIELDS_def STOCHASTIC_FIELDS_def
  extra_extensions_def smallest_set_def MIN_CONNECTIONS_def RESUMPTION_EXTENSIONS_def sample_view_def

lemma three_verified: "wr_verified (verify_views [sample_view 1, sample_view 2, sample_view 3])"
  by (simp add: report_eval card_insert_if eval_nat_numeral)


text \<open>
  The gate is weaker than its description: a client random that repeats on a fourth
  connection is accepted, although stochastic values must differ on every connection; and
  a connection that drops an extension is accepted when it offers resumption instead,
  although the extension set must be the same up to resumption.
\<close>

theorem gate_accepts_repeats_and_drops:
  "wr_verified (verify_views [sample_view 1, sample_view 2, sample_view 3,
       (sample_view 4)\<lparr>vw_client_random := JInt 1\<rparr>])
   \<and> wr_verified (verify_views [sample_view 1, sample_view 2, (sample_view 3)\<lparr>vw_set := [0, 41]\<rparr>])"
  by (simp add: report_eval card_insert_if eval_nat_numeral)

text \<open>A hexadecimal number without a letter among its digits is read as a decimal one.\<close>

theorem extension_id_hex_as_decimal:
  "extension_id ''key_share (0x0033)'' = Some 33"
  by code_simp

end
