(* ===== verification/Profile_Table.thy ===== *)
theory Profile_Table
  imports Client_Hello Py_Url
begin

text \<open>
  \<open>tools/generate-profile-table.py\<close>: the checks on the three JSON inputs and the C++ table
  it writes.  A JSON object read with a checked key is a record with an optional field;
  \<open>d.get(k)\<close> reads the option and \<open>d[k]\<close> fails on \<open>None\<close> with \<open>NoKey\<close>.  The
  members of a profile's \<open>tls\<close> object the tool does not check for are taken to be there,
  and JSON values to have the type the schema gives them.  Reading and writing the files is
  outside.
\<close>

section \<open>Inputs\<close>

record feature_range =
  fr_first :: int
  fr_last :: int
  fr_enabled :: "string list"

record feature_snapshot =
  fs_features :: "string list"
  fs_ranges :: "feature_range list"

record grease_policy =
  gp_enabled :: bool
  gp_per_connection :: bool
  gp_fixed_seed :: bool

record tls_profile =
  t_cipher_suites :: "string list"
  t_curves :: "string list"
  t_signature_algorithms :: "string list"
  t_key_share_count :: int
  t_extension_order :: "string option"
  t_grease :: "grease_policy option"
  t_grease_signatures :: bool
  t_extensions :: "string list"
  t_anchor_ids :: "string option"

record profile =
  p_id :: string
  p_tls :: tls_profile
  p_wire_verified :: bool

record protocol =
  pr_pool_limit :: "bool option"
  pr_proxy_pool_limit :: "bool option"
  pr_priority_header :: "bool option"
  pr_quic_orig :: "bool option"
  pr_legacy_version :: "bool option"
  pr_enable_quic :: "bool option"
  pr_try_quic :: "bool option"
  pr_h2_values :: "(string, nat) odict"
  pr_settings_order :: "nat list option"
  pr_enable_push :: "bool option"
  pr_max_streams :: "bool option"

type_synonym effective_params = "(string, protocol) odict"

datatype table_error =
    FeatureBook | UnknownFeature | FeatureOverlap string | ProfileList | FeatureCover
  | Boundary string string | QuicCapability string | TryQuicPolicy string
  | ExtensionOrder string | GreasePolicy string | UnknownExtensions string "string list"
  | EmptyExtensions string | AnchorsMissing string | AnchorsUnlisted string
  | AnchorsMalformed string | IncompleteH2 string | SettingsOrder string | UnsharedH2 string
  | KeyShareCount string | NoKey string | BadNumber

definition need :: "string \<Rightarrow> 'a option \<Rightarrow> table_error + 'a" where
  "need k v = (case v of None \<Rightarrow> Inl (NoKey k) | Some x \<Rightarrow> Inr x)"

definition check_that :: "bool \<Rightarrow> table_error \<Rightarrow> table_error + unit" where
  "check_that b e = (if b then Inr () else Inl e)"

section \<open>Feature flags\<close>

definition LAST_PROFILE_MAJOR :: int where "LAST_PROFILE_MAJOR = 153"

definition FEATURE_BITS :: "(string \<times> nat) list" where
  "FEATURE_BITS = [(''alps_for_http2'', 1), (''try_quic_by_default'', 2)]"

definition profile_name :: "int \<Rightarrow> string" where
  "profile_name n = ''chrome_'' @ show_int n"

definition feature_value :: "string list \<Rightarrow> nat" where
  "feature_value enabled = sum_list (map snd (filter (\<lambda>(f, b). f \<in> set enabled) FEATURE_BITS))"

primrec add_majors ::
  "nat \<Rightarrow> string list \<Rightarrow> (string, nat) odict \<Rightarrow> table_error + (string, nat) odict" where
  "add_majors v [] flags = Inr flags"
| "add_majors v (pid # pids) flags =
     (if od_has flags pid then Inl (FeatureOverlap pid) else add_majors v pids (od_put pid v flags))"

primrec add_ranges ::
  "feature_range list \<Rightarrow> (string, nat) odict \<Rightarrow> table_error + (string, nat) odict" where
  "add_ranges [] flags = Inr flags"
| "add_ranges (r # rs) flags =
     (if \<not> set (fr_enabled r) \<subseteq> fst ` set FEATURE_BITS then Inl UnknownFeature
      else bind_res (add_majors (feature_value (fr_enabled r)) (map profile_name [fr_first r..fr_last r]) flags)
             (add_ranges rs))"

definition load_feature_flags :: "feature_snapshot \<Rightarrow> table_error + (string, nat) odict" where
  "load_feature_flags snapshot =
     (if set (fs_features snapshot) \<noteq> fst ` set FEATURE_BITS then Inl FeatureBook
      else add_ranges (fs_ranges snapshot) [])"

section \<open>Code books\<close>

definition CIPHER_CODES :: "(string \<times> nat) list" where
  "CIPHER_CODES =
    [(''TLS_GREASE'', 2570), (''TLS_AES_128_GCM_SHA256'', 4865),
     (''TLS_AES_256_GCM_SHA384'', 4866), (''TLS_CHACHA20_POLY1305_SHA256'', 4867),
     (''TLS_ECDHE_ECDSA_WITH_AES_128_GCM_SHA256'', 49195),
     (''TLS_ECDHE_RSA_WITH_AES_128_GCM_SHA256'', 49199),
     (''TLS_ECDHE_ECDSA_WITH_AES_256_GCM_SHA384'', 49196),
     (''TLS_ECDHE_RSA_WITH_AES_256_GCM_SHA384'', 49200),
     (''TLS_ECDHE_ECDSA_WITH_CHACHA20_POLY1305_SHA256'', 52393),
     (''TLS_ECDHE_RSA_WITH_CHACHA20_POLY1305_SHA256'', 52392),
     (''TLS_ECDHE_RSA_WITH_AES_128_CBC_SHA'', 49171),
     (''TLS_ECDHE_RSA_WITH_AES_256_CBC_SHA'', 49172),
     (''TLS_RSA_WITH_AES_128_GCM_SHA256'', 156), (''TLS_RSA_WITH_AES_256_GCM_SHA384'', 157),
     (''TLS_RSA_WITH_AES_128_CBC_SHA'', 47), (''TLS_RSA_WITH_AES_256_CBC_SHA'', 53)]"

definition CURVE_CODES :: "(string \<times> nat) list" where
  "CURVE_CODES =
    [(''X25519'', 29), (''P-256'', 23), (''P-384'', 24), (''X25519KYBER768'', 25497),
     (''X25519MLKEM768'', 4588)]"

definition SIGNATURE_CODES :: "(string \<times> nat) list" where
  "SIGNATURE_CODES =
    [(''ecdsa_secp256r1_sha256'', 1027), (''rsa_pss_rsae_sha256'', 2052),
     (''rsa_pkcs1_sha256'', 1025), (''0x0503'', 1283), (''rsa_pss_rsae_sha384'', 2053),
     (''rsa_pkcs1_sha384'', 1281), (''rsa_pss_rsae_sha512'', 2054), (''0x0601'', 1537),
     (''0x0904'', 2308), (''0x0905'', 2309), (''0x0906'', 2310)]"

definition EXTENSION_CODES :: "(string \<times> nat) list" where
  "EXTENSION_CODES =
    [(''server_name'', 0), (''status_request'', 5), (''supported_groups'', 10),
     (''ec_point_formats'', 11), (''signature_algorithms'', 13),
     (''application_layer_protocol_negotiation'', 16), (''signed_certificate_timestamp'', 18),
     (''padding'', 21), (''compress_certificate'', 27), (''extended_master_secret'', 23),
     (''session_ticket'', 35), (''supported_versions'', 43), (''psk_key_exchange_modes'', 45),
     (''key_share'', 51), (''extensionRenegotiationInfo'', 65281),
     (''application_settings_old'', 17513), (''application_settings'', 17613),
     (''extensionEncryptedClientHello'', 65037), (''trust_anchors'', 51764)]"

section \<open>Release boundaries\<close>

definition expected_pool_boundary :: "(nat \<times> bool \<times> bool) list" where
  "expected_pool_boundary =
    [(122, (False, False)), (123, (False, False)), (124, (False, False)), (125, (False, False)),
     (126, (False, False)), (127, (False, False)), (128, (False, False)), (146, (False, False)),
     (147, (True, False)), (148, (True, False)), (149, (True, False)), (150, (True, False)),
     (151, (True, True))]"

definition expected_priority_header_boundary :: "(nat \<times> bool) list" where
  "expected_priority_header_boundary =
    [(122, False), (123, False), (124, True)]"

definition expected_quic_boundary :: "(nat \<times> bool) list" where
  "expected_quic_boundary =
    [(122, False), (123, False), (124, False), (125, False), (126, False), (127, False),
     (128, False), (146, False), (147, False), (148, False), (149, True), (150, True),
     (151, True)]"

definition expected_legacy_version_information_boundary :: "(nat \<times> bool) list" where
  "expected_legacy_version_information_boundary =
    [(122, False), (123, False), (124, False), (125, False), (126, False), (127, False),
     (128, False), (129, False), (130, False), (131, False), (132, False), (133, False),
     (134, False), (135, False), (136, False), (137, False), (138, False), (139, False),
     (140, False), (141, False), (142, False), (143, False), (144, True), (145, True),
     (146, False)]"

text \<open>One boundary table: each listed release must carry the listed value.\<close>

primrec check_boundary ::
  "string \<Rightarrow> (protocol \<Rightarrow> 'b option) \<Rightarrow> effective_params \<Rightarrow> (nat \<times> 'b) list \<Rightarrow> table_error + unit" where
  "check_boundary what field eff [] = Inr ()"
| "check_boundary what field eff (e # rest) =
     bind_res (need (profile_name (int (fst e))) (od_get eff (profile_name (int (fst e))))) (\<lambda>p.
     bind_res (need what (field p)) (\<lambda>actual.
     if actual \<noteq> snd e then Inl (Boundary what (profile_name (int (fst e))))
     else check_boundary what field eff rest))"

definition pool_limits :: "protocol \<Rightarrow> (bool \<times> bool) option" where
  "pool_limits p =
     (case (pr_pool_limit p, pr_proxy_pool_limit p) of (Some a, Some b) \<Rightarrow> Some (a, b) | _ \<Rightarrow> None)"

definition legacy_version :: "protocol \<Rightarrow> bool" where
  "legacy_version p = (case pr_legacy_version p of None \<Rightarrow> False | Some b \<Rightarrow> b)"

definition major_of :: "string \<Rightarrow> table_error + int" where
  "major_of pid =
     (if CHR ''_'' \<notin> set pid then Inl BadNumber
      else case int_text (snd (split_once CHR ''_'' pid)) of None \<Rightarrow> Inl BadNumber | Some n \<Rightarrow> Inr n)"

primrec check_quic :: "effective_params \<Rightarrow> table_error + unit" where
  "check_quic [] = Inr ()"
| "check_quic (e # rest) =
     (if pr_enable_quic (snd e) \<noteq> Some True then Inl (QuicCapability (fst e))
      else bind_res (major_of (fst e)) (\<lambda>major.
        if pr_try_quic (snd e) \<noteq> Some (123 \<le> major) then Inl (TryQuicPolicy (fst e))
        else check_quic rest))"

definition check_boundaries :: "effective_params \<Rightarrow> table_error + unit" where
  "check_boundaries eff =
     bind_res (check_boundary ''socket-pool'' pool_limits eff expected_pool_boundary) (\<lambda>_.
     bind_res (check_boundary ''priority-header'' pr_priority_header eff expected_priority_header_boundary) (\<lambda>_.
     bind_res (check_boundary ''QUIC ORIG'' pr_quic_orig eff expected_quic_boundary) (\<lambda>_.
     bind_res (check_quic eff) (\<lambda>_.
     check_boundary ''legacy version'' (\<lambda>p. Some (legacy_version p)) eff
       expected_legacy_version_information_boundary))))"

section \<open>Shared arrays\<close>

text \<open>Equal lists share one array, named after the number of arrays before it.\<close>

definition intern :: "string \<Rightarrow> 'v \<Rightarrow> ('v, string) odict \<Rightarrow> ('v, string) odict" where
  "intern prefix v arrays = od_setdefault v (prefix @ ''_'' @ show_nat (length arrays)) arrays"

definition array_names :: "string \<Rightarrow> (tls_profile \<Rightarrow> string list) \<Rightarrow> profile list \<Rightarrow> (string list, string) odict" where
  "array_names field values ps = fold (\<lambda>p. intern field (values (p_tls p))) ps []"

fun hex_text :: "nat \<Rightarrow> string" where
  "hex_text n = (if n < 16 then [hex_of n] else hex_text (n div 16) @ [hex_of (n mod 16)])"

declare hex_text.simps [simp del]

definition hex4 :: "nat \<Rightarrow> string" where
  "hex4 n = ''0x'' @ replicate (4 - length (hex_text n)) CHR ''0'' @ hex_text n"

definition hex_line :: "nat \<Rightarrow> string" where
  "hex_line n = ''    '' @ hex4 n @ '',''"

definition emit_array ::
  "(string \<times> nat) list \<Rightarrow> string list \<times> string \<Rightarrow> table_error + string list" where
  "emit_array book a =
     bind_res (map_res (\<lambda>v. need v (map_of book v)) (fst a)) (\<lambda>ns.
       Inr ((''inline constexpr uint16_t '' @ snd a @ ''[] = {'') # map hex_line ns @ [''};'', []]))"

definition emit_arrays ::
  "(string \<times> nat) list \<Rightarrow> (string list, string) odict \<Rightarrow> table_error + string list" where
  "emit_arrays book arrays = bind_res (map_res (emit_array book) arrays) (\<lambda>ls. Inr (concat ls))"

section \<open>Extension sets\<close>

definition extension_codes :: "string list \<Rightarrow> nat list" where
  "extension_codes exts =
     sort (map (\<lambda>e. case map_of EXTENSION_CODES e of Some n \<Rightarrow> n | None \<Rightarrow> 0)
       (filter (\<lambda>e. e \<noteq> ''TLS_GREASE'') (remdups exts)))"

definition check_extensions :: "profile \<Rightarrow> table_error + nat list" where
  "check_extensions p =
     (let t = p_tls p;
          unknown = sort (filter (\<lambda>e. e \<notin> fst ` set EXTENSION_CODES \<and> e \<noteq> ''TLS_GREASE'') (remdups (t_extensions t)));
          codes' = extension_codes (t_extensions t)
      in if t_extension_order t \<notin> {Some ''boringssl_random_fisher_yates'', Some ''boringssl_native''}
         then Inl (ExtensionOrder (p_id p))
         else if (case t_grease t of None \<Rightarrow> True
                  | Some g \<Rightarrow> \<not> gp_enabled g \<or> \<not> gp_per_connection g \<or> gp_fixed_seed g)
         then Inl (GreasePolicy (p_id p))
         else if unknown \<noteq> [] then Inl (UnknownExtensions (p_id p) unknown)
         else if codes' = [] then Inl (EmptyExtensions (p_id p))
         else Inr codes')"

primrec extension_arrays ::
  "profile list \<Rightarrow> (nat list, string) odict \<Rightarrow> table_error + (nat list, string) odict" where
  "extension_arrays [] arrays = Inr arrays"
| "extension_arrays (p # ps) arrays =
     bind_res (check_extensions p) (\<lambda>v. extension_arrays ps (intern ''tls_extension_ids'' v arrays))"

definition emit_extensions :: "(nat list, string) odict \<Rightarrow> string list" where
  "emit_extensions arrays =
     concat (map (\<lambda>(v, name). (''inline constexpr uint16_t '' @ name @ ''[] = {'') # map hex_line v @ [''};'', []]) arrays)"

section \<open>Trust anchors\<close>

definition ascii_blank :: "char \<Rightarrow> bool" where
  "ascii_blank c \<longleftrightarrow> cp c = 32 \<or> 9 \<le> cp c \<and> cp c \<le> 13"

text \<open>\<open>bytes.fromhex\<close>: pairs of digits, blanks allowed between two pairs.\<close>

fun fromhex :: "string \<Rightarrow> octets option" where
  "fromhex [] = Some []"
| "fromhex [a] = (if ascii_blank a then Some [] else None)"
| "fromhex (a # b # s) =
     (if ascii_blank a then fromhex (b # s)
      else case (hex_val a, hex_val b) of
        (Some h, Some l) \<Rightarrow> map_option (Cons (of_nat (16 * h + l))) (fromhex s)
      | _ \<Rightarrow> None)"

text \<open>The length prefixes must tile the payload exactly.\<close>

function tile_loop :: "octets \<Rightarrow> nat \<Rightarrow> bool" where
  "tile_loop payload index =
     (if index < length payload
      then let len = unat (payload ! index)
           in if len = 0 \<or> length payload < index + 1 + len then False
              else tile_loop payload (index + 1 + len)
      else True)"
  by pat_completeness auto
termination
  by (relation "measure (\<lambda>(payload, index). length payload - index)") auto

declare tile_loop.simps [simp del]

text \<open>The payload of a profile, or none.\<close>

definition check_anchors :: "profile \<Rightarrow> table_error + octets option" where
  "check_anchors p =
     (let t = p_tls p; listed = ''trust_anchors'' \<in> set (t_extensions t)
      in if t_anchor_ids t = None \<or> t_anchor_ids t = Some []
         then (if listed then Inl (AnchorsMissing (p_id p)) else Inr None)
         else if \<not> listed then Inl (AnchorsUnlisted (p_id p))
         else case fromhex (the (t_anchor_ids t)) of
             None \<Rightarrow> Inl BadNumber
           | Some payload \<Rightarrow>
               if tile_loop payload 0 then Inr (Some payload) else Inl (AnchorsMalformed (p_id p)))"

primrec anchor_arrays ::
  "profile list \<Rightarrow> (octets, string) odict \<Rightarrow> table_error + (octets, string) odict" where
  "anchor_arrays [] arrays = Inr arrays"
| "anchor_arrays (p # ps) arrays =
     bind_res (check_anchors p) (\<lambda>r.
       anchor_arrays ps (case r of None \<Rightarrow> arrays | Some v \<Rightarrow> intern ''trust_anchor_ids'' v arrays))"

definition octet_text :: "8 word \<Rightarrow> string" where
  "octet_text b = ''0x'' @ octets_hex [b] @ '',''"

function octet_lines :: "octets \<Rightarrow> string list" where
  "octet_lines v =
     (if v = [] then []
      else (''    '' @ join '' '' (map octet_text (take 12 v))) # octet_lines (drop 12 v))"
  by pat_completeness auto
termination
  by (relation "measure length") auto

declare octet_lines.simps [simp del]

definition emit_anchors :: "(octets, string) odict \<Rightarrow> string list" where
  "emit_anchors arrays =
     concat (map (\<lambda>(v, name). (''inline constexpr uint8_t '' @ name @ ''[] = {'') # octet_lines v @ [''};'', []]) arrays)"

definition anchor_span :: "(octets, string) odict \<Rightarrow> tls_profile \<Rightarrow> table_error + string" where
  "anchor_span arrays t =
     (if t_anchor_ids t = None \<or> t_anchor_ids t = Some [] then Inr ''{}''
      else case fromhex (the (t_anchor_ids t)) of
          None \<Rightarrow> Inl BadNumber
        | Some payload \<Rightarrow>
            bind_res (need [] (od_get arrays payload)) (\<lambda>name. Inr (''base::span('' @ name @ '')'')))"

section \<open>Rows\<close>

definition expected_h2 :: "(string \<times> nat) list" where
  "expected_h2 =
    [(''h2_header_table_size'', 65536), (''h2_initial_window_size'', 6291456),
     (''h2_max_frame_size'', 16384), (''h2_max_header_list_size'', 262144),
     (''h2_session_recv_window_size'', 15728640)]"

definition check_h2 :: "string \<Rightarrow> protocol \<Rightarrow> table_error + unit" where
  "check_h2 pid pr =
     bind_res (check_that (list_all (\<lambda>(k, v). od_has (pr_h2_values pr) k) expected_h2
                 \<and> pr_settings_order pr \<noteq> None) (IncompleteH2 pid)) (\<lambda>_.
     bind_res (check_that (pr_settings_order pr = Some [1, 2, 3, 4, 5, 6]) (SettingsOrder pid)) (\<lambda>_.
     check_that (list_all (\<lambda>(k, v). od_get (pr_h2_values pr) k = Some v) expected_h2) (UnsharedH2 pid)))"

definition check_key_share :: "profile \<Rightarrow> table_error + unit" where
  "check_key_share p =
     check_that (0 < t_key_share_count (p_tls p) \<and> t_key_share_count (p_tls p) \<le> int (length (t_curves (p_tls p))))
       (KeyShareCount (p_id p))"

definition cpp_bool :: "bool \<Rightarrow> string" where
  "cpp_bool b = (if b then ''    true,'' else ''    false,'')"

definition span_line :: "string \<Rightarrow> string" where
  "span_line name = ''    base::span('' @ name @ ''),''"

record table_arrays =
  ta_ciphers :: "(string list, string) odict"
  ta_curves :: "(string list, string) odict"
  ta_signatures :: "(string list, string) odict"
  ta_extensions :: "(nat list, string) odict"
  ta_anchors :: "(octets, string) odict"

text \<open>
  \<open>json.dumps\<close> quotes the identifier; \<open>chrome_<n>\<close>, the only form the tool accepts,
  needs no escape.
\<close>

definition profile_row ::
  "table_arrays \<Rightarrow> (string, nat) odict \<Rightarrow> effective_params \<Rightarrow> profile \<Rightarrow> table_error + string list" where
  "profile_row ta flags eff p =
     (let pid = p_id p; t = p_tls p in
      bind_res (need pid (od_get eff pid)) (\<lambda>pr.
      bind_res (major_of pid) (\<lambda>major.
      bind_res (check_h2 pid pr) (\<lambda>_.
      bind_res (check_key_share p) (\<lambda>_.
      bind_res (need ''cipher_suites'' (od_get (ta_ciphers ta) (t_cipher_suites t))) (\<lambda>ciphers.
      bind_res (need ''curves'' (od_get (ta_curves ta) (t_curves t))) (\<lambda>curves.
      bind_res (need ''signature_algorithms'' (od_get (ta_signatures ta) (t_signature_algorithms t))) (\<lambda>sigs.
      bind_res (need pid (od_get flags pid)) (\<lambda>fl.
      bind_res (need ''extensions'' (od_get (ta_extensions ta) (extension_codes (t_extensions t)))) (\<lambda>exts.
      bind_res (need ''grease'' (t_grease t)) (\<lambda>g.
      bind_res (need ''h2_enable_push'' (pr_enable_push pr)) (\<lambda>push.
      bind_res (need ''h2_max_concurrent_streams'' (pr_max_streams pr)) (\<lambda>streams.
      bind_res (need ''socket-pool'' (pool_limits pr)) (\<lambda>pool.
      bind_res (need ''send_priority_header'' (pr_priority_header pr)) (\<lambda>priority.
      bind_res (need ''send_quic_orig'' (pr_quic_orig pr)) (\<lambda>orig.
      bind_res (need ''enable_quic'' (pr_enable_quic pr)) (\<lambda>quic.
      bind_res (need ''try_quic_by_default'' (pr_try_quic pr)) (\<lambda>try_quic.
      bind_res (anchor_span (ta_anchors ta) t) (\<lambda>anchors.
      Inr [''  {'',
           ''    '' @ [CHR 0x22] @ pid @ [CHR 0x22] @ '','',
           span_line ciphers,
           span_line curves,
           ''    '' @ show_int (t_key_share_count t) @ '','',
           span_line sigs,
           span_line exts,
           ''    RuntimeProfileData::TlsExtensionOrderPolicy::''
             @ (if t_extension_order t = Some ''boringssl_native'' then ''kBoringSslNative''
                else ''kBoringSslRandomFisherYates'') @ '','',
           cpp_bool (gp_enabled g),
           cpp_bool (gp_per_connection g),
           cpp_bool (t_grease_signatures t),
           cpp_bool (''extensionEncryptedClientHello'' \<in> set (t_extensions t)),
           cpp_bool (''application_settings'' \<in> set (t_extensions t)),
           cpp_bool push,
           cpp_bool streams,
           ''    0,'',
           cpp_bool (fst pool),
           cpp_bool (snd pool),
           cpp_bool priority,
           cpp_bool orig,
           cpp_bool (legacy_version pr),
           cpp_bool quic,
           cpp_bool try_quic,
           ''    true,'',
           ''    '' @ (if major \<le> 118 then ''408'' else ''0'') @ '','',
           ''    '' @ hex4 fl @ '','',
           ''    '' @ anchors @ '','',
           cpp_bool (p_wire_verified p),
           ''  },''])))))))))))))))))))"

section \<open>The file\<close>

definition header_lines :: "string list" where
  "header_lines =
    [''// Generated by tools/generate-profile-table.py; do not edit.'',
     ''#ifndef MINICRONET_CORE_PROFILE_TABLE_GENERATED_H_'',
     ''#define MINICRONET_CORE_PROFILE_TABLE_GENERATED_H_'',
     [],
     ''#include <cstddef>'',
     ''#include <cstdint>'',
     ''#include <iterator>'',
     ''#include '' @ [CHR 0x22] @ ''base/containers/span.h'' @ [CHR 0x22],
     [],
     ''namespace minicronet {'',
     ''struct H2RuntimeParams {'',
     ''  uint32_t header_table_size;'',
     ''  uint32_t initial_window_size;'',
     ''  uint32_t max_frame_size;'',
     ''  uint32_t max_header_list_size;'',
     ''  uint32_t session_recv_window_size;'',
     ''  bool send_max_frame_size;'',
     ''  base::span<const uint16_t> settings_order;'',
     ''};'',
     [],
     ''struct RuntimeProfileData {'',
     ''  const char* id;'',
     ''  base::span<const uint16_t> cipher_suites;'',
     ''  base::span<const uint16_t> curves;'',
     ''  uint8_t key_share_count;'',
     ''  base::span<const uint16_t> signature_algorithms;'',
     ''  base::span<const uint16_t> tls_extension_ids;'',
     ''  enum class TlsExtensionOrderPolicy : uint8_t {'',
     ''    kBoringSslRandomFisherYates = 0,'',
     ''    kBoringSslNative = 1,'',
     ''  };'',
     ''  TlsExtensionOrderPolicy tls_extension_order_policy;'',
     ''  bool tls_grease_enabled;'',
     ''  bool tls_grease_per_connection;'',
     ''  bool grease_signature_algorithms;'',
     ''  bool ech_enabled;'',
     ''  bool use_new_alps_codepoint;'',
     ''  bool send_http2_enable_push_setting;'',
     ''  bool send_http2_max_concurrent_streams;'',
     ''  uint8_t h2_params_index;'',
     ''  bool randomize_socket_pool_limit;'',
     ''  bool randomize_proxy_socket_pool_limit;'',
     ''  bool send_priority_header;'',
     ''  bool send_quic_orig;'',
     ''  bool send_quic_legacy_version_information;'',
     ''  bool enable_quic;'',
     ''  bool try_quic_by_default;'',
     ''  bool client_hello_padding_enabled;'',
     ''  uint16_t client_hello_padding_length;'',
     ''  uint8_t network_feature_flags;'',
     ''  // Encoded trust_anchors (0xca34) payload: a sequence of'',
     ''  // one-byte-length-prefixed IDs, exactly as'',
     ''  // net::AddTrustAnchorIdToEncodedList emits them. Empty for every'',
     ''  // profile before 152, which is what keeps'',
     ''  // SSLContextConfig::ShouldAdvertiseTrustAnchorIDs() false and the'',
     ''  // extension off the wire for them.'',
     ''  base::span<const uint8_t> trust_anchor_ids;'',
     ''  bool wire_verified;'',
     ''};'',
     [],
     ''enum class NetworkFeature : uint8_t {'',
     ''  kAlpsForHttp2 = 1u << 0,'',
     ''  kTryQuicByDefault = 1u << 1,'',
     ''};'',
     ''using NetworkFeatureFlags = uint8_t;'',
     ''constexpr bool HasNetworkFeature(NetworkFeatureFlags flags,'',
     ''                                  NetworkFeature feature) {'',
     ''  return (flags & static_cast<NetworkFeatureFlags>(feature)) != 0;'',
     ''}'',
     ''inline constexpr NetworkFeatureFlags kCurrentNetworkFeatureFlags ='',
     ''    static_cast<NetworkFeatureFlags>(NetworkFeature::kAlpsForHttp2) |'',
     ''    static_cast<NetworkFeatureFlags>(NetworkFeature::kTryQuicByDefault);'',
     []]"

definition settings_lines :: "string list" where
  "settings_lines =
    [''inline constexpr uint16_t h2_settings_order_0[] = {'',
     ''    1, 2, 3, 4, 5, 6,'',
     ''};'',
     []]"

definition params_lines :: "string list" where
  "params_lines =
    [''inline constexpr H2RuntimeParams kH2RuntimeParams[] = {{'',
     ''    65536, 6291456, 16384, 262144, 15728640, false,'',
     ''    base::span(h2_settings_order_0),'',
     ''}};'',
     ''inline const H2RuntimeParams& GetH2RuntimeParams(uint8_t index) {'',
     ''  switch (index) {'',
     ''    case 0:'',
     ''    default:'',
     ''      return kH2RuntimeParams[0];'',
     ''  }'',
     ''}'',
     []]"

definition footer_lines :: "string list" where
  "footer_lines =
    [''};'',
     ''inline constexpr size_t kRuntimeProfileCount = std::size(kRuntimeProfiles);'',
     ''}  // namespace minicronet'',
     ''#endif  // MINICRONET_CORE_PROFILE_TABLE_GENERATED_H_'',
     []]"

definition generate_table ::
  "feature_snapshot \<Rightarrow> profile list \<Rightarrow> effective_params \<Rightarrow> table_error + string" where
  "generate_table snapshot ps eff =
     bind_res (load_feature_flags snapshot) (\<lambda>flags.
     bind_res (check_that (map p_id ps = map profile_name [99..LAST_PROFILE_MAJOR]) ProfileList) (\<lambda>_.
     bind_res (check_that (set (od_keys flags) = set (map p_id ps)) FeatureCover) (\<lambda>_.
     bind_res (check_boundaries eff) (\<lambda>_.
     let ciphers = array_names ''cipher_suites'' t_cipher_suites ps;
         curves = array_names ''curves'' t_curves ps;
         sigs = array_names ''signature_algorithms'' t_signature_algorithms ps in
     bind_res (emit_arrays CIPHER_CODES ciphers) (\<lambda>l1.
     bind_res (emit_arrays CURVE_CODES curves) (\<lambda>l2.
     bind_res (emit_arrays SIGNATURE_CODES sigs) (\<lambda>l3.
     bind_res (extension_arrays ps []) (\<lambda>exts.
     bind_res (anchor_arrays ps []) (\<lambda>anchors.
     bind_res (map_res (profile_row \<lparr>ta_ciphers = ciphers, ta_curves = curves, ta_signatures = sigs,
                 ta_extensions = exts, ta_anchors = anchors\<rparr> flags eff) ps) (\<lambda>rows.
     Inr (join [char_of (10 :: nat)]
       (header_lines @ l1 @ l2 @ l3 @ settings_lines @ emit_extensions exts @ emit_anchors anchors
        @ params_lines @ [''inline constexpr RuntimeProfileData kRuntimeProfiles[] = {'']
        @ concat rows @ footer_lines))))))))))))"

section \<open>Feature flags are those of the one range that covers a release\<close>

lemma show_nat_inject [simp]: "show_nat m = show_nat n \<longleftrightarrow> m = n"
  by (metis read_show_nat)

lemma show_nat_no_sign: "show_nat n \<noteq> CHR ''-'' # s"
  using show_nat_digits [of n] by (auto simp: ascii_digit_def)

lemma show_int_inject [simp]: "show_int a = show_int b \<longleftrightarrow> a = b"
  by (auto simp: show_int_def show_nat_no_sign not_sym [OF show_nat_no_sign])

lemma profile_name_inject [simp]: "profile_name a = profile_name b \<longleftrightarrow> a = b"
  by (simp add: profile_name_def)

lemma add_majors_Inr:
  "add_majors v pids flags = Inr out \<Longrightarrow>
     od_get out pid = (if pid \<in> set pids then Some v else od_get flags pid)
     \<and> (pid \<in> set pids \<longrightarrow> od_get flags pid = None)"
proof (induction pids arbitrary: flags)
  case (Cons a pids)
  then show ?case
    using Cons.IH [of "od_put a v flags"] by (auto simp: od_get_put od_has_def split: if_splits)
qed simp

lemma find_filter: "find P xs = (case filter P xs of [] \<Rightarrow> None | x # _ \<Rightarrow> Some x)"
  by (induction xs) auto

definition covers :: "int \<Rightarrow> feature_range \<Rightarrow> bool" where
  "covers m r \<longleftrightarrow> fr_first r \<le> m \<and> m \<le> fr_last r"

lemma range_ids: "profile_name m \<in> set (map profile_name [fr_first r..fr_last r]) \<longleftrightarrow> covers m r"
  by (auto simp: covers_def)

lemma add_ranges_Inr:
  "add_ranges rs flags = Inr out \<Longrightarrow>
     od_get out (profile_name m)
       = (case find (covers m) rs of Some r \<Rightarrow> Some (feature_value (fr_enabled r)) | None \<Rightarrow> od_get flags (profile_name m))
     \<and> length (filter (covers m) rs) + (if od_get flags (profile_name m) = None then 0 else 1) \<le> 1"
proof (induction rs arbitrary: flags)
  case (Cons r rs)
  then obtain mid where mid: "add_majors (feature_value (fr_enabled r)) (map profile_name [fr_first r..fr_last r]) flags = Inr mid"
    and rest: "add_ranges rs mid = Inr out"
    by (auto simp: bind_res_Inr split: if_splits)
  from add_majors_Inr [OF mid, of "profile_name m"] Cons.IH [OF rest] show ?case
    unfolding range_ids find_filter by (auto split: list.splits if_splits)
qed simp

text \<open>
  Every release has the feature bits of the one range that covers it; releases outside every range have none, and an
  overlap of two ranges, however their order, is refused.
\<close>

theorem feature_flags_one_range:
  assumes "load_feature_flags snapshot = Inr flags"
  shows "od_get flags (profile_name m)
           = map_option (\<lambda>r. feature_value (fr_enabled r)) (find (covers m) (fs_ranges snapshot))
    \<and> length (filter (covers m) (fs_ranges snapshot)) \<le> 1"
proof -
  from assms have "add_ranges (fs_ranges snapshot) [] = Inr flags"
    by (simp add: load_feature_flags_def split: if_splits)
  from add_ranges_Inr [OF this, of m] show ?thesis by (cases "find (covers m) (fs_ranges snapshot)") simp_all
qed

theorem feature_flags_one_range_witness:
  "\<exists>flags. load_feature_flags \<lparr>fs_features = [''try_quic_by_default'', ''alps_for_http2''],
       fs_ranges = [\<lparr>fr_first = 99, fr_last = 100, fr_enabled = [''alps_for_http2'']\<rparr>,
                    \<lparr>fr_first = 101, fr_last = 101, fr_enabled = [''alps_for_http2'', ''try_quic_by_default'']\<rparr>]\<rparr> = Inr flags
     \<and> od_get flags (profile_name 100) = Some 1 \<and> od_get flags (profile_name 101) = Some 3
     \<and> od_get flags (profile_name 102) = None"
proof -
  let ?r1 = "\<lparr>fr_first = 99, fr_last = 100, fr_enabled = [''alps_for_http2'']\<rparr>"
  let ?r2 = "\<lparr>fr_first = 101, fr_last = 101, fr_enabled = [''alps_for_http2'', ''try_quic_by_default'']\<rparr>"
  let ?s = "\<lparr>fs_features = [''try_quic_by_default'', ''alps_for_http2''], fs_ranges = [?r1, ?r2]\<rparr>"
  have up: "[99..100] = [99, 100 :: int]" by (simp add: upto.simps)
  have "\<exists>flags. load_feature_flags ?s = Inr flags"
    by (auto simp: load_feature_flags_def FEATURE_BITS_def up od_has_def od_get_put)
  then obtain flags where f: "load_feature_flags ?s = Inr flags" ..
  have v: "feature_value (fr_enabled ?r1) = 1" "feature_value (fr_enabled ?r2) = 3"
    by (simp_all add: feature_value_def FEATURE_BITS_def)
  show ?thesis
    using f feature_flags_one_range [OF f, of 100] feature_flags_one_range [OF f, of 101]
      feature_flags_one_range [OF f, of 102] v
    by (simp add: covers_def)
qed

section \<open>Shared arrays\<close>

definition names_ok :: "string \<Rightarrow> ('v, string) odict \<Rightarrow> bool" where
  "names_ok prefix arrays \<longleftrightarrow> od_wf arrays
     \<and> map snd arrays = map (\<lambda>i. prefix @ ''_'' @ show_nat i) [0..<length arrays]"

lemma od_put_absent: "\<not> od_has m k \<Longrightarrow> od_put k v m = m @ [(k, v)]"
  by (induction m) (auto simp: od_put_def od_has_def od_get_def split: if_splits)

lemma names_ok_intern: "names_ok prefix arrays \<Longrightarrow> names_ok prefix (intern prefix v arrays)"
  by (cases "od_has arrays v")
     (auto simp: names_ok_def intern_def od_setdefault_def od_put_absent [symmetric] od_wf_put, simp add: od_put_absent)

interpretation interning: safe_machine "intern prefix" "names_ok prefix" for prefix
  by unfold_locales (rule names_ok_intern)

lemma names_ok_Nil [simp]: "names_ok prefix []"
  by (simp add: names_ok_def)

lemma names_ok_distinct: "names_ok prefix arrays \<Longrightarrow> distinct (map snd arrays)"
  by (auto simp: names_ok_def distinct_map inj_on_def)

lemma intern_keeps: "od_get arrays v = Some n \<Longrightarrow> od_get (intern prefix w arrays) v = Some n"
  by (auto simp: intern_def od_setdefault_def od_has_def od_get_put)

lemma intern_has: "od_get (intern prefix v arrays) v \<noteq> None"
  by (auto simp: intern_def od_setdefault_def od_has_def od_get_put)

lemma intern_keys: "fst ` set (intern prefix v arrays) = insert v (fst ` set arrays)"
proof (cases "od_has arrays v")
  case True
  then have "v \<in> fst ` set arrays" by (auto simp: od_has_def od_get_def map_of_eq_None_iff)
  with True show ?thesis by (auto simp: intern_def od_setdefault_def)
qed (auto simp: intern_def od_setdefault_def od_put_absent)

lemma run_intern_keys:
  "fst ` set (interning.run prefix vs arrays) = set vs \<union> fst ` set arrays"
  by (induction vs arbitrary: arrays) (auto simp: intern_keys)

lemma array_names_run: "array_names field values ps = interning.run field (map (\<lambda>p. values (p_tls p)) ps) []"
  by (simp add: array_names_def interning.run_def fold_map comp_def)

text \<open>
  One C++ array per distinct list of names, and no two arrays of a field share a name, so
  a row's reference determines the list it stands for.
\<close>

theorem array_names_exact:
  "od_wf (array_names field values ps)
    \<and> fst ` set (array_names field values ps) = (\<lambda>p. values (p_tls p)) ` set ps
    \<and> inj_on (od_get (array_names field values ps)) ((\<lambda>p. values (p_tls p)) ` set ps)
    \<and> map snd (array_names field values ps)
        = map (\<lambda>i. field @ ''_'' @ show_nat i) [0..<length (array_names field values ps)]"
proof -
  let ?a = "array_names field values ps"
  have ok: "names_ok field ?a" unfolding array_names_run by (rule interning.inv_run) simp
  have keys: "fst ` set ?a = (\<lambda>p. values (p_tls p)) ` set ps"
    unfolding array_names_run run_intern_keys by auto
  have "inj_on (od_get ?a) (fst ` set ?a)"
  proof (rule inj_onI)
    fix x y assume xy: "x \<in> fst ` set ?a" "y \<in> fst ` set ?a" "od_get ?a x = od_get ?a y"
    then obtain n where "map_of ?a x = Some n" "map_of ?a y = Some n"
      by (auto simp: od_get_def) (metis map_of_eq_None_iff not_None_eq xy(1) od_get_def)
    then have "(x, n) \<in> set ?a" "(y, n) \<in> set ?a" by (auto dest: map_of_SomeD)
    with names_ok_distinct [OF ok] show "x = y"
      by (metis distinct_map inj_on_eq_iff prod.inject snd_conv)
  qed
  with ok keys show ?thesis by (simp add: names_ok_def)
qed

section \<open>Extension sets\<close>

definition known_extension :: "string \<Rightarrow> bool" where
  "known_extension e \<longleftrightarrow> e \<in> fst ` set EXTENSION_CODES"

lemma known_code: "known_extension e \<longleftrightarrow> (\<exists>n. map_of EXTENSION_CODES e = Some n)"
  unfolding known_extension_def by (metis map_of_eq_None_iff not_None_eq)

lemma extension_codes_distinct: "distinct (map snd EXTENSION_CODES)" "list_all (\<lambda>n. n mod 256 \<noteq> 10 \<or> n div 256 mod 16 \<noteq> 10) (map snd EXTENSION_CODES)"
  by (simp_all add: EXTENSION_CODES_def)

lemma code_inject:
  "map_of EXTENSION_CODES a = Some n \<Longrightarrow> map_of EXTENSION_CODES b = Some n \<Longrightarrow> a = b"
  using extension_codes_distinct(1)
  by (metis map_of_SomeD distinct_map inj_on_eq_iff prod.inject snd_conv)

lemma sort_Nil_iff: "sort xs = [] \<longleftrightarrow> xs = []"
  by (metis set_empty set_sort)

lemma check_extensions_Inr:
  assumes "check_extensions p = Inr v"
  shows "v = extension_codes (t_extensions (p_tls p)) \<and> v \<noteq> []
    \<and> (\<forall>e \<in> set (t_extensions (p_tls p)). known_extension e \<or> e = ''TLS_GREASE'')
    \<and> (\<exists>g. t_grease (p_tls p) = Some g \<and> gp_enabled g \<and> gp_per_connection g \<and> \<not> gp_fixed_seed g)"
proof -
  have un: "sort (filter (\<lambda>e. e \<notin> fst ` set EXTENSION_CODES \<and> e \<noteq> ''TLS_GREASE'') (remdups (t_extensions (p_tls p)))) = []"
    and v: "v = extension_codes (t_extensions (p_tls p))" "v \<noteq> []"
    and g: "\<not> (case t_grease (p_tls p) of None \<Rightarrow> True | Some g \<Rightarrow> \<not> gp_enabled g \<or> \<not> gp_per_connection g \<or> gp_fixed_seed g)"
    using assms by (simp_all add: check_extensions_def Let_def split: if_splits)
  from un have "filter (\<lambda>e. e \<notin> fst ` set EXTENSION_CODES \<and> e \<noteq> ''TLS_GREASE'') (remdups (t_extensions (p_tls p))) = []"
    by (simp only: sort_Nil_iff)
  then have "\<forall>e \<in> set (t_extensions (p_tls p)). known_extension e \<or> e = ''TLS_GREASE''"
    unfolding filter_empty_conv known_extension_def by simp
  moreover have "\<exists>g. t_grease (p_tls p) = Some g \<and> gp_enabled g \<and> gp_per_connection g \<and> \<not> gp_fixed_seed g"
    using g by (cases "t_grease (p_tls p)") auto
  ultimately show ?thesis using v by blast
qed

lemma extension_arrays_Inr:
  "extension_arrays ps arrays = Inr out \<Longrightarrow>
     out = interning.run ''tls_extension_ids'' (map (\<lambda>p. extension_codes (t_extensions (p_tls p))) ps) arrays
     \<and> list_all (\<lambda>p. check_extensions p = Inr (extension_codes (t_extensions (p_tls p)))) ps"
proof (induction ps arbitrary: arrays)
  case (Cons p ps)
  then obtain v where "check_extensions p = Inr v"
    and "extension_arrays ps (intern ''tls_extension_ids'' v arrays) = Inr out"
    by (auto simp: bind_res_Inr)
  with Cons.IH check_extensions_Inr [of p v] show ?case by simp
qed simp

lemma filter_name: "distinct (map snd xs) \<Longrightarrow> (v, n) \<in> set xs \<Longrightarrow> filter (\<lambda>a. snd a = n) xs = [(v, n)]"
  by (induction xs) (auto simp: filter_empty_conv image_iff)

lemma extension_codes_set:
  assumes "\<forall>e \<in> set exts. known_extension e \<or> e = ''TLS_GREASE''"
  shows "set (map Some (extension_codes exts)) = map_of EXTENSION_CODES ` (set exts - {''TLS_GREASE''})
    \<and> sorted (extension_codes exts) \<and> distinct (extension_codes exts)"
proof -
  let ?c = "\<lambda>e. case map_of EXTENSION_CODES e of Some n \<Rightarrow> n | None \<Rightarrow> 0"
  let ?es = "filter (\<lambda>e. e \<noteq> ''TLS_GREASE'') (remdups exts)"
  have some: "map_of EXTENSION_CODES e = Some (?c e)" if "e \<in> set ?es" for e
    using that assms by (auto simp: known_code)
  have "inj_on ?c (set ?es)" using some by (intro inj_onI) (metis code_inject)
  then have "distinct (map ?c ?es)" by (simp add: distinct_map)
  moreover have "set (map Some (map ?c ?es)) = map_of EXTENSION_CODES ` set ?es"
    using some by (auto simp: image_iff)
  ultimately show ?thesis by (auto simp: extension_codes_def)
qed

text \<open>
  When the extension sets are accepted, every profile's set is emitted exactly once, as
  the strictly increasing codes of the names it lists without the GREASE placeholder, and
  every profile draws its GREASE values per connection.
\<close>

theorem extension_arrays_exact:
  assumes "extension_arrays ps [] = Inr arrays" and "p \<in> set ps"
  shows "\<exists>v name. od_get arrays v = Some name \<and> filter (\<lambda>a. snd a = name) arrays = [(v, name)]
    \<and> set (map Some v) = map_of EXTENSION_CODES ` (set (t_extensions (p_tls p)) - {''TLS_GREASE''})
    \<and> sorted v \<and> distinct v \<and> v \<noteq> []
    \<and> (\<exists>g. t_grease (p_tls p) = Some g \<and> gp_enabled g \<and> gp_per_connection g \<and> \<not> gp_fixed_seed g)"
proof -
  let ?v = "extension_codes (t_extensions (p_tls p))"
  note run = extension_arrays_Inr [OF assms(1)]
  with assms(2) have c: "check_extensions p = Inr ?v" by (auto simp: list_all_iff)
  note ok = check_extensions_Inr [OF c]
  have names: "names_ok ''tls_extension_ids'' arrays" using run by (simp add: interning.inv_run)
  have "?v \<in> fst ` set arrays" using run assms(2) by (auto simp: run_intern_keys)
  then obtain name where get: "od_get arrays ?v = Some name"
    unfolding od_get_def by (metis map_of_eq_None_iff not_None_eq)
  then have "filter (\<lambda>a. snd a = name) arrays = [(?v, name)]"
    using names_ok_distinct [OF names] map_of_SomeD [of arrays ?v name] by (simp add: od_get_def filter_name)
  with get ok extension_codes_set [of "t_extensions (p_tls p)"] show ?thesis by blast
qed

section \<open>Trust anchors\<close>

lemma anchor_loop_Nil [simp]: "anchor_loop [] = []"
  by (simp add: anchor_loop.simps)

lemma tile_loop_drop:
  "tile_loop payload index \<longleftrightarrow> valid_anchors (anchor_loop (drop index payload))
     \<and> anchor_octets (anchor_loop (drop index payload)) = drop index payload"
proof (induction payload index rule: tile_loop.induct)
  case (1 payload index)
  show ?case
  proof (cases "index < length payload")
    case False
    then show ?thesis by (subst tile_loop.simps) (simp add: valid_anchors_def anchor_octets_def)
  next
    case True
    let ?l = "payload ! index" and ?rest = "drop (index + 1) payload"
    have d: "drop index payload = ?l # ?rest" using True by (simp add: Cons_nth_drop_Suc)
    show ?thesis
    proof (cases "unat ?l = 0 \<or> length payload < index + 1 + unat ?l")
      case bad: True
      then have "anchor_loop (drop index payload) = []"
        using True unfolding d by (subst anchor_loop.simps) auto
      with bad True show ?thesis
        by (subst tile_loop.simps) (auto simp: d anchor_octets_def)
    next
      case good: False
      have a: "anchor_loop (drop index payload)
          = take (unat ?l) ?rest # anchor_loop (drop (index + 1 + unat ?l) payload)"
        using good True unfolding d by (subst anchor_loop.simps) (auto simp: add_ac)
      have len: "length (take (unat ?l) ?rest) = unat ?l" using good by auto
      have b: "unat ?l < 256" using unsigned_less [of ?l, where 'a = nat] by simp
      have t: "tile_loop payload index = tile_loop payload (index + 1 + unat ?l)"
        using good True by (subst tile_loop.simps) (simp add: Let_def)
      have r: "drop (index + 1 + unat ?l) payload = drop (unat ?l) ?rest" by (simp add: add_ac)
      have e: "drop index payload = of_nat (unat ?l) # take (unat ?l) ?rest @ drop (index + 1 + unat ?l) payload"
        unfolding d r append_take_drop_id by simp
      have "(anchor_octets (anchor_loop (drop index payload)) = drop index payload)
          \<longleftrightarrow> anchor_octets (anchor_loop (drop (index + 1 + unat ?l) payload)) = drop (index + 1 + unat ?l) payload"
        unfolding a unfolding e anchor_octets_def list.map concat.simps len by simp
      moreover have "valid_anchors (anchor_loop (drop index payload))
          \<longleftrightarrow> valid_anchors (anchor_loop (drop (index + 1 + unat ?l) payload))"
        using good b len unfolding a by (auto simp: valid_anchors_def simp flip: length_greater_0_conv)
      ultimately show ?thesis using 1 True good unfolding t by (auto simp: Let_def)
    qed
  qed
qed

text \<open>
  A trust-anchor payload is let through exactly when it is the length-prefixed encoding of
  the identifiers that the capture inspector reads from it, none empty and none too long.
\<close>

theorem tile_loop_accepts_encodings:
  "tile_loop payload 0 \<longleftrightarrow>
     valid_anchors (anchor_loop payload) \<and> anchor_octets (anchor_loop payload) = payload"
  using tile_loop_drop [of payload 0] by simp

text \<open>
  C40: The payload of an accepted profile is read back by the capture inspector as the list of
  identifiers it encodes; a profile has one exactly when it lists the extension.
\<close>

theorem check_anchors_recovers:
  assumes "check_anchors p = Inr r"
  shows "(r \<noteq> None \<longleftrightarrow> ''trust_anchors'' \<in> set (t_extensions (p_tls p)))
    \<and> (case r of None \<Rightarrow> True
        | Some payload \<Rightarrow> length payload < 65536 \<longrightarrow>
            (\<exists>ids. valid_anchors ids \<and> payload = anchor_octets ids
              \<and> decode_trust_anchors (be (length payload) @ payload) = map octets_hex ids))"
proof (cases r)
  case None
  with assms show ?thesis by (auto simp: check_anchors_def Let_def split: if_splits option.splits)
next
  case (Some payload)
  with assms have t: "tile_loop payload 0" and l: "''trust_anchors'' \<in> set (t_extensions (p_tls p))"
    by (auto simp: check_anchors_def Let_def split: if_splits option.splits)
  have "decode_trust_anchors (be (length payload) @ payload) = map octets_hex (anchor_loop payload)"
    if "length payload < 65536"
    using that by (simp add: decode_trust_anchors_def be_def be16_be)
  with Some t l show ?thesis unfolding tile_loop_drop drop_0 by (auto intro!: exI [of _ "anchor_loop payload"])
qed

theorem extension_arrays_exact_witness:
  "\<exists>arrays p v. extension_arrays [p] [] = Inr arrays \<and> od_get arrays v = Some ''tls_extension_ids_0''
     \<and> set (map Some v) = {Some 0, Some 51}"
proof -
  let ?t = "\<lparr>t_cipher_suites = [], t_curves = [''X25519''], t_signature_algorithms = [], t_key_share_count = 1,
      t_extension_order = Some ''boringssl_native'',
      t_grease = Some \<lparr>gp_enabled = True, gp_per_connection = True, gp_fixed_seed = False\<rparr>,
      t_grease_signatures = False, t_extensions = [''key_share'', ''TLS_GREASE'', ''server_name''], t_anchor_ids = None\<rparr>"
  let ?p = "\<lparr>p_id = ''chrome_99'', p_tls = ?t, p_wire_verified = True\<rparr>"
  let ?v = "extension_codes [''key_share'', ''TLS_GREASE'', ''server_name'']"
  have "check_extensions ?p = Inr ?v"
    by (simp add: check_extensions_def extension_codes_def EXTENSION_CODES_def)
  then have a: "extension_arrays [?p] [] = Inr [(?v, ''tls_extension_ids_0'')]"
    by (simp add: intern_def od_setdefault_def od_has_def od_put_def show_eval)
  from extension_arrays_exact [OF a, of ?p]
  have "set (map Some ?v) = {Some 0, Some 51}"
    by (auto simp: od_get_def EXTENSION_CODES_def split: if_splits)
  with a show ?thesis by (intro exI conjI) (auto simp: od_get_def)
qed

theorem check_anchors_recovers_witness:
  "\<exists>p payload. check_anchors p = Inr (Some payload) \<and> payload = [2, 0xAB, 0x01, 1, 0xFF]
     \<and> decode_trust_anchors (be 5 @ payload) = [''ab01'', ''ff'']"
proof -
  let ?t = "\<lparr>t_cipher_suites = [], t_curves = [''X25519''], t_signature_algorithms = [], t_key_share_count = 1,
      t_extension_order = None, t_grease = None, t_grease_signatures = False,
      t_extensions = [''trust_anchors''], t_anchor_ids = Some ''02 AB01 01FF''\<rparr>"
  let ?p = "\<lparr>p_id = ''chrome_152'', p_tls = ?t, p_wire_verified = True\<rparr>"
  let ?v = "[2, 0xAB, 0x01, 1, 0xFF] :: octets"
  have hex: "fromhex ''02 AB01 01FF'' = Some ?v" by (simp add: ascii_blank_def hex_val_def)
  have c: "check_anchors ?p = Inr (Some ?v)"
    by (simp add: check_anchors_def hex tile_loop.simps del: fromhex.simps)
  have len: "length ?v = 5" by simp
  have "length ?v < 65536" by simp
  with conjunct2 [OF check_anchors_recovers [OF c]] obtain ids where i: "valid_anchors ids" "?v = anchor_octets ids"
    "decode_trust_anchors (be (length ?v) @ ?v) = map octets_hex ids" unfolding option.case by blast
  have chars: "char_of (97 :: nat) = CHR ''a''" "char_of (98 :: nat) = CHR ''b''" "char_of (102 :: nat) = CHR ''f''"
    "char_of (48 :: nat) = CHR ''0''" "char_of (49 :: nat) = CHR ''1''" by code_simp+
  have "ids = anchor_loop ?v" using anchor_loop_octets [OF i(1), of "[]"] i(2) by simp
  also have "\<dots> = [[0xAB, 0x01], [0xFF]]" by (simp add: anchor_loop.simps)
  finally have "decode_trust_anchors (be 5 @ ?v) = [''ab01'', ''ff'']"
    using i(3) chars unfolding len by (simp add: octets_hex_def hex_of_def)
  with c show ?thesis by blast
qed

section \<open>QUIC policy and key shares in a row\<close>

lemma need_Inr [simp]: "need k v = Inr x \<longleftrightarrow> v = Some x"
  by (simp add: need_def split: option.splits)

lemma check_that_Inr [simp]: "check_that b e = Inr u \<longleftrightarrow> b"
  by (simp add: check_that_def)

lemma check_quic_get:
  "check_quic eff = Inr () \<Longrightarrow> od_get eff pid = Some pr \<Longrightarrow>
     pr_enable_quic pr = Some True \<and> (\<exists>m. major_of pid = Inr m \<and> pr_try_quic pr = Some (123 \<le> m))"
  by (induction eff) (auto simp: od_get_def bind_res_Inr split: if_splits)

lemma digits_strip: "list_all ascii_digit s \<Longrightarrow> py_strip s = s"
proof -
  assume d: "list_all ascii_digit s"
  have no: "\<not> py_isspace c" if "ascii_digit c" for c
    using that by (auto simp: ascii_digit_def py_isspace_def Let_def)
  have "dropWhile py_isspace t = t" if "list_all ascii_digit t" for t
    using that no by (cases t) auto
  moreover from d have "list_all ascii_digit (rev s)" by (simp add: list_all_iff)
  ultimately show ?thesis using d by (simp add: py_strip_def strip_by_def)
qed

lemma int_text_show_nat: "int_text (show_nat n) = Some (int n)"
proof -
  have d: "list_all ascii_digit (show_nat n)" by (rule show_nat_digits)
  then have "CHR ''_'' \<notin> set (show_nat n)" "hd (show_nat n) \<noteq> CHR ''-''" "hd (show_nat n) \<noteq> CHR ''+''"
    by (cases "show_nat n", auto simp: list_all_iff ascii_digit_def)+
  then show ?thesis
    using d read_show_nat [of n]
    by (cases "show_nat n") (auto simp: int_text_def Let_def digits_strip split_on_no_sep)
qed

lemma major_of_profile_name: "major_of (profile_name (int n)) = Inr (int n)"
  by (simp add: major_of_def profile_name_def show_int_def split_once_def int_text_show_nat)

text \<open>
  With the policy check passed, a row of \<open>chrome_<n>\<close> has QUIC enabled, tries it by default
  exactly from release 123 on, pads the ClientHello to 408 octets up to release 118 only,
  and offers at least one key share and no more than there are curves.
\<close>

theorem profile_row_policy:
  assumes "check_quic eff = Inr ()" and "profile_row ta flags eff p = Inr row"
    and "p_id p = profile_name (int n)"
  shows "length row = 29 \<and> row ! 21 = cpp_bool True \<and> row ! 22 = cpp_bool (123 \<le> n)
    \<and> row ! 24 = ''    '' @ (if n \<le> 118 then ''408'' else ''0'') @ '',''
    \<and> 0 < t_key_share_count (p_tls p) \<and> t_key_share_count (p_tls p) \<le> int (length (t_curves (p_tls p)))"
proof -
  note row = assms(2) [unfolded profile_row_def Let_def bind_res_Inr need_Inr]
  then obtain pr where pr: "od_get eff (p_id p) = Some pr" by blast
  from check_quic_get [OF assms(1) pr] assms(3)
  have q: "pr_enable_quic pr = Some True" "pr_try_quic pr = Some (123 \<le> n)"
    by (simp_all add: major_of_profile_name)
  from row have "check_key_share p = Inr ()" by fastforce
  then have k: "0 < t_key_share_count (p_tls p) \<and> t_key_share_count (p_tls p) \<le> int (length (t_curves (p_tls p)))"
    by (simp add: check_key_share_def)
  have m: "major_of (p_id p) = Inr m \<longleftrightarrow> m = int n" for m
    using assms(3) major_of_profile_name [of n] by auto
  from row have "length row = 29 \<and> row ! 21 = cpp_bool True \<and> row ! 22 = cpp_bool (123 \<le> n)
    \<and> row ! 24 = ''    '' @ (if n \<le> 118 then ''408'' else ''0'') @ '',''"
    unfolding pr option.inject m by (clarsimp simp: q)
  with k show ?thesis by blast
qed

theorem profile_row_policy_witness:
  "\<exists>ta flags eff p row. profile_row ta flags eff p = Inr row \<and> p_id p = ''chrome_123''
     \<and> row ! 22 = ''    true,'' \<and> row ! 24 = ''    0,'' \<and> t_key_share_count (p_tls p) = 1"
proof -
  let ?t = "\<lparr>t_cipher_suites = [], t_curves = [''X25519''], t_signature_algorithms = [], t_key_share_count = 1,
      t_extension_order = Some ''boringssl_native'',
      t_grease = Some \<lparr>gp_enabled = True, gp_per_connection = True, gp_fixed_seed = False\<rparr>,
      t_grease_signatures = False, t_extensions = [], t_anchor_ids = None\<rparr>"
  let ?p = "\<lparr>p_id = profile_name (int 123), p_tls = ?t, p_wire_verified = True\<rparr>"
  let ?pr = "\<lparr>pr_pool_limit = Some False, pr_proxy_pool_limit = Some False, pr_priority_header = Some False,
      pr_quic_orig = Some False, pr_legacy_version = None, pr_enable_quic = Some True, pr_try_quic = Some True,
      pr_h2_values = expected_h2, pr_settings_order = Some [1, 2, 3, 4, 5, 6], pr_enable_push = Some True,
      pr_max_streams = Some False\<rparr>"
  let ?ta = "\<lparr>ta_ciphers = [([], ''cipher_suites_0'')], ta_curves = [([''X25519''], ''curves_0'')],
      ta_signatures = [([], ''signature_algorithms_0'')], ta_extensions = [([], ''tls_extension_ids_0'')],
      ta_anchors = []\<rparr>"
  let ?eff = "[(profile_name (int 123), ?pr)]"
  have q: "check_quic ?eff = Inr ()" by (simp only: check_quic.simps fst_conv snd_conv major_of_profile_name bind_res_simps) simp
  have h2: "check_h2 (profile_name (int 123)) ?pr = Inr ()"
    by (simp add: check_h2_def expected_h2_def od_has_def od_get_def check_that_def)
  have ks: "check_key_share ?p = Inr ()" by (simp add: check_key_share_def)
  have get: "od_get ?eff (profile_name (int 123)) = Some ?pr"
    "od_get [(profile_name (int 123), 3 :: nat)] (profile_name (int 123)) = Some 3"
    "od_get (ta_ciphers ?ta) [] = Some ''cipher_suites_0''" "od_get (ta_curves ?ta) [''X25519''] = Some ''curves_0''"
    "od_get (ta_signatures ?ta) [] = Some ''signature_algorithms_0''"
    "od_get (ta_extensions ?ta) (extension_codes []) = Some ''tls_extension_ids_0''"
    by (simp_all add: od_get_def extension_codes_def)
  have "\<exists>row. profile_row ?ta [(profile_name (int 123), 3)] ?eff ?p = Inr row"
    unfolding profile_row_def Let_def
    using get h2 ks major_of_profile_name [of 123]
    by (simp add: pool_limits_def anchor_span_def need_def del: of_nat_numeral)
  then obtain row where r: "profile_row ?ta [(profile_name (int 123), 3)] ?eff ?p = Inr row" ..
  have id: "profile_name (int 123) = ''chrome_123''" by (simp add: profile_name_def show_eval)
  show ?thesis
    by (intro exI [of _ ?ta] exI [of _ "[(profile_name (int 123), 3)]"] exI [of _ ?eff] exI [of _ ?p] exI [of _ row])
       (use r id profile_row_policy [OF q r, of 123] in \<open>simp add: cpp_bool_def\<close>)
qed
end
