(* ===== verification/Text_Codec.thy ===== *)
theory Text_Codec
  imports Py_Strings
begin

text \<open>
  Bytes to text.  \<open>bytes.decode\<close> and the incremental decoders of \<open>codecs\<close> are one
  byte-wise machine each: it emits code points and marks where the input was malformed.
  UTF-8, ASCII and ISO 8859-1 are given in full; the other codecs a server may name are a
  table of such machines.  Text is a list of code points here, since a decoded body ranges
  over all of Unicode.
\<close>

type_synonym ustr = "nat list"

text \<open>A decoder: its start, what a byte does, and what the end of the input does.\<close>

record 's decoder =
  dc_init :: 's
  dc_byte :: "char \<Rightarrow> 's \<Rightarrow> nat option list \<times> 's"
  dc_end :: "'s \<Rightarrow> nat option list"

primrec dc_feed :: "'s decoder \<Rightarrow> string \<Rightarrow> 's \<Rightarrow> nat option list \<times> 's" where
  "dc_feed d [] s = ([], s)"
| "dc_feed d (c # bs) s =
     (case dc_byte d c s of (t, s1) \<Rightarrow> case dc_feed d bs s1 of (u, s2) \<Rightarrow> (t @ u, s2))"

definition dc_run :: "'s decoder \<Rightarrow> string \<Rightarrow> nat option list" where
  "dc_run d bs = (case dc_feed d bs (dc_init d) of (t, s) \<Rightarrow> t @ dc_end d s)"

text \<open>\<open>errors="replace"\<close> puts U+FFFD where the input is malformed, \<open>"strict"\<close> raises.\<close>

definition replaced :: "nat option list \<Rightarrow> ustr" where
  "replaced = map (\<lambda>x. case x of Some n \<Rightarrow> n | None \<Rightarrow> 65533)"

definition strict :: "nat option list \<Rightarrow> ustr option" where
  "strict t = (if None \<in> set t then None else Some (map the t))"

definition decode_replace :: "'s decoder \<Rightarrow> string \<Rightarrow> ustr" where
  "decode_replace d bs = replaced (dc_run d bs)"

definition decode_strict :: "'s decoder \<Rightarrow> string \<Rightarrow> ustr option" where
  "decode_strict d bs = strict (dc_run d bs)"

lemma replaced_simps [simp]:
  "replaced [] = []" "replaced (x # t) = (case x of Some n \<Rightarrow> n | None \<Rightarrow> 65533) # replaced t"
  "replaced (t @ u) = replaced t @ replaced u"
  by (simp_all add: replaced_def)

lemma replaced_strict: "strict t = Some u \<Longrightarrow> replaced t = u"
  by (auto simp: strict_def replaced_def split: if_splits option.splits intro!: map_cong)

lemma strict_replaced: "decode_strict d bs = Some t \<Longrightarrow> decode_replace d bs = t"
  by (simp add: decode_strict_def decode_replace_def replaced_strict)

section \<open>Decoding in pieces\<close>

text \<open>
  What a streaming reader relies on: feeding the pieces of an input one after the other is
  feeding the input.
\<close>

locale incremental =
  fixes feed :: "string \<Rightarrow> 's \<Rightarrow> 't list \<times> 's"
  assumes feed_none: "feed [] s = ([], s)"
    and feed_append: "feed (a @ b) s =
      (case feed a s of (t, s1) \<Rightarrow> case feed b s1 of (u, s2) \<Rightarrow> (t @ u, s2))"
begin

primrec feed_all :: "string list \<Rightarrow> 's \<Rightarrow> 't list list \<times> 's" where
  "feed_all [] s = ([], s)"
| "feed_all (c # cs) s =
     (case feed c s of (t, s1) \<Rightarrow> case feed_all cs s1 of (ts, s2) \<Rightarrow> (t # ts, s2))"

lemma feed_concat:
  "feed (concat cs) s = (case feed_all cs s of (ts, s') \<Rightarrow> (concat ts, s'))"
  by (induction cs arbitrary: s) (auto simp: feed_none feed_append split: prod.splits)

end

lemma dc_feed_append:
  "dc_feed d (a @ b) s = (case dc_feed d a s of (t, s1) \<Rightarrow> case dc_feed d b s1 of (u, s2) \<Rightarrow> (t @ u, s2))"
  by (induction a arbitrary: s) (auto split: prod.splits)

interpretation dc: incremental "dc_feed d" for d
  by unfold_locales (simp_all add: dc_feed_append)

section \<open>One byte, one character\<close>

definition latin1_decoder :: "unit decoder" where
  "latin1_decoder = \<lparr>dc_init = (), dc_byte = \<lambda>c s. ([Some (cp c)], s), dc_end = \<lambda>s. []\<rparr>"

definition ascii_decoder :: "unit decoder" where
  "ascii_decoder = \<lparr>dc_init = (), dc_byte = \<lambda>c s. ([if cp c < 128 then Some (cp c) else None], s), dc_end = \<lambda>s. []\<rparr>"

lemma latin1_run [simp]: "dc_run latin1_decoder bs = map (Some \<circ> of_char) bs"
proof -
  have "dc_feed latin1_decoder bs s = (map (Some \<circ> of_char) bs, ())" for s
    by (induction bs arbitrary: s) (simp_all add: latin1_decoder_def)
  then show ?thesis by (simp add: dc_run_def) (simp add: latin1_decoder_def)
qed

section \<open>UTF-8\<close>

text \<open>
  The bytes a sequence still needs, the value so far and the range its next byte may be in:
  the range keeps out overlong forms, surrogates and values beyond U+10FFFF.  A byte that
  does not fit ends the sequence as malformed and is looked at again as a first byte.
\<close>

record u8 =
  u8_need :: nat
  u8_value :: nat
  u8_low :: nat
  u8_high :: nat

definition u8_start :: u8 where
  "u8_start = \<lparr>u8_need = 0, u8_value = 0, u8_low = 128, u8_high = 191\<rparr>"

definition u8_first :: "nat \<Rightarrow> nat option list \<times> u8" where
  "u8_first b =
     (if b < 128 then ([Some b], u8_start)
      else if 194 \<le> b \<and> b \<le> 223 then ([], u8_start\<lparr>u8_need := 1, u8_value := b - 192\<rparr>)
      else if 224 \<le> b \<and> b \<le> 239
      then ([], \<lparr>u8_need = 2, u8_value = b - 224, u8_low = (if b = 224 then 160 else 128),
                 u8_high = (if b = 237 then 159 else 191)\<rparr>)
      else if 240 \<le> b \<and> b \<le> 244
      then ([], \<lparr>u8_need = 3, u8_value = b - 240, u8_low = (if b = 240 then 144 else 128),
                 u8_high = (if b = 244 then 143 else 191)\<rparr>)
      else ([None], u8_start))"

definition u8_byte :: "char \<Rightarrow> u8 \<Rightarrow> nat option list \<times> u8" where
  "u8_byte c s =
     (let b = cp c in
      if u8_need s = 0 then u8_first b
      else if u8_low s \<le> b \<and> b \<le> u8_high s
      then (let v = u8_value s * 64 + (b - 128)
            in if u8_need s = 1 then ([Some v], u8_start)
               else ([], u8_start\<lparr>u8_need := u8_need s - 1, u8_value := v\<rparr>))
      else (case u8_first b of (t, s') \<Rightarrow> (None # t, s')))"

definition utf8_decoder :: "u8 decoder" where
  "utf8_decoder = \<lparr>dc_init = u8_start, dc_byte = u8_byte, dc_end = \<lambda>s. if u8_need s = 0 then [] else [None]\<rparr>"

text \<open>The encoder on every scalar value, to state what the decoder inverts.\<close>

definition scalar :: "nat \<Rightarrow> bool" where
  "scalar n \<longleftrightarrow> n < 55296 \<or> 57344 \<le> n \<and> n < 1114112"

definition utf8_scalar :: "nat \<Rightarrow> string" where
  "utf8_scalar n =
     map char_of
       (if n < 128 then [n]
        else if n < 2048 then [192 + n div 64, 128 + n mod 64]
        else if n < 65536 then [224 + n div 4096, 128 + n div 64 mod 64, 128 + n mod 64]
        else [240 + n div 262144, 128 + n div 4096 mod 64, 128 + n div 64 mod 64, 128 + n mod 64])"

definition utf8_text :: "ustr \<Rightarrow> string" where
  "utf8_text t = concat (map utf8_scalar t)"

lemma utf8_char_scalar: "utf8_scalar (cp c) = utf8_char c"
proof -
  have "128 \<le> cp c \<Longrightarrow> cp c < 2048" using code_less [of c] by linarith
  then show ?thesis by (auto simp: utf8_scalar_def utf8_char_def Let_def)
qed

lemma utf8_encode_text: "utf8_encode s = utf8_text (map of_char s)"
  by (simp add: utf8_encode_def utf8_text_def utf8_char_scalar comp_def)

lemma u8_start_simps [simp]:
  "u8_need u8_start = 0" "u8_low u8_start = 128" "u8_high u8_start = 191" "u8_value u8_start = 0"
  by (simp_all add: u8_start_def)

lemma utf8_decoder_simps [simp]:
  "dc_init utf8_decoder = u8_start" "dc_byte utf8_decoder = u8_byte"
  "dc_end utf8_decoder s = (if u8_need s = 0 then [] else [None])"
  by (simp_all add: utf8_decoder_def)

text \<open>The value a sequence carries, from its parts in base 64\<close>

lemma base64_parts:
  "n div 64 * 64 + n mod 64 = (n :: nat)"
  "n div 4096 * 64 + n div 64 mod 64 = n div 64"
  "n div 262144 * 64 + n div 4096 mod 64 = n div 4096"
  using div_mult_mod_eq [of n 64] div_mult_mod_eq [of "n div 64" 64] div_mult_mod_eq [of "n div 4096" 64]
  by (simp_all add: div_mult2_eq [symmetric])

lemma byte_code [simp]: "n < 256 \<Longrightarrow> of_char (char_of n :: char) = (n :: nat)"
  by (rule code_char_of)

lemma u8_lead_two:
  "2 \<le> q \<Longrightarrow> q < 32 \<Longrightarrow>
   u8_byte (char_of (192 + q)) u8_start = ([], \<lparr>u8_need = Suc 0, u8_value = q, u8_low = 128, u8_high = 191\<rparr>)"
  by (simp add: u8_byte_def u8_first_def u8_start_def)

lemma u8_lead_three:
  "q < 16 \<Longrightarrow>
   u8_byte (char_of (224 + q)) u8_start
   = ([], \<lparr>u8_need = Suc (Suc 0), u8_value = q, u8_low = (if q = 0 then 160 else 128),
           u8_high = (if q = 13 then 159 else 191)\<rparr>)"
  by (simp add: u8_byte_def u8_first_def)

lemma u8_lead_four:
  "q \<le> 4 \<Longrightarrow>
   u8_byte (char_of (240 + q)) u8_start
   = ([], \<lparr>u8_need = Suc (Suc (Suc 0)), u8_value = q, u8_low = (if q = 0 then 144 else 128),
           u8_high = (if q = 4 then 143 else 191)\<rparr>)"
  by (simp add: u8_byte_def u8_first_def)

lemma u8_last:
  "lo \<le> 128 + r \<Longrightarrow> 128 + r \<le> hi \<Longrightarrow> r < 64 \<Longrightarrow>
   u8_byte (char_of (128 + r)) \<lparr>u8_need = Suc 0, u8_value = v, u8_low = lo, u8_high = hi\<rparr>
   = ([Some (v * 64 + r)], u8_start)"
  by (simp add: u8_byte_def)

lemma u8_inner:
  "lo \<le> 128 + r \<Longrightarrow> 128 + r \<le> hi \<Longrightarrow> r < 64 \<Longrightarrow>
   u8_byte (char_of (128 + r)) \<lparr>u8_need = Suc (Suc k), u8_value = v, u8_low = lo, u8_high = hi\<rparr>
   = ([], \<lparr>u8_need = Suc k, u8_value = v * 64 + r, u8_low = 128, u8_high = 191\<rparr>)"
  by (simp add: u8_byte_def u8_start_def)

lemmas u8_steps = u8_lead_two u8_lead_three u8_lead_four u8_last u8_inner

lemma below64 [simp]: "n mod 64 < (64 :: nat)" "n mod 64 \<le> (63 :: nat)"
  using mod_less_divisor [of 64 n] by (simp, linarith)

lemma u8_two:
  assumes "128 \<le> n" "n < 2048"
  shows "dc_feed utf8_decoder (map char_of [192 + n div 64, 128 + n mod 64]) u8_start = ([Some n], u8_start)"
proof -
  have "2 \<le> n div 64" "n div 64 < 32" using assms by linarith+
  then show ?thesis by (simp add: u8_steps base64_parts(1))
qed

lemma u8_three:
  assumes "2048 \<le> n" "n < 65536" "scalar n"
  shows "dc_feed utf8_decoder (map char_of [224 + n div 4096, 128 + n div 64 mod 64, 128 + n mod 64]) u8_start
    = ([Some n], u8_start)"
proof -
  define q r where "q = n div 4096" and "r = n div 64 mod 64"
  have lim: "q < 16" "r < 64" using assms(2) by (simp_all add: q_def r_def)
  have parts: "q * 64 + r = n div 64" by (simp add: q_def r_def base64_parts(2))
  have low: "q = 0 \<Longrightarrow> 32 \<le> r" using parts assms(1) by linarith
  have high: "q = 13 \<Longrightarrow> r \<le> 31" using parts assms(3) lim unfolding scalar_def by linarith
  have "u8_byte (char_of (128 + r)) \<lparr>u8_need = Suc (Suc 0), u8_value = q, u8_low = (if q = 0 then 160 else 128),
           u8_high = (if q = 13 then 159 else 191)\<rparr>
      = ([], \<lparr>u8_need = Suc 0, u8_value = n div 64, u8_low = 128, u8_high = 191\<rparr>)"
    using lim low high parts by (subst u8_inner) auto
  then show ?thesis
    using lim by (simp add: u8_steps base64_parts(1) flip: q_def r_def)
qed

lemma u8_four:
  assumes "65536 \<le> n" "n < 1114112"
  shows "dc_feed utf8_decoder (map char_of [240 + n div 262144, 128 + n div 4096 mod 64,
      128 + n div 64 mod 64, 128 + n mod 64]) u8_start = ([Some n], u8_start)"
proof -
  define q r where "q = n div 262144" and "r = n div 4096 mod 64"
  have lim: "q \<le> 4" "r < 64" using assms(2) by (simp_all add: q_def r_def)
  have parts: "q * 64 + r = n div 4096" by (simp add: q_def r_def base64_parts(3))
  have low: "q = 0 \<Longrightarrow> 16 \<le> r" using parts assms(1) by linarith
  have high: "q = 4 \<Longrightarrow> r \<le> 15" using parts assms(2) by linarith
  have "u8_byte (char_of (128 + r)) \<lparr>u8_need = Suc (Suc (Suc 0)), u8_value = q,
           u8_low = (if q = 0 then 144 else 128), u8_high = (if q = 4 then 143 else 191)\<rparr>
      = ([], \<lparr>u8_need = Suc (Suc 0), u8_value = n div 4096, u8_low = 128, u8_high = 191\<rparr>)"
    using lim low high parts by (subst u8_inner) auto
  then show ?thesis
    using lim by (simp add: u8_steps base64_parts(1,2) flip: q_def r_def)
qed

lemma u8_scalar:
  assumes "scalar n"
  shows "dc_feed utf8_decoder (utf8_scalar n) u8_start = ([Some n], u8_start)"
proof -
  consider "n < 128" | "128 \<le> n" "n < 2048" | "2048 \<le> n" "n < 65536" | "65536 \<le> n" by linarith
  then show ?thesis
  proof cases
    case 1
    then show ?thesis by (simp add: utf8_scalar_def u8_byte_def u8_first_def)
  next
    case 2
    then show ?thesis using u8_two by (simp add: utf8_scalar_def)
  next
    case 3
    then show ?thesis using u8_three assms by (simp add: utf8_scalar_def)
  next
    case 4
    then show ?thesis using u8_four [of n] assms by (simp add: utf8_scalar_def scalar_def)
  qed
qed

lemma u8_text:
  "list_all scalar t \<Longrightarrow> dc_feed utf8_decoder (utf8_text t) u8_start = (map Some t, u8_start)"
  by (induction t) (simp_all add: utf8_text_def dc_feed_append u8_scalar)

text \<open>Decoding what was encoded gives the text back, under either error handler.\<close>

lemma utf8_roundtrip:
  assumes "list_all scalar t"
  shows "decode_strict utf8_decoder (utf8_text t) = Some t" and "decode_replace utf8_decoder (utf8_text t) = t"
proof -
  have "dc_run utf8_decoder (utf8_text t) = map Some t" by (simp add: dc_run_def u8_text assms)
  then show "decode_strict utf8_decoder (utf8_text t) = Some t"
    by (auto simp: decode_strict_def strict_def comp_def)
  then show "decode_replace utf8_decoder (utf8_text t) = t" by (rule strict_replaced)
qed

lemma scalar_byte: "scalar (cp c)"
proof -
  have "cp c < 55296" using code_less [of c] by linarith
  then show ?thesis by (simp add: scalar_def)
qed

lemma utf8_decode_encode: "decode_strict utf8_decoder (utf8_encode s) = Some (map of_char s)"
  by (simp add: utf8_encode_text utf8_roundtrip(1) list_all_iff scalar_byte)

end
