(* ===== verification/Py_Regex.thy ===== *)
theory Py_Regex
  imports Py_Strings
begin

text \<open>
  The part of Python's \<open>re\<close> the program uses: characters and classes, sequence,
  alternation, greedy and lazy repetition, one capturing group.  \<open>rx_match\<close> is the
  backtracking matcher: it lists every way a pattern matches at the front of a text, in the
  order \<open>re\<close> tries them, so the first is the one \<open>re\<close> returns.  \<open>in_lang\<close> is the
  set of words of a pattern; both are related below.
\<close>

section \<open>Patterns\<close>

datatype regex =
    Empty
  | Sym "char \<Rightarrow> bool"
  | Seq regex regex
  | Alt regex regex
  | Star regex
  | LazyStar regex
  | Group regex

definition Opt :: "regex \<Rightarrow> regex" where
  "Opt r = Alt r Empty"

definition Plus :: "regex \<Rightarrow> regex" where
  "Plus r = Seq r (Star r)"

definition LazyPlus :: "regex \<Rightarrow> regex" where
  "LazyPlus r = Seq r (LazyStar r)"

primrec Upto :: "nat \<Rightarrow> regex \<Rightarrow> regex" where
  "Upto 0 r = Empty"
| "Upto (Suc n) r = Opt (Seq r (Upto n r))"

text \<open>The dot matches everything but a line feed.\<close>

definition Dot :: regex where
  "Dot = Sym (\<lambda>c. cp c \<noteq> 10)"

primrec Lit :: "string \<Rightarrow> regex" where
  "Lit [] = Empty"
| "Lit (c # s) = Seq (Sym (\<lambda>x. x = c)) (Lit s)"

text \<open>\<open>re.IGNORECASE\<close> on ASCII patterns\<close>

primrec LitI :: "string \<Rightarrow> regex" where
  "LitI [] = Empty"
| "LitI (c # s) = Seq (Sym (\<lambda>x. lower_char x = lower_char c)) (LitI s)"

fun Alts :: "regex list \<Rightarrow> regex" where
  "Alts [] = Empty"
| "Alts [r] = r"
| "Alts (r # rs) = Alt r (Alts rs)"

section \<open>Matching\<close>

text \<open>
  A result is the captured texts, outermost first, the text matched and the rest.  A
  repetition stops at an iteration that matches nothing.
\<close>

type_synonym rx_result = "string list \<times> string \<times> string"

fun rx_then :: "rx_result \<Rightarrow> rx_result \<Rightarrow> rx_result" where
  "rx_then (g1, m1, _) (g2, m2, rest) = (g1 @ g2, m1 @ m2, rest)"

function rx_match :: "regex \<Rightarrow> string \<Rightarrow> rx_result list" where
  "rx_match Empty s = [([], [], s)]"
| "rx_match (Sym P) s = (case s of [] \<Rightarrow> [] | c # t \<Rightarrow> if P c then [([], [c], t)] else [])"
| "rx_match (Seq r1 r2) s =
     concat (map (\<lambda>a. map (rx_then a) (rx_match r2 (snd (snd a)))) (rx_match r1 s))"
| "rx_match (Alt r1 r2) s = rx_match r1 s @ rx_match r2 s"
| "rx_match (Star r) s =
     concat (map (\<lambda>a. if length (snd (snd a)) < length s
                      then map (rx_then a) (rx_match (Star r) (snd (snd a))) else []) (rx_match r s))
     @ [([], [], s)]"
| "rx_match (LazyStar r) s =
     ([], [], s) #
     concat (map (\<lambda>a. if length (snd (snd a)) < length s
                      then map (rx_then a) (rx_match (LazyStar r) (snd (snd a))) else []) (rx_match r s))"
| "rx_match (Group r) s = map (\<lambda>(g, m, rest). (m # g, m, rest)) (rx_match r s)"
  by pat_completeness auto
termination
  by (relation "measures [\<lambda>(r, s). size r, \<lambda>(r, s). length s]") auto

declare rx_match.simps(5,6) [simp del]

definition rx_at :: "regex \<Rightarrow> string \<Rightarrow> rx_result option" where
  "rx_at r s = (case rx_match r s of [] \<Rightarrow> None | a # _ \<Rightarrow> Some a)"

text \<open>\<open>re.search\<close>: the first position with a match\<close>

fun rx_search :: "regex \<Rightarrow> string \<Rightarrow> rx_result option" where
  "rx_search r [] = rx_at r []"
| "rx_search r (c # s) = (case rx_at r (c # s) of Some a \<Rightarrow> Some a | None \<Rightarrow> rx_search r s)"

text \<open>\<open>re.fullmatch\<close>\<close>

definition rx_full :: "regex \<Rightarrow> string \<Rightarrow> rx_result option" where
  "rx_full r s = (case filter (\<lambda>a. snd (snd a) = []) (rx_match r s) of [] \<Rightarrow> None | a # _ \<Rightarrow> Some a)"

text \<open>
  \<open>re.findall\<close> with one group: what it captured, match after match; the next match is
  looked for behind the last one.
\<close>

function rx_findall :: "regex \<Rightarrow> string \<Rightarrow> string list" where
  "rx_findall r s =
     (case rx_search r s of
        None \<Rightarrow> []
      | Some (g, m, rest) \<Rightarrow>
          hd (g @ [m]) # (if length rest < length s then rx_findall r rest
                          else case s of [] \<Rightarrow> [] | _ # t \<Rightarrow> rx_findall r t))"
  by pat_completeness auto
termination
  by (relation "measure (\<lambda>(r, s). length s)") auto

declare rx_findall.simps [simp del]

text \<open>\<open>re.finditer\<close>: the groups of every match\<close>

function rx_finditer :: "regex \<Rightarrow> string \<Rightarrow> string list list" where
  "rx_finditer r s =
     (case rx_search r s of
        None \<Rightarrow> []
      | Some (g, m, rest) \<Rightarrow>
          g # (if length rest < length s then rx_finditer r rest
               else case s of [] \<Rightarrow> [] | _ # t \<Rightarrow> rx_finditer r t))"
  by pat_completeness auto
termination
  by (relation "measure (\<lambda>(r, s). length s)") auto

declare rx_finditer.simps [simp del]

fun Seqs :: "regex list \<Rightarrow> regex" where
  "Seqs [] = Empty"
| "Seqs [r] = r"
| "Seqs (r # rs) = Seq r (Seqs rs)"

primrec Times :: "nat \<Rightarrow> regex \<Rightarrow> regex" where
  "Times 0 r = Empty"
| "Times (Suc n) r = Seq r (Times n r)"

section \<open>What a pattern means\<close>

inductive in_lang :: "regex \<Rightarrow> string \<Rightarrow> bool" where
  lang_empty: "in_lang Empty []"
| lang_sym: "P c \<Longrightarrow> in_lang (Sym P) [c]"
| lang_seq: "in_lang r1 a \<Longrightarrow> in_lang r2 b \<Longrightarrow> in_lang (Seq r1 r2) (a @ b)"
| lang_left: "in_lang r1 a \<Longrightarrow> in_lang (Alt r1 r2) a"
| lang_right: "in_lang r2 a \<Longrightarrow> in_lang (Alt r1 r2) a"
| lang_stop: "in_lang (Star r) []"
| lang_star: "in_lang r a \<Longrightarrow> in_lang (Star r) b \<Longrightarrow> in_lang (Star r) (a @ b)"
| lang_lazy_stop: "in_lang (LazyStar r) []"
| lang_lazy: "in_lang r a \<Longrightarrow> in_lang (LazyStar r) b \<Longrightarrow> in_lang (LazyStar r) (a @ b)"
| lang_group: "in_lang r a \<Longrightarrow> in_lang (Group r) a"

inductive_cases in_lang_SeqE: "in_lang (Seq r1 r2) w"
inductive_cases in_lang_AltE: "in_lang (Alt r1 r2) w"
inductive_simps in_lang_simps [simp]:
  "in_lang Empty w" "in_lang (Sym P) w" "in_lang (Group r) w" "in_lang (Alt r1 r2) w"

lemma rx_then_parts [simp]:
  "fst (snd (rx_then a b)) = fst (snd a) @ fst (snd b)" "snd (snd (rx_then a b)) = snd (snd b)"
  by (cases a; cases b; simp)+

lemma star_results:
  "a \<in> set (rx_match (Star r) s) \<longleftrightarrow> a = ([], [], s)
    \<or> (\<exists>b \<in> set (rx_match r s). length (snd (snd b)) < length s
         \<and> (\<exists>c \<in> set (rx_match (Star r) (snd (snd b))). a = rx_then b c))"
  by (subst rx_match.simps(5)) auto

lemma lazystar_results:
  "a \<in> set (rx_match (LazyStar r) s) \<longleftrightarrow> a = ([], [], s)
    \<or> (\<exists>b \<in> set (rx_match r s). length (snd (snd b)) < length s
         \<and> (\<exists>c \<in> set (rx_match (LazyStar r) (snd (snd b))). a = rx_then b c))"
  by (subst rx_match.simps(6)) auto

lemma rx_match_sound:
  "a \<in> set (rx_match r s) \<Longrightarrow> in_lang r (fst (snd a)) \<and> s = fst (snd a) @ snd (snd a)"
proof (induction r s arbitrary: a rule: rx_match.induct)
  case (2 P s)
  then show ?case by (auto split: list.splits if_splits)
next
  case (3 r1 r2 s)
  then obtain b c where "b \<in> set (rx_match r1 s)" "c \<in> set (rx_match r2 (snd (snd b)))" "a = rx_then b c" by auto
  with 3(1) [of b] 3(2) [of b c] show ?case by (auto intro: lang_seq)
next
  case (5 r s)
  then consider "a = ([], [], s)"
    | b c where "b \<in> set (rx_match r s)" "length (snd (snd b)) < length s"
        "c \<in> set (rx_match (Star r) (snd (snd b)))" "a = rx_then b c"
    using star_results by metis
  then show ?case
  proof cases
    case 2
    with 5(1) [of b] 5(2) [of b c] show ?thesis by (auto intro: lang_star)
  qed (auto intro: lang_stop)
next
  case (6 r s)
  then consider "a = ([], [], s)"
    | b c where "b \<in> set (rx_match r s)" "length (snd (snd b)) < length s"
        "c \<in> set (rx_match (LazyStar r) (snd (snd b)))" "a = rx_then b c"
    using lazystar_results by metis
  then show ?case
  proof cases
    case 2
    with 6(1) [of b] 6(2) [of b c] show ?thesis by (auto intro: lang_lazy)
  qed (auto intro: lang_lazy_stop)
qed auto

lemma rx_match_complete:
  "in_lang r w \<Longrightarrow> \<exists>g. (g, w, t) \<in> set (rx_match r (w @ t))"
proof (induction r w arbitrary: t rule: in_lang.induct)
  case (lang_seq r1 a r2 b)
  from lang_seq.IH(1) [of "b @ t"] lang_seq.IH(2) [of t]
  obtain g h where "(g, a, b @ t) \<in> set (rx_match r1 (a @ b @ t))" "(h, b, t) \<in> set (rx_match r2 (b @ t))" by blast
  then have "rx_then (g, a, b @ t) (h, b, t) \<in> set (rx_match (Seq r1 r2) (a @ b @ t))" by force
  then show ?case by auto
next
  case (lang_star r a b)
  show ?case
  proof (cases "a = []")
    case False
    from lang_star.IH(1) [of "b @ t"] lang_star.IH(2) [of t]
    obtain g h where "(g, a, b @ t) \<in> set (rx_match r (a @ b @ t))" "(h, b, t) \<in> set (rx_match (Star r) (b @ t))" by blast
    with False have "rx_then (g, a, b @ t) (h, b, t) \<in> set (rx_match (Star r) (a @ b @ t))"
      by (subst star_results) force
    then show ?thesis by auto
  qed (use lang_star.IH(2) in simp)
next
  case (lang_lazy r a b)
  show ?case
  proof (cases "a = []")
    case False
    from lang_lazy.IH(1) [of "b @ t"] lang_lazy.IH(2) [of t]
    obtain g h where "(g, a, b @ t) \<in> set (rx_match r (a @ b @ t))" "(h, b, t) \<in> set (rx_match (LazyStar r) (b @ t))" by blast
    with False have "rx_then (g, a, b @ t) (h, b, t) \<in> set (rx_match (LazyStar r) (a @ b @ t))"
      by (subst lazystar_results) force
    then show ?thesis by auto
  qed (use lang_lazy.IH(2) in simp)
next
  case (lang_group r a)
  then obtain g where "(g, a, t) \<in> set (rx_match r (a @ t))" by blast
  then show ?case by force
next
  case (lang_stop r)
  show ?case by (subst star_results) auto
next
  case (lang_lazy_stop r)
  show ?case by (subst lazystar_results) auto
qed (simp_all, blast+)

lemma rx_at_iff: "rx_at r s \<noteq> None \<longleftrightarrow> (\<exists>w t. s = w @ t \<and> in_lang r w)"
proof
  assume "rx_at r s \<noteq> None"
  then obtain a where "a \<in> set (rx_match r s)" by (cases "rx_match r s") (auto simp: rx_at_def)
  from rx_match_sound [OF this] show "\<exists>w t. s = w @ t \<and> in_lang r w" by blast
next
  assume "\<exists>w t. s = w @ t \<and> in_lang r w"
  then obtain g w t where "(g, w, t) \<in> set (rx_match r s)" using rx_match_complete by blast
  then show "rx_at r s \<noteq> None" by (cases "rx_match r s") (auto simp: rx_at_def)
qed

lemma rx_search_iff: "rx_search r s \<noteq> None \<longleftrightarrow> (\<exists>u w t. s = u @ w @ t \<and> in_lang r w)"
proof (induction s)
  case (Cons c s)
  have "(\<exists>u w t. c # s = u @ w @ t \<and> in_lang r w)
      \<longleftrightarrow> (\<exists>w t. c # s = w @ t \<and> in_lang r w) \<or> (\<exists>u w t. s = u @ w @ t \<and> in_lang r w)"
    by (metis append_Cons append_Nil neq_Nil_conv list.inject)
  moreover have "rx_search r (c # s) \<noteq> None \<longleftrightarrow> rx_at r (c # s) \<noteq> None \<or> rx_search r s \<noteq> None"
    by (simp split: option.split)
  ultimately show ?case using Cons rx_at_iff [of r "c # s"] by simp
qed (simp add: rx_at_iff del: not_None_eq)

lemma rx_full_iff: "rx_full r s \<noteq> None \<longleftrightarrow> in_lang r s"
proof -
  have "rx_full r s \<noteq> None \<longleftrightarrow> (\<exists>a \<in> set (rx_match r s). snd (snd a) = [])"
    by (cases "filter (\<lambda>a. snd (snd a) = []) (rx_match r s)")
       (auto simp: rx_full_def filter_empty_conv dest: filter_eq_ConsD)
  also have "\<dots> \<longleftrightarrow> in_lang r s"
  proof
    assume "\<exists>a \<in> set (rx_match r s). snd (snd a) = []"
    then show "in_lang r s" using rx_match_sound [of _ r s] by fastforce
  next
    assume "in_lang r s"
    from rx_match_complete [OF this, of "[]"] show "\<exists>a \<in> set (rx_match r s). snd (snd a) = []" by force
  qed
  finally show ?thesis .
qed

section \<open>Words of the derived patterns\<close>

lemma in_lang_Seq: "in_lang (Seq r1 r2) w \<longleftrightarrow> (\<exists>a b. w = a @ b \<and> in_lang r1 a \<and> in_lang r2 b)"
  by (blast elim: in_lang_SeqE intro: lang_seq)

lemma in_lang_Lit [simp]: "in_lang (Lit s) w \<longleftrightarrow> w = s"
  by (induction s arbitrary: w) (auto simp: in_lang_Seq)

lemma in_lang_LitI [simp]: "in_lang (LitI s) w \<longleftrightarrow> map lower_char w = map lower_char s"
proof (induction s arbitrary: w)
  case (Cons c s)
  have "in_lang (LitI (c # s)) w
      \<longleftrightarrow> (\<exists>x v. w = x # v \<and> lower_char x = lower_char c \<and> in_lang (LitI s) v)"
    unfolding LitI.simps in_lang_Seq in_lang_simps by (metis append_Cons append_Nil)
  with Cons show ?case by (auto simp: Cons_eq_map_conv)
qed auto

lemma in_lang_Opt [simp]: "in_lang (Opt r) w \<longleftrightarrow> w = [] \<or> in_lang r w"
  by (auto simp: Opt_def)

lemma in_lang_Alts: "rs \<noteq> [] \<Longrightarrow> in_lang (Alts rs) w \<longleftrightarrow> (\<exists>r \<in> set rs. in_lang r w)"
  by (induction rs rule: Alts.induct) auto

end
