(* ===== verification/Responses.thy ===== *)
theory Responses
  imports Models Text_Codec Py_Regex
begin

text \<open>
  The reading side of \<open>models.py\<close>: which encoding a body is in, \<open>text\<close>, \<open>json\<close>,
  \<open>links\<close>, the decoded stream, pickling, and \<open>AsyncResponse\<close>; with
  \<open>get_encodings_from_content\<close> of \<open>utils.py\<close> and the plain \<open>Request\<close>.

  The codecs of \<open>Text_Codec\<close> are found under the names CPython gives them; any other
  codec comes from a table, the first argument of the operations below.  \<open>json.loads\<close> is
  an argument too.
\<close>

section \<open>Finding a codec\<close>

text \<open>The normal form of a codec's name\<close>

fun normalize_encoding :: "bool \<Rightarrow> bool \<Rightarrow> string \<Rightarrow> string" where
  "normalize_encoding punct any [] = []"
| "normalize_encoding punct any (c # s) =
     (if py_isalnum c \<or> c = CHR ''.''
      then (if punct \<and> any then ''_'' else []) @ (if cp c < 128 then [c] else [])
             @ normalize_encoding False (any \<or> cp c < 128) s
      else normalize_encoding True any s)"

definition UTF8_NAMES :: "string list" where
  "UTF8_NAMES = [''utf_8'', ''utf8'', ''u8'', ''utf'', ''utf8_ucs2'', ''utf8_ucs4'', ''cp65001'']"

definition LATIN1_NAMES :: "string list" where
  "LATIN1_NAMES = [''latin_1'', ''iso_8859_1'', ''iso8859_1'', ''latin1'', ''latin'', ''l1'', ''iso8859'', ''8859'',
     ''cp819'', ''ibm819'', ''csisolatin1'', ''iso_8859_1_1987'', ''iso_ir_100'']"

definition ASCII_NAMES :: "string list" where
  "ASCII_NAMES = [''ascii'', ''us_ascii'', ''us'', ''646'', ''ansi_x3.4_1968'', ''ansi_x3_4_1968'', ''ansi_x3.4_1986'',
     ''cp367'', ''csascii'', ''ibm367'', ''iso646_us'', ''iso_646.irv_1991'', ''iso_ir_6'']"

text \<open>The codecs of the table run beside the built-in ones in one state.\<close>

datatype 's dstate = OfU8 u8 | OfUnit | OfOther 's

definition dc_lift :: "('s \<Rightarrow> 'd) \<Rightarrow> ('d \<Rightarrow> 's) \<Rightarrow> 's decoder \<Rightarrow> 'd decoder" where
  "dc_lift enter leave d =
     \<lparr>dc_init = enter (dc_init d),
      dc_byte = \<lambda>c s. (case dc_byte d c (leave s) of (t, s') \<Rightarrow> (t, enter s')),
      dc_end = \<lambda>s. dc_end d (leave s)\<rparr>"

lemma dc_lift_run:
  assumes "\<And>s. leave (enter s) = s"
  shows "dc_run (dc_lift enter leave d) bs = dc_run d bs"
proof -
  have "dc_feed (dc_lift enter leave d) bs (enter s) = map_prod id enter (dc_feed d bs s)" for s
    by (induction bs arbitrary: s) (auto simp: dc_lift_def assms split: prod.splits)
  then show ?thesis by (auto simp: dc_run_def dc_lift_def assms split: prod.splits)
qed

definition utf8_codec :: "'s dstate decoder" where
  "utf8_codec = dc_lift OfU8 (\<lambda>s. case s of OfU8 u \<Rightarrow> u | _ \<Rightarrow> u8_start) utf8_decoder"

definition latin1_codec :: "'s dstate decoder" where
  "latin1_codec = dc_lift (\<lambda>_. OfUnit) (\<lambda>_. ()) latin1_decoder"

definition ascii_codec :: "'s dstate decoder" where
  "ascii_codec = dc_lift (\<lambda>_. OfUnit) (\<lambda>_. ()) ascii_decoder"

type_synonym 's codecs = "string \<Rightarrow> 's decoder option"

definition find_codec :: "'s codecs \<Rightarrow> string \<Rightarrow> 's dstate decoder option" where
  "find_codec other name =
     (let n = normalize_encoding False False (py_lower name) in
      if n \<in> set UTF8_NAMES then Some utf8_codec
      else if n \<in> set LATIN1_NAMES then Some latin1_codec
      else if n \<in> set ASCII_NAMES then Some ascii_codec
      else map_option (\<lambda>d. dc_lift OfOther (\<lambda>s. case s of OfOther x \<Rightarrow> x | _ \<Rightarrow> dc_init d) d) (other n))"

lemma codec_runs [simp]:
  "dc_run utf8_codec bs = dc_run utf8_decoder bs" "dc_run latin1_codec bs = dc_run latin1_decoder bs"
  "dc_run ascii_codec bs = dc_run ascii_decoder bs"
  by (simp_all add: utf8_codec_def latin1_codec_def ascii_codec_def dc_lift_run)

lemma find_utf8 [simp]: "find_codec other ''utf-8'' = Some utf8_codec"
proof -
  have "normalize_encoding False False (py_lower ''utf-8'') = ''utf_8''" by code_simp
  then show ?thesis by (simp add: find_codec_def UTF8_NAMES_def)
qed

lemma find_latin1 [simp]: "find_codec other ''iso-8859-1'' = Some latin1_codec"
proof -
  have "normalize_encoding False False (py_lower ''iso-8859-1'') = ''iso_8859_1''" by code_simp
  then show ?thesis by (simp add: find_codec_def UTF8_NAMES_def LATIN1_NAMES_def)
qed

section \<open>Encodings a document names\<close>

text \<open>
  The bytes are read as ASCII first, with U+FFFD for the others; U+0080 stands for it here,
  which like U+FFFD is in no class of the three patterns and in no codec's name.
\<close>

definition ascii_text :: "string \<Rightarrow> string" where
  "ascii_text = map (\<lambda>c. if cp c < 128 then c else CHR 0x80)"

definition rx_quote :: regex where
  "rx_quote = Sym (\<lambda>c. c = CHR 0x22 \<or> c = CHR 0x27)"

definition rx_stop :: regex where
  "rx_stop = Sym (\<lambda>c. c = CHR 0x22 \<or> c = CHR 0x27 \<or> c = CHR ''>'')"

definition CHARSET_RE :: regex where
  "CHARSET_RE = Seqs [LitI ''<meta'', LazyStar Dot, LitI ''charset='', Star rx_quote, Group (LazyPlus Dot), rx_stop]"

definition PRAGMA_RE :: regex where
  "PRAGMA_RE = Seqs [LitI ''<meta'', LazyStar Dot, LitI ''content='', Star rx_quote, Opt (Lit '';''), LitI ''charset='',
     Group (LazyPlus Dot), rx_stop]"

definition XML_RE :: regex where
  "XML_RE = Seqs [Lit ''<?xml'', LazyStar Dot, Lit ''encoding='', Star rx_quote, Group (LazyPlus Dot), rx_stop]"

text \<open>The last pattern is anchored at the start of the text.\<close>

definition get_encodings_from_content :: "string \<Rightarrow> string list" where
  "get_encodings_from_content content =
     (let t = ascii_text content in
      rx_findall CHARSET_RE t @ rx_findall PRAGMA_RE t
      @ (case rx_at XML_RE t of Some (g, m, rest) \<Rightarrow> [hd (g @ [m])] | None \<Rightarrow> []))"

section \<open>Responses with their encoding\<close>

text \<open>
  \<open>default_encoding\<close> is a name or a function of the body; it is not among the attributes
  that are pickled, so a restored response lacks it.
\<close>

datatype default_encoding = NamedDefault string | DetectDefault "string \<Rightarrow> string"

record text_response =
  tx_base :: response
  tx_encoding :: "string option"
  tx_default :: "default_encoding option"

text \<open>What reading can raise beside an exception of the hierarchy\<close>

datatype read_error = Failed_read exc | AttributeMissing | UnknownCodec

definition tx_new :: "response \<Rightarrow> text_response" where
  "tx_new p = \<lparr>tx_base = p, tx_encoding = None, tx_default = Some (NamedDefault ''utf-8'')\<rparr>"

text \<open>\<open>a or b\<close> on optional names: an empty name counts as missing.\<close>

definition named :: "string option \<Rightarrow> string option" where
  "named e = (case e of Some (c # s) \<Rightarrow> Some (c # s) | _ \<Rightarrow> None)"

definition charset_encoding :: "text_response \<Rightarrow> read_error + string option" where
  "charset_encoding p =
     (case get_encoding_from_content_type (h_get (rp_headers (tx_base p)) ''content-type'') of
        NoCharset \<Rightarrow> Inr None | Charset c \<Rightarrow> Inr (Some c) | AttributeErrorRaised \<Rightarrow> Inl AttributeMissing)"

definition response_charset :: "text_response \<Rightarrow> read_error + string" where
  "response_charset p =
     (case tx_default p of
        None \<Rightarrow> Inl AttributeMissing
      | Some d \<Rightarrow>
          let fallback = (case d of NamedDefault n \<Rightarrow> n | DetectDefault f \<Rightarrow> ''utf-8'')
          in case named (tx_encoding p) of
               Some e \<Rightarrow> Inr e
             | None \<Rightarrow> bind_res (charset_encoding p) (\<lambda>ce.
                 Inr (case named ce of Some e \<Rightarrow> e | None \<Rightarrow> fallback)))"

text \<open>\<open>apparent_encoding\<close> looks at what has been loaded.\<close>

definition CANDIDATES :: "string list" where
  "CANDIDATES = [''utf-8'', ''gb18030'', ''big5'', ''shift_jis'', ''euc-kr'']"

definition decodes_with :: "'s codecs \<Rightarrow> string \<Rightarrow> string \<Rightarrow> bool" where
  "decodes_with other bs name =
     (case find_codec other name of None \<Rightarrow> False | Some d \<Rightarrow> decode_strict d bs \<noteq> None)"

definition apparent_encoding :: "'s codecs \<Rightarrow> response \<Rightarrow> string option" where
  "apparent_encoding other p =
     (let content = (case rp_content p of Some b \<Rightarrow> b | None \<Rightarrow> []) in
      if content = [] then None
      else case get_encodings_from_content (take 4096 content) of
        e # _ \<Rightarrow> Some e
      | [] \<Rightarrow> (case find (decodes_with other content) CANDIDATES of
                 Some e \<Rightarrow> Some e | None \<Rightarrow> Some ''iso-8859-1''))"

text \<open>The encoding \<open>text\<close> settles on, for a loaded body that is not empty\<close>

definition text_encoding :: "'s codecs \<Rightarrow> string \<Rightarrow> text_response \<Rightarrow> read_error + string" where
  "text_encoding other content p =
     bind_res (case named (tx_encoding p) of Some e \<Rightarrow> Inr (Some e) | None \<Rightarrow> charset_encoding p) (\<lambda>declared.
     bind_res (case declared of
         Some e \<Rightarrow> Inr e
       | None \<Rightarrow> (case apparent_encoding other (tx_base p) of
           Some e \<Rightarrow> Inr e
         | None \<Rightarrow> (case tx_default p of Some (NamedDefault n) \<Rightarrow> Inr n | _ \<Rightarrow> Inl AttributeMissing))) (\<lambda>encoding.
     case tx_default p of
       None \<Rightarrow> Inl AttributeMissing
     | Some (NamedDefault n) \<Rightarrow> Inr encoding
     | Some (DetectDefault f) \<Rightarrow>
         if tx_encoding p \<noteq> None then Inr encoding
         else bind_res (charset_encoding p) (\<lambda>ce. Inr (if ce = None then f content else encoding))))"

definition decode_named :: "'s codecs \<Rightarrow> string \<Rightarrow> string \<Rightarrow> read_error + ustr" where
  "decode_named other name bs =
     (case find_codec other name of None \<Rightarrow> Inl UnknownCodec | Some d \<Rightarrow> Inr (decode_replace d bs))"

definition rp_text :: "'s codecs \<Rightarrow> text_response \<Rightarrow> (read_error + ustr) \<times> text_response" where
  "rp_text other p =
     (case rp_get_content (tx_base p) of
        (Inl e, b) \<Rightarrow> (Inl (Failed_read e), p\<lparr>tx_base := b\<rparr>)
      | (Inr content, b) \<Rightarrow>
          let q = p\<lparr>tx_base := b\<rparr> in
          if content = [] then (Inr [], q)
          else (bind_res (text_encoding other content q) (\<lambda>encoding.
                  case decode_named other encoding content of
                    Inr t \<Rightarrow> Inr t
                  | Inl _ \<Rightarrow> decode_named other
                      (case tx_default q of Some (NamedDefault n) \<Rightarrow> n | _ \<Rightarrow> ''utf-8'') content), q))"

text \<open>
  \<open>json()\<close>; \<open>loads\<close> is \<open>json.loads\<close> on text, its failure the text of the
  \<open>ValueError\<close>.  A body that does not decode as the guessed encoding is read through
  \<open>text\<close>.
\<close>

definition json_loads :: "(ustr \<Rightarrow> string + 'j) \<Rightarrow> ustr \<Rightarrow> read_error + 'j" where
  "json_loads loads t =
     (case loads t of Inl m \<Rightarrow> Inl (Failed_read \<lparr>exc_kind = JSONDecodeError, exc_msg = m\<rparr>) | Inr v \<Rightarrow> Inr v)"

definition rp_json :: "'s codecs \<Rightarrow> (ustr \<Rightarrow> string + 'j) \<Rightarrow> text_response \<Rightarrow> (read_error + 'j) \<times> text_response" where
  "rp_json other loads p =
     (case rp_get_content (tx_base p) of
        (Inl e, b) \<Rightarrow> (Inl (Failed_read e), p\<lparr>tx_base := b\<rparr>)
      | (Inr content, b) \<Rightarrow>
          let q = p\<lparr>tx_base := b\<rparr>;
              through_text = (case rp_text other q of (r, q') \<Rightarrow> (bind_res r (json_loads loads), q'))
          in if content = []
             then (Inl (Failed_read \<lparr>exc_kind = JSONDecodeError,
                     exc_msg = ''Expecting value: line 1 column 1 (char 0)''\<rparr>), q)
             else if tx_encoding q = None \<and> 3 < length content
             then (case guess_json_utf content of
                     None \<Rightarrow> through_text
                   | Some guessed \<Rightarrow>
                       (case find_codec other guessed of
                          None \<Rightarrow> (Inl UnknownCodec, q)
                        | Some d \<Rightarrow>
                            (case decode_strict d content of
                               Some t \<Rightarrow> (json_loads loads t, q)
                             | None \<Rightarrow> through_text)))
             else through_text)"

text \<open>\<open>links\<close>: the entries by \<open>rel\<close>, or by their address\<close>

definition link_key :: "(string, string) odict \<Rightarrow> string option" where
  "link_key link = (case named (od_get link ''rel'') of Some r \<Rightarrow> Some r | None \<Rightarrow> od_get link ''url'')"

definition rp_links :: "response \<Rightarrow> (string option, (string, string) odict) odict" where
  "rp_links p =
     (case h_get (rp_headers p) ''link'' of
        None \<Rightarrow> []
      | Some header \<Rightarrow> if header = [] then []
          else od_of (map (\<lambda>link. (link_key link, link)) (parse_header_links header)))"

section \<open>The decoded stream\<close>

text \<open>\<open>_decode_stream\<close> over the blocks of a body and the error that ends them\<close>

definition emit :: "nat option list \<Rightarrow> ustr list" where
  "emit t = (if t = [] then [] else [replaced t])"

fun decode_pieces :: "'s decoder \<Rightarrow> 's \<Rightarrow> string list \<Rightarrow> exc option \<Rightarrow> ustr list \<times> exc option" where
  "decode_pieces d s [] (Some e) = ([], Some e)"
| "decode_pieces d s [] None = (emit (dc_end d s), None)"
| "decode_pieces d s (c # cs) err =
     (case dc_feed d c s of (t, s1) \<Rightarrow>
        case decode_pieces d s1 cs err of (ts, e) \<Rightarrow> (emit t @ ts, e))"

definition stream_encoding :: "text_response \<Rightarrow> read_error + string" where
  "stream_encoding p =
     (case named (tx_encoding p) of
        Some e \<Rightarrow> Inr e
      | None \<Rightarrow> bind_res (charset_encoding p) (\<lambda>ce.
          case named ce of
            Some e \<Rightarrow> Inr e
          | None \<Rightarrow> (case tx_default p of
              None \<Rightarrow> Inl AttributeMissing
            | Some (NamedDefault n) \<Rightarrow> Inr n
            | Some (DetectDefault f) \<Rightarrow> Inr ''utf-8'')))"

text \<open>
  \<open>iter_content(chunk_size, decode_unicode=True)\<close>, consumed to its end.  The decoder is
  looked up when the first piece is asked for, before the body is touched.
\<close>

definition iter_text ::
  "'s codecs \<Rightarrow> int option \<Rightarrow> text_response
   \<Rightarrow> exc_class + (ustr list \<times> read_error option) \<times> text_response" where
  "iter_text other chunk_size p =
     bind_res (iter_content chunk_size (tx_base p)) (\<lambda>((pieces, err), b).
       let untouched = (if rp_reader (tx_base p) = None then p\<lparr>tx_base := b\<rparr> else p) in
       case stream_encoding p of
         Inl e \<Rightarrow> Inr (([], Some e), untouched)
       | Inr name \<Rightarrow>
           (case find_codec other name of
              None \<Rightarrow> Inr (([], Some UnknownCodec), untouched)
            | Some d \<Rightarrow>
                (case decode_pieces d (dc_init d) pieces err of (ts, e) \<Rightarrow>
                   Inr ((ts, map_option Failed_read e), p\<lparr>tx_base := b\<rparr>))))"

section \<open>Pickling\<close>

text \<open>\<open>__getstate__\<close> loads the body first; \<open>__setstate__\<close> fills an object without \<open>__init__\<close>.\<close>

record pickled =
  pk_content :: "string option"
  pk_status :: "nat option"
  pk_headers :: headers
  pk_url :: string
  pk_reason :: string
  pk_encoding :: "string option"

definition rp_getstate :: "text_response \<Rightarrow> (exc + pickled) \<times> text_response" where
  "rp_getstate p =
     (case (if rp_consumed (tx_base p) then (Inr [], tx_base p) else rp_get_content (tx_base p)) of
        (Inl e, b) \<Rightarrow> (Inl e, p\<lparr>tx_base := b\<rparr>)
      | (Inr _, b) \<Rightarrow>
          (Inr \<lparr>pk_content = rp_content b, pk_status = rp_status b, pk_headers = rp_headers b, pk_url = rp_url b,
                pk_reason = rp_reason b, pk_encoding = tx_encoding p\<rparr>, p\<lparr>tx_base := b\<rparr>))"

definition rp_setstate :: "pickled \<Rightarrow> text_response" where
  "rp_setstate k =
     \<lparr>tx_base = rp_new\<lparr>rp_content := pk_content k, rp_consumed := True, rp_reader := None,
        rp_status := pk_status k, rp_headers := pk_headers k, rp_url := pk_url k, rp_reason := pk_reason k\<rparr>,
      tx_encoding = pk_encoding k, tx_default = None\<rparr>"

section \<open>Asynchronous responses\<close>

text \<open>
  The body reader as what awaiting it gives, call after call: a chunk or an error; with
  nothing left it ends.
\<close>

type_synonym async_feed = "(exc + string) list"

record async_response =
  ax_resp :: text_response
  ax_body :: "async_feed option"

fun af_collect :: "async_feed \<Rightarrow> (exc + string) \<times> async_feed" where
  "af_collect [] = (Inr [], [])"
| "af_collect (Inl e # f) = (Inl e, f)"
| "af_collect (Inr c # f) = (case af_collect f of (r, rest) \<Rightarrow> (bind_res r (\<lambda>b. Inr (c @ b)), rest))"

definition ax_upd_base :: "(response \<Rightarrow> response) \<Rightarrow> async_response \<Rightarrow> async_response" where
  "ax_upd_base f a = a\<lparr>ax_resp := (ax_resp a)\<lparr>tx_base := f (tx_base (ax_resp a))\<rparr>\<rparr>"

definition acontent :: "async_response \<Rightarrow> (exc + string) \<times> async_response" where
  "acontent a =
     (case ax_body a of
        None \<Rightarrow> (case rp_get_content (tx_base (ax_resp a)) of (r, b) \<Rightarrow> (r, ax_upd_base (\<lambda>_. b) a))
      | Some f \<Rightarrow>
          (case af_collect f of
             (Inl e, rest) \<Rightarrow> (Inl e, a\<lparr>ax_body := Some rest\<rparr>)
           | (Inr b, rest) \<Rightarrow> (Inr b, ax_upd_base (rp_set_content b) (a\<lparr>ax_body := None\<rparr>))))"

definition atext :: "'s codecs \<Rightarrow> async_response \<Rightarrow> (read_error + ustr) \<times> async_response" where
  "atext other a =
     (case acontent a of
        (Inl e, a') \<Rightarrow> (Inl (Failed_read e), a')
      | (Inr _, a') \<Rightarrow> (case rp_text other (ax_resp a') of (r, p) \<Rightarrow> (r, a'\<lparr>ax_resp := p\<rparr>)))"

definition ajson :: "'s codecs \<Rightarrow> (ustr \<Rightarrow> string + 'j) \<Rightarrow> async_response \<Rightarrow> (read_error + 'j) \<times> async_response" where
  "ajson other loads a =
     (case acontent a of
        (Inl e, a') \<Rightarrow> (Inl (Failed_read e), a')
      | (Inr _, a') \<Rightarrow> (case rp_json other loads (ax_resp a') of (r, p) \<Rightarrow> (r, a'\<lparr>ax_resp := p\<rparr>)))"

text \<open>
  The inner loop of \<open>aiter_content\<close> cuts blocks off what is pending; it need not end, and
  \<open>None\<close> is the run that yields for ever.
\<close>

partial_function (option) acut :: "int \<Rightarrow> string \<Rightarrow> (string list \<times> string) option" where
  "acut n s =
     (if int (length s) < n then Some ([], s)
      else Option.bind (acut n (drop (slice_at n s) s)) (\<lambda>r. Some (take (slice_at n s) s # fst r, snd r)))"

fun ablocks :: "int \<Rightarrow> string \<Rightarrow> async_feed \<Rightarrow> (string list \<times> exc option) option" where
  "ablocks n pending [] = Some (if pending = [] then [] else [pending], None)"
| "ablocks n pending (Inl e # f) = Some ([], Some e)"
| "ablocks n pending (Inr c # f) =
     Option.bind (acut n (pending @ c)) (\<lambda>(bs, left).
     Option.bind (ablocks n left f) (\<lambda>(cs, e). Some (bs @ cs, e)))"

definition or_default :: "int option \<Rightarrow> int" where
  "or_default chunk_size =
     (case chunk_size of None \<Rightarrow> int CONTENT_CHUNK_SIZE | Some n \<Rightarrow> if n = 0 then int CONTENT_CHUNK_SIZE else n)"

definition ax_detach :: "async_response \<Rightarrow> async_response" where
  "ax_detach a = ax_upd_base (\<lambda>b. b\<lparr>rp_consumed := True\<rparr>) (a\<lparr>ax_body := None\<rparr>)"

definition aiter_content ::
  "int option \<Rightarrow> async_response \<Rightarrow> (exc_class + (string list \<times> exc option) \<times> async_response) option" where
  "aiter_content chunk_size a =
     (let n = or_default chunk_size in
      case ax_body a of
        Some f \<Rightarrow> map_option (\<lambda>r. Inr (r, ax_detach a)) (ablocks n [] f)
      | None \<Rightarrow> Some (bind_res (iter_content (Some n) (tx_base (ax_resp a))) (\<lambda>(r, b).
          Inr (r, ax_upd_base (\<lambda>_. b) a))))"

text \<open>
  With \<open>decode_unicode\<close> every block is decoded for itself, in \<open>charset\<close>; the first block
  shows a codec that cannot be found.
\<close>

definition aiter_text ::
  "'s codecs \<Rightarrow> int option \<Rightarrow> async_response
   \<Rightarrow> (exc_class + (ustr list \<times> read_error option) \<times> async_response) option" where
  "aiter_text other chunk_size a =
     (case ax_body a of
        Some f \<Rightarrow>
          map_option (\<lambda>(bs, e).
            let done = ax_detach a in
            if bs = [] then Inr (([], map_option Failed_read e), done)
            else case response_charset (ax_resp a) of
              Inl err \<Rightarrow> Inr (([], Some err), done)
            | Inr name \<Rightarrow>
                (case find_codec other name of
                   None \<Rightarrow> Inr (([], Some UnknownCodec), done)
                 | Some d \<Rightarrow> Inr ((map (decode_replace d) bs, map_option Failed_read e), done)))
            (ablocks (or_default chunk_size) [] f)
      | None \<Rightarrow> Some (bind_res (iter_text other (Some (or_default chunk_size)) (ax_resp a)) (\<lambda>(r, p).
          Inr (r, a\<lparr>ax_resp := p\<rparr>))))"

text \<open>\<open>aiter_lines\<close> over the blocks of the stream; an error keeps the pending line back.\<close>

fun aiter_lines :: "string option \<Rightarrow> string option \<Rightarrow> string list \<Rightarrow> exc option \<Rightarrow> string list \<times> exc option" where
  "aiter_lines delimiter pending [] err =
     ((case (pending, err) of (Some p, None) \<Rightarrow> [p] | _ \<Rightarrow> []), err)"
| "aiter_lines delimiter pending (c # cs) err =
     (let chunk = (case pending of None \<Rightarrow> c | Some p \<Rightarrow> p @ c);
          lines = (case delimiter of Some (x # d) \<Rightarrow> split_sub (x # d) chunk | _ \<Rightarrow> byte_lines [] chunk)
      in if lines \<noteq> [] \<and> last lines \<noteq> [] \<and> chunk \<noteq> [] \<and> last (last lines) = last chunk
         then (case aiter_lines delimiter (Some (last lines)) cs err of (ls, e) \<Rightarrow> (butlast lines @ ls, e))
         else (case aiter_lines delimiter None cs err of (ls, e) \<Rightarrow> (lines @ ls, e)))"

text \<open>Closing, and what an abandoned stream is cancelled with\<close>

definition ax_aclose :: "async_response \<Rightarrow> async_response" where
  "ax_aclose a = ax_detach a"

datatype owner_loop = NoLoop | ClosedLoop | LoopId nat

datatype cancel_by = NotCancelled | OnThisLoop | FromOutside

definition release_async_body :: "owner_loop \<Rightarrow> nat option \<Rightarrow> async_response \<Rightarrow> cancel_by \<times> async_response" where
  "release_async_body owner running a =
     ((case (ax_body a, owner) of
         (Some f, LoopId l) \<Rightarrow> if running = Some l then OnThisLoop else FromOutside
       | _ \<Rightarrow> NotCancelled), ax_detach a)"

definition ax_close :: "owner_loop \<Rightarrow> nat option \<Rightarrow> async_response \<Rightarrow> cancel_by \<times> async_response" where
  "ax_close owner running a = release_async_body owner running (ax_upd_base rp_close a)"

section \<open>Streaming text\<close>

lemma concat_emit [simp]: "concat (emit t) = replaced t"
  by (simp add: emit_def)

lemma emit_not_empty: "[] \<notin> set (emit t)"
  by (simp add: emit_def replaced_def)

lemma decode_pieces_spec:
  "decode_pieces d s cs None = (ts, e) \<Longrightarrow>
   e = None \<and> [] \<notin> set ts
   \<and> concat ts = (case dc_feed d (concat cs) s of (t, s') \<Rightarrow> replaced (t @ dc_end d s'))"
proof (induction cs arbitrary: s ts e)
  case (Cons c cs)
  obtain t s1 where f: "dc_feed d c s = (t, s1)" by (cases "dc_feed d c s")
  obtain us e' where r: "decode_pieces d s1 cs None = (us, e')" by (cases "decode_pieces d s1 cs None")
  from Cons.IH [OF r] Cons.prems f r emit_not_empty [of t]
  show ?case by (auto simp: dc_feed_append split: prod.splits)
qed (auto simp: emit_not_empty)

text \<open>
  C17: The pieces of \<open>iter_content(k, decode_unicode=True)\<close> make up the body's text: a
  character that falls across two blocks, or across two chunks of the network, is not
  damaged, whichever way the body was cut.
\<close>

theorem streamed_text_is_body_text:
  assumes "rp_reader (tx_base p) = Some (map Inr cs, sr_init limit)" and "rp_content (tx_base p) = None"
    and "rp_get_content (tx_base p) = (Inr body, loaded)" and "0 < k"
    and "stream_encoding p = Inr name" and "find_codec other name = Some d"
  shows "case iter_text other (Some (int k)) p of
      Inr ((ts, err), q) \<Rightarrow> err = None \<and> [] \<notin> set ts \<and> concat ts = decode_replace d body
    | Inl e \<Rightarrow> False"
proof -
  obtain b where it: "iter_content (Some (int k)) (tx_base p) = Inr ((blocks k body, None), b)"
    using iter_content_blocks [OF assms(1-4)] by blast
  obtain ts e where dp: "decode_pieces d (dc_init d) (blocks k body) None = (ts, e)"
    by (cases "decode_pieces d (dc_init d) (blocks k body) None")
  have "concat (blocks k body) = body" using assms(4) by (simp add: concat_blocks)
  then have "e = None \<and> [] \<notin> set ts \<and> concat ts = decode_replace d body"
    using decode_pieces_spec [OF dp] by (auto simp: decode_replace_def dc_run_def split: prod.splits)
  then show ?thesis using assms(5,6) by (simp add: iter_text_def it dp bind_res_Inr Let_def)
qed

text \<open>A response with nothing but a body that is still to be read\<close>

definition sample_stream :: "string list \<Rightarrow> response" where
  "sample_stream cs = rp_new\<lparr>rp_reader := Some (map Inr cs, sr_init None)\<rparr>"

lemma sample_stream_sel [simp]:
  "rp_reader (sample_stream cs) = Some (map Inr cs, sr_init None)" "rp_content (sample_stream cs) = None"
  "rp_headers (sample_stream cs) = h_empty Utf8"
  by (simp_all add: sample_stream_def rp_new_def)

lemma tx_new_sel [simp]:
  "tx_base (tx_new p) = p" "tx_encoding (tx_new p) = None" "tx_default (tx_new p) = Some (NamedDefault ''utf-8'')"
  by (simp_all add: tx_new_def)

lemma no_header [simp]: "h_get (h_empty Utf8) k = None"
  by (simp add: h_get_def h_empty_def cid_get_def)

lemma undeclared_charset [simp]:
  "rp_headers (tx_base p) = h_empty Utf8 \<Longrightarrow> charset_encoding p = Inr None"
  by (simp add: charset_encoding_def get_encoding_from_content_type_def)

lemma sample_encoding [simp]: "stream_encoding (tx_new (sample_stream cs)) = Inr ''utf-8''"
  by (simp add: stream_encoding_def bind_res_Inr named_def)

theorem streamed_text_is_body_text_witness:
  "case iter_text (\<lambda>n. None :: unit decoder option) (Some (int 1))
          (tx_new (sample_stream [[CHR ''a'', CHR 0xC3], [CHR 0xA9]])) of
      Inr ((ts, err), q) \<Rightarrow> err = None \<and> [] \<notin> set ts
        \<and> concat ts = decode_replace (utf8_codec :: unit dstate decoder) [CHR ''a'', CHR 0xC3, CHR 0xA9]
    | Inl e \<Rightarrow> False"
  by (rule streamed_text_is_body_text [where cs = "[[CHR ''a'', CHR 0xC3], [CHR 0xA9]]" and limit = None
        and name = "''utf-8''"])
     (simp_all add: rp_get_content_def next_of_def sr_next_def sr_init_def bind_res_Inr)

section \<open>Text and JSON of a loaded body\<close>

lemma loaded_content: "rp_content p = Some b \<Longrightarrow> rp_get_content p = (Inr b, p)"
  by (simp add: rp_get_content_def)

lemma utf8_text_Nil [simp]: "utf8_text t = [] \<longleftrightarrow> t = []"
  by (auto simp: utf8_text_def utf8_scalar_def)

text \<open>
  A UTF-8 body reads back as the text that was encoded: when the response declares UTF-8,
  and also when it declares nothing and the document itself names no encoding.
\<close>

theorem text_of_utf8_body:
  assumes "rp_content (tx_base p) = Some (utf8_text t)" and "list_all scalar t"
    and "tx_encoding p = None" and "tx_default p = Some (NamedDefault d)"
    and "charset_encoding p = Inr (Some ''utf-8'')
      \<or> charset_encoding p = Inr None \<and> get_encodings_from_content (take 4096 (utf8_text t)) = []"
  shows "fst (rp_text other p) = Inr t"
proof (cases "t = []")
  case False
  have "decodes_with other (utf8_text t) ''utf-8''"
    using utf8_roundtrip(1) [OF assms(2)] by (simp add: decodes_with_def decode_strict_def)
  then have "charset_encoding p = Inr None \<Longrightarrow> apparent_encoding other (tx_base p) = Some ''utf-8''"
    using assms(1,5) False by (auto simp: apparent_encoding_def CANDIDATES_def)
  then have "text_encoding other (utf8_text t) p = Inr ''utf-8''"
    using assms(3-5) by (auto simp: text_encoding_def named_def bind_res_Inr)
  moreover have "decode_named other ''utf-8'' (utf8_text t) = Inr t"
    using utf8_roundtrip(2) [OF assms(2)] by (simp add: decode_named_def decode_replace_def)
  ultimately show ?thesis
    using False by (simp add: rp_text_def loaded_content [OF assms(1)] bind_res_Inr Let_def)
qed (use assms in \<open>simp add: rp_text_def loaded_content utf8_text_def\<close>)

lemma sample_no_encodings: "get_encodings_from_content (take 4096 (utf8_text [233])) = []"
  by code_simp

theorem text_of_utf8_body_witness:
  "fst (rp_text (\<lambda>n. None :: unit decoder option) (tx_new (rp_set_content (utf8_text [233]) rp_new))) = Inr [233]"
  by (rule text_of_utf8_body)
     (simp_all add: rp_set_content_def sample_no_encodings rp_new_def scalar_def)

text \<open>
  An encoding nobody knows does not make \<open>text\<close> fail: whatever a server or a document
  names, a loaded body has a text, as long as the default is a codec that exists and the
  content type gives its charset a value.
\<close>

lemma text_encoding_total:
  assumes "tx_default p = Some (NamedDefault d)" and "charset_encoding p \<noteq> Inl AttributeMissing"
    and "rp_content (tx_base p) \<noteq> None"
  shows "\<exists>e. text_encoding other content p = Inr e"
proof -
  obtain ce where ce: "charset_encoding p = Inr ce"
    using assms(2) by (cases "charset_encoding p") (auto simp: charset_encoding_def split: charset.splits)
  show ?thesis
    by (auto simp: text_encoding_def assms(1) ce bind_res_Inr split: option.splits)
qed



text \<open>The decoded stream has no such fallback: a codec that cannot be found ends it.\<close>

lemma stream_stops_at_unknown_encoding:
  assumes "rp_content (tx_base p) = Some body" "rp_reader (tx_base p) = None" "0 < k"
    and "stream_encoding p = Inr name" "find_codec other name = None"
  shows "iter_text other (Some (int k)) p = Inr (([], Some UnknownCodec), p)"
  using assms by (simp add: iter_text_def iter_content_def loaded_content bind_res_Inr Let_def)

section \<open>Asynchronous blocks\<close>

lemma slice_nat [simp]: "slice_at (int n) s = n"
  by (simp add: slice_at_def)

lemma acut_positive: "0 < n \<Longrightarrow> acut (int n) s = Some (cut n s)"
proof (induction n s rule: cut.induct)
  case (1 n s)
  then show ?case by (subst acut.simps, subst cut.simps) (auto split: prod.splits)
qed

text \<open>With a negative size the loop never stops: what is pending is never shorter than that.\<close>

lemma acut_returns:
  assumes "acut n s = Some y"
  shows "0 \<le> n"
proof (rule acut.raw_induct [where P = "\<lambda>n s y. 0 \<le> n", OF _ assms])
qed (auto split: if_splits simp: bind_eq_Some_conv)

lemma acut_negative: "n < 0 \<Longrightarrow> acut n s = None"
  using acut_returns [of n s] by (cases "acut n s") auto

lemma ablocks_blocks:
  "0 < k \<Longrightarrow> length pending < k \<Longrightarrow>
   ablocks (int k) pending (map Inr cs) = Some (blocks k (pending @ concat cs), None)"
proof (induction cs arbitrary: pending)
  case Nil
  then show ?case by (simp add: blocks_short)
next
  case (Cons c cs)
  obtain bs left where ct: "cut k (pending @ c) = (bs, left)" by (cases "cut k (pending @ c)")
  have "length left < k" and "blocks k (pending @ c @ concat cs) = bs @ blocks k (left @ concat cs)"
    using cut_blocks [OF Cons.prems(1) ct, of "concat cs"] by auto
  with Cons ct show ?case by (simp add: acut_positive)
qed

lemma sr_collect_unlimited:
  "\<not> sr_closed r \<Longrightarrow> sr_limit r = None \<Longrightarrow> fst (sr_collect (map Inr cs) r) = Inr (concat cs)"
  by (induction cs arbitrary: r)
     (auto simp: sr_next_def next_of_def bind_res_Inr split: prod.splits intro: prod_eqI dest: arg_cong [where f = fst])

lemma unlimited_content:
  assumes "rp_reader p = Some (map Inr cs, sr_init None)" and "rp_content p = None"
  shows "\<exists>loaded. rp_get_content p = (Inr (concat cs), loaded)"
proof -
  have "fst (sr_collect (map Inr cs) (sr_init None)) = Inr (concat cs)"
    by (rule sr_collect_unlimited) (simp_all add: sr_init_def)
  then obtain f' r' where "sr_collect (map Inr cs) (sr_init None) = (Inr (concat cs), f', r')"
    by (metis prod.collapse)
  with assms show ?thesis by (simp add: rp_get_content_def)
qed

text \<open>
  C18: The asynchronous response hands out the same blocks as the synchronous one over the same
  chunks of network input: the body, in blocks of the requested size.
\<close>

theorem async_blocks_are_sync_blocks:
  assumes "0 < k" and "ax_body a = Some (map Inr cs)"
    and "rp_reader p = Some (map Inr cs, sr_init None)" and "rp_content p = None"
  shows "map_option (map_sum id fst) (aiter_content (Some (int k)) a)
      = Some (map_sum id fst (iter_content (Some (int k)) p))
    \<and> map_sum id fst (iter_content (Some (int k)) p) = Inr (blocks k (concat cs), None)"
proof -
  obtain loaded where "rp_get_content p = (Inr (concat cs), loaded)" using unlimited_content [OF assms(3,4)] by blast
  from iter_content_blocks [OF assms(3,4) this assms(1)]
  show ?thesis using assms ablocks_blocks [of k "[]" cs] by (simp add: aiter_content_def or_default_def)
qed

definition sample_async :: "string list \<Rightarrow> async_response" where
  "sample_async cs = \<lparr>ax_resp = tx_new rp_new, ax_body = Some (map Inr cs)\<rparr>"

theorem async_blocks_are_sync_blocks_witness:
  "map_option (map_sum id fst) (aiter_content (Some (int 2)) (sample_async [''abc'', ''de'']))
      = Some (map_sum id fst (iter_content (Some (int 2)) (sample_stream [''abc'', ''de''])))
    \<and> map_sum id fst (iter_content (Some (int 2)) (sample_stream [''abc'', ''de'']))
      = Inr (blocks 2 (concat [''abc'', ''de'']), None)"
  by (rule async_blocks_are_sync_blocks) (simp_all add: sample_async_def)

text \<open>
  A negative block size, which \<open>iter_content\<close> refuses, makes \<open>aiter_content\<close> yield
  without end once the first chunk has arrived.
\<close>

theorem async_negative_size_diverges:
  assumes "n < 0" and "ax_body a = Some (Inr c # f)"
  shows "aiter_content (Some n) a = None \<and> iter_content (Some n) p = Inl ValueError"
  using assms by (simp add: aiter_content_def or_default_def acut_negative iter_content_def)

theorem async_negative_size_diverges_witness:
  "aiter_content (Some (- 1)) (sample_async [''a'']) = None \<and> iter_content (Some (- 1)) rp_new = Inl ValueError"
  by (rule async_negative_size_diverges [where c = "''a''" and f = "[]"]) (simp_all add: sample_async_def)

text \<open>
  With \<open>decode_unicode\<close> a character that falls across two blocks is lost: each half
  becomes U+FFFD, where the synchronous stream gives the character.
\<close>

lemma async_text_splits_characters:
  "aiter_text (\<lambda>n. None :: unit decoder option) (Some 1) (sample_async [utf8_text [233]])
     = Some (Inr (([[65533], [65533]], None), ax_detach (sample_async [utf8_text [233]])))"
proof -
  define a where "a = sample_async [utf8_text [233]]"
  have "ablocks (int 1) [] (map Inr [utf8_text [233]]) = Some (blocks 1 (utf8_text [233]), None)"
    by (subst ablocks_blocks) simp_all
  also have "blocks 1 (utf8_text [233]) = [[CHR 0xC3], [CHR 0xA9]]" by code_simp
  finally have bl: "ablocks 1 [] (map Inr [utf8_text [233]]) = Some ([[CHR 0xC3], [CHR 0xA9]], None)" by simp
  have dec: "decode_replace (utf8_codec :: unit dstate decoder) [CHR 0xC3] = [65533]"
    "decode_replace (utf8_codec :: unit dstate decoder) [CHR 0xA9] = [65533]"
    unfolding decode_replace_def codec_runs by (simp_all add: dc_run_def u8_byte_def u8_first_def u8_start_def)
  have "response_charset (ax_resp a) = Inr ''utf-8''"
    by (simp add: response_charset_def a_def sample_async_def named_def bind_res_Inr rp_new_def)
  moreover have "ax_body a = Some (map Inr [utf8_text [233]])" by (simp add: a_def sample_async_def)
  ultimately show ?thesis unfolding a_def [symmetric]
    by (simp add: aiter_text_def or_default_def Let_def bl del: list.map) (simp add: dec)
qed

text \<open>Awaiting the content loads it once; a failed load leaves what the reader then gives.\<close>

lemma af_collect_all: "af_collect (map Inr cs) = (Inr (concat cs), [])"
  by (induction cs) (simp_all add: bind_res_Inr)

lemma acontent_loads:
  assumes "ax_body a = Some (map Inr cs)" and "acontent a = (r, a')"
  shows "r = Inr (concat cs) \<and> ax_body a' = None \<and> acontent a' = (r, a')"
  using assms by (auto simp: acontent_def af_collect_all ax_upd_base_def rp_set_content_def loaded_content)

text \<open>Lines without an error are the lines of the synchronous splitter.\<close>

lemma aiter_lines_sync: "aiter_lines d p cs None = (iter_lines d p cs, None)"
  by (induction d p cs rule: iter_lines.induct) (simp_all add: Let_def split: option.splits)

text \<open>Closing is final: no body is left to read, and a stream is cancelled at most once.\<close>

lemma ax_close_final:
  "ax_close owner running a = (c, a') \<Longrightarrow>
   ax_body a' = None \<and> rp_reader (tx_base (ax_resp a')) = None
   \<and> fst (ax_close owner running a') = NotCancelled
   \<and> (c \<noteq> NotCancelled \<longrightarrow> ax_body a \<noteq> None \<and> owner \<noteq> ClosedLoop)"
  by (auto simp: ax_close_def release_async_body_def ax_detach_def ax_upd_base_def rp_close_def
    split: option.splits owner_loop.splits if_splits)

section \<open>JSON bodies\<close>

lemma utf8_scalar_nulls: "n \<noteq> 0 \<Longrightarrow> scalar n \<Longrightarrow> c \<in> set (utf8_scalar n) \<Longrightarrow> cp c \<noteq> 0"
  by (auto simp: utf8_scalar_def scalar_def split: if_splits)

lemma utf8_text_nulls: "0 \<notin> set t \<Longrightarrow> list_all scalar t \<Longrightarrow> nulls (take m (utf8_text t)) = 0"
proof -
  assume nz: "0 \<notin> set t" and sc: "list_all scalar t"
  have "cp c \<noteq> 0" if "c \<in> set (take m (utf8_text t))" for c
  proof -
    from in_set_takeD [OF that] obtain n where "n \<in> set t" "c \<in> set (utf8_scalar n)"
      by (auto simp: utf8_text_def)
    with nz sc show ?thesis using utf8_scalar_nulls [of n c] by (auto simp: list_all_iff)
  qed
  then show ?thesis by (auto simp: nulls_def filter_empty_conv)
qed

lemma utf8_codec_roundtrip: "list_all scalar t \<Longrightarrow> decode_strict utf8_codec (utf8_text t) = Some t"
  using utf8_roundtrip(1) [of t] by (simp add: decode_strict_def)

lemma guess_ascii_start:
  assumes "cp c < 128" "nulls (take 4 (c # s)) = 0"
  shows "guess_json_utf (c # s) = Some ''utf-8''"
  using assms by (auto simp: guess_json_utf_def is_octets_def nulls_def Let_def)

text \<open>
  JSON sent as UTF-8, which starts with an ASCII character and has no null, is parsed from
  the text that was encoded, whatever its content type says.
\<close>

theorem json_of_utf8_body:
  assumes "rp_content (tx_base p) = Some (utf8_text (n # t))" and "tx_encoding p = None"
    and "n < 128" and "0 \<notin> set (n # t)" and "list_all scalar (n # t)" and "3 < length (utf8_text (n # t))"
  shows "fst (rp_json other loads p) = json_loads loads (n # t)"
proof -
  have "utf8_text (n # t) = char_of n # utf8_text t" using assms(3) by (simp add: utf8_text_def utf8_scalar_def)
  with utf8_text_nulls [OF assms(4,5), of 4] assms(3)
  have "guess_json_utf (utf8_text (n # t)) = Some ''utf-8''" by (simp add: guess_ascii_start)
  moreover have "utf8_text (n # t) \<noteq> []" using assms(6) by auto
  ultimately show ?thesis
    using assms(2,6)
    by (simp add: rp_json_def loaded_content [OF assms(1)] utf8_codec_roundtrip [OF assms(5)] Let_def)
qed

theorem json_of_utf8_body_witness:
  "fst (rp_json (\<lambda>n. None :: unit decoder option) (\<lambda>t. Inr (length t))
     (tx_new (rp_set_content (utf8_text [91, 233, 8364, 93]) rp_new)))
   = json_loads (\<lambda>t. Inr (length t)) [91, 233, 8364, 93]"
  by (rule json_of_utf8_body) (simp_all add: rp_set_content_def scalar_def utf8_text_def utf8_scalar_def)

section \<open>Pickled responses\<close>

text \<open>
  What is pickled is restored: the body, loaded first when it was still to be read, the
  status, the headers, the address, the reason and the encoding.
\<close>

lemma pickle_restores:
  assumes "rp_getstate p = (Inr k, q)"
  shows "fst (rp_get_content (tx_base (rp_setstate k)))
      = Inr (case rp_content (tx_base q) of Some b \<Rightarrow> b | None \<Rightarrow> [])
    \<and> rp_status (tx_base (rp_setstate k)) = rp_status (tx_base q)
    \<and> rp_headers (tx_base (rp_setstate k)) = rp_headers (tx_base q)
    \<and> rp_url (tx_base (rp_setstate k)) = rp_url (tx_base q)
    \<and> rp_reason (tx_base (rp_setstate k)) = rp_reason (tx_base q)
    \<and> tx_encoding (rp_setstate k) = tx_encoding p
    \<and> rp_getstate (rp_setstate k) = (Inr k, rp_setstate k)"
  using assms
  by (auto simp: rp_getstate_def rp_setstate_def rp_get_content_def split: prod.splits sum.splits option.splits if_splits)

text \<open>
  But \<open>default_encoding\<close> is not restored, and \<open>text\<close> looks at it for every body: a
  restored response with a body has no text.
\<close>

theorem restored_response_has_no_text:
  assumes "rp_getstate p = (Inr k, q)" and "rp_content (tx_base q) = Some (c # s)"
  shows "fst (rp_text other (rp_setstate k)) = Inl AttributeMissing"
proof -
  have "pk_content k = Some (c # s)"
    using assms by (auto simp: rp_getstate_def split: prod.splits sum.splits if_splits)
  moreover have "text_encoding other (c # s) (rp_setstate k) = Inl AttributeMissing"
    by (auto simp: text_encoding_def charset_encoding_def rp_setstate_def bind_res_Inr bind_res_Inl
      split: option.splits charset.splits)
  ultimately show ?thesis by (simp add: rp_text_def rp_get_content_def rp_setstate_def bind_res_Inl Let_def)
qed

theorem restored_response_has_no_text_witness:
  "fst (rp_text (\<lambda>n. None :: unit decoder option)
     (rp_setstate \<lparr>pk_content = Some ''ok'', pk_status = Some 200, pk_headers = h_empty Utf8, pk_url = ''u'',
        pk_reason = ''OK'', pk_encoding = None\<rparr>)) = Inl AttributeMissing"
  by (rule restored_response_has_no_text [where c = "CHR ''o''" and s = "''k''"
        and p = "tx_new (rp_new\<lparr>rp_content := Some ''ok'', rp_consumed := True, rp_status := Some 200, rp_url := ''u'',
          rp_reason := ''OK''\<rparr>)"])
     (auto simp: rp_getstate_def rp_new_def)

section \<open>The path of a request\<close>

text \<open>\<open>path_url\<close>\<close>

definition path_url :: "('jar, 'h) prepared \<Rightarrow> exc_class + string" where
  "path_url p =
     bind_res (urlsplit (pr_url p)) (\<lambda>parts.
       let path = (if u_path parts = [] then ''/'' else u_path parts)
       in Inr (if u_query parts \<noteq> [] then path @ ''?'' @ u_query parts else path))"

section \<open>The raw stream's file methods\<close>

definition rs_readinto :: "string \<Rightarrow> raw_stream \<Rightarrow> nat \<times> string \<times> raw_stream" where
  "rs_readinto target r =
     (case rs_read (Some (int (length target))) r of (b, r') \<Rightarrow> (length b, b @ drop (length b) target, r'))"

definition rs_close :: "response \<Rightarrow> raw_stream \<Rightarrow> response \<times> raw_stream" where
  "rs_close p r = (rp_close p, r\<lparr>rs_closed := True\<rparr>)"

definition rs_tell :: "raw_stream \<Rightarrow> exc + nat" where
  "rs_tell r = raise_exc IOError ''the Core body stream is not seekable''"

lemma rs_readinto_fits:
  "rs_readinto target r = (n, target', r') \<Longrightarrow> n \<le> length target \<and> length target' = length target"
proof -
  assume ri: "rs_readinto target r = (n, target', r')"
  obtain b r1 where rd: "rs_read (Some (int (length target))) r = (b, r1)"
    by (cases "rs_read (Some (int (length target))) r")
  then have "length b \<le> length target"
    by (auto simp: rs_read_def split: if_splits prod.splits)
  with ri rd show ?thesis by (auto simp: rs_readinto_def)
qed

end
