(* ===== verification/Stub_Tree.thy ===== *)
theory Stub_Tree
  imports Py_Prelude
begin

text \<open>
  What the stub tools read of a Python file: the part of \<open>ast\<close>'s tree that
  \<open>generate-python-stubs.py\<close>, \<open>audit-python-stubs.py\<close> and
  \<open>expand-verb-signatures.py\<close> look at.  Expressions the tools only print are kept as the
  text \<open>ast.unparse\<close> gives; the parser itself is an argument of the tools' models.
\<close>

section \<open>Expressions and signatures\<close>

datatype expr = EInt int | EStr string | ENone | EDict "expr list" | EOther

datatype target = TName string | TOther

record arg =
  a_name :: string
  a_ann :: "string option"

record arguments =
  ar_posonly :: "arg list"
  ar_args :: "arg list"
  ar_defaults :: "string list"
  ar_vararg :: "arg option"
  ar_kwonly :: "arg list"
  ar_kw_defaults :: "string option list"
  ar_kwarg :: "arg option"

text \<open>A function, with its decorators, its first string, and where it stands\<close>

record func =
  fn_name :: string
  fn_args :: arguments
  fn_decorators :: "string list"
  fn_returns :: "string option"
  fn_doc :: "string option"
  fn_col :: nat
  fn_body_col :: nat
  fn_line :: nat
  fn_end :: nat

datatype stmt =
    Def func
  | ClassDef string "string list" "string option" "stmt list"
  | AnnAssign target
  | Assign "target list" expr
  | ImportFrom "string option" "(string \<times> string option) list"
  | OtherStmt

type_synonym module = "stmt list"

section \<open>Words and lines\<close>

text \<open>\<open>s.split()\<close>\<close>

fun words_acc :: "string \<Rightarrow> string \<Rightarrow> string list" where
  "words_acc acc [] = (if acc = [] then [] else [rev acc])"
| "words_acc acc (c # s) =
     (if py_isspace c
      then (if acc = [] then words_acc [] s else rev acc # words_acc [] s)
      else words_acc (c # acc) s)"

definition py_words :: "string \<Rightarrow> string list" where
  "py_words s = words_acc [] s"

definition word :: "string \<Rightarrow> bool" where
  "word w \<longleftrightarrow> w \<noteq> [] \<and> list_all (\<lambda>c. \<not> py_isspace c) w"

definition blank :: "string \<Rightarrow> bool" where
  "blank s \<longleftrightarrow> list_all py_isspace s"

definition spaces :: "nat \<Rightarrow> string" where
  "spaces n = replicate n (CHR '' '')"

text \<open>\<open>len(line) - len(line.lstrip())\<close>\<close>

definition indent_of :: "string \<Rightarrow> nat" where
  "indent_of s = length (takeWhile py_isspace s)"

definition py_lines :: "string \<Rightarrow> string list" where
  "py_lines s = split_on (CHR 0x0a) s"

definition unlines :: "string list \<Rightarrow> string" where
  "unlines ls = join [CHR 0x0a] ls"

definition one_line :: "string \<Rightarrow> bool" where
  "one_line s \<longleftrightarrow> CHR 0x0a \<notin> set s"

lemma space_isspace [simp]: "py_isspace (CHR '' '')"
  by (simp add: py_isspace_def)

lemma newline_isspace [simp]: "py_isspace (CHR 0x0a)"
  by (simp add: py_isspace_def)

lemma py_strip_blank: "py_strip s = [] \<longleftrightarrow> blank s"
proof -
  have "strip_by P s = [] \<longleftrightarrow> (\<forall>c \<in> set s. P c)" for P :: "char \<Rightarrow> bool"
  proof -
    have "strip_by P s = [] \<longleftrightarrow> (\<forall>c \<in> set (dropWhile P s). P c)" by (simp add: strip_by_def)
    also have "\<dots> \<longleftrightarrow> dropWhile P s = []" by (metis hd_dropWhile list.set_sel(1) empty_iff list.set(1))
    finally show ?thesis by (simp only: dropWhile_eq_Nil_conv)
  qed
  then show ?thesis by (simp add: py_strip_def blank_def list_all_iff)
qed

lemma blank_simps [simp]:
  "blank []" "blank (c # s) \<longleftrightarrow> py_isspace c \<and> blank s" "blank (s @ t) \<longleftrightarrow> blank s \<and> blank t" "blank (spaces n)"
  by (simp_all add: blank_def spaces_def list_all_iff ball_Un)

lemma word_not_blank: "word w \<Longrightarrow> \<not> blank w"
  by (cases w) (auto simp: word_def)

lemma words_acc_append:
  "list_all (\<lambda>c. \<not> py_isspace c) w \<Longrightarrow> words_acc acc (w @ s) = words_acc (rev w @ acc) s"
  by (induction w arbitrary: acc) auto

lemma words_acc_words: "list_all (\<lambda>c. \<not> py_isspace c) acc \<Longrightarrow> list_all word (words_acc acc s)"
proof (induction acc s rule: words_acc.induct)
  case (1 acc)
  then show ?case by (simp add: word_def list_all_iff)
next
  case (2 acc c s)
  have "word (rev acc)" if "acc \<noteq> []" using that "2.prems" by (simp add: word_def list_all_iff)
  with 2 show ?case by (cases "py_isspace c"; cases "acc = []") simp_all
qed

lemma py_words_words: "list_all word (py_words s)"
  using words_acc_words [of "[]" s] by (simp add: py_words_def)

text \<open>Words joined by single spaces are read back.\<close>

lemma py_words_join: "\<forall>w \<in> set ws. word w \<Longrightarrow> py_words (join '' '' ws) = ws"
proof (induction "'' ''" ws rule: join.induct)
  case (3 s t ss)
  then have "list_all (\<lambda>c. \<not> py_isspace c) s" "s \<noteq> []" by (simp_all add: word_def)
  with 3 show ?case by (simp add: py_words_def words_acc_append)
next
  case (2 s)
  then have "list_all (\<lambda>c. \<not> py_isspace c) s" "s \<noteq> []" by (simp_all add: word_def)
  then show ?case using words_acc_append [of s "[]" "[]"] by (simp add: py_words_def)
qed (simp add: py_words_def)

lemma indent_spaces [simp]: "indent_of (spaces n @ s) = n + indent_of s"
  by (induction n) (simp_all add: indent_of_def spaces_def)

lemma indent_char [simp]: "\<not> py_isspace c \<Longrightarrow> indent_of (c # s) = 0"
  by (simp add: indent_of_def)

lemma strip_spaces [simp]: "py_strip (spaces n @ s) = py_strip s"
  by (induction n) (simp_all add: py_strip_def strip_by_def spaces_def)

lemma unlines_lines: "unlines (py_lines s) = s"
  by (simp add: unlines_def py_lines_def join_split_on)

lemma lines_unlines: "ls \<noteq> [] \<Longrightarrow> list_all one_line ls \<Longrightarrow> py_lines (unlines ls) = ls"
  by (simp add: unlines_def py_lines_def split_join list_all_iff one_line_def)

lemma py_lines_one_line: "list_all one_line (py_lines s)"
  by (auto simp: list_all_iff one_line_def py_lines_def dest: split_on_parts)

lemma word_one_line: "word w \<Longrightarrow> one_line w"
  by (auto simp: word_def one_line_def list_all_iff)

lemma one_line_simps [simp]:
  "one_line []" "one_line (s @ t) \<longleftrightarrow> one_line s \<and> one_line t" "one_line (spaces n)"
  "one_line (c # s) \<longleftrightarrow> c \<noteq> CHR 0x0a \<and> one_line s"
  by (auto simp: one_line_def spaces_def)

lemma one_line_join: "one_line sep \<Longrightarrow> list_all one_line ss \<Longrightarrow> one_line (join sep ss)"
  by (induction sep ss rule: join.induct) auto

section \<open>Names\<close>

text \<open>\<open>_public\<close> of one tool and \<open>is_public\<close> of the other agree.\<close>

definition dunder :: "string \<Rightarrow> bool" where
  "dunder name \<longleftrightarrow> startswith name ''__'' \<and> endswith name ''__''"

definition public :: "string \<Rightarrow> bool" where
  "public name \<longleftrightarrow> \<not> startswith name ''_'' \<or> dunder name"

definition is_public :: "string \<Rightarrow> bool" where
  "is_public name \<longleftrightarrow> (if dunder name then True else \<not> startswith name ''_'')"

definition is_private_class :: "string \<Rightarrow> bool" where
  "is_private_class name \<longleftrightarrow> startswith name ''_'' \<and> \<not> startswith name ''__''"

lemma is_public_public: "is_public name = public name"
  by (simp add: is_public_def public_def)

text \<open>The names a statement makes public; \<open>relative\<close> lets \<open>from . import x as x\<close> count.\<close>

definition target_names :: "target list \<Rightarrow> string list" where
  "target_names ts = concat (map (\<lambda>t. case t of TName n \<Rightarrow> (if public n then [n] else []) | TOther \<Rightarrow> []) ts)"

definition reexported :: "(string \<times> string option) list \<Rightarrow> string list" where
  "reexported names = map fst (filter (\<lambda>(n, asname). asname = Some n \<and> public n) names)"

definition stmt_names :: "bool \<Rightarrow> stmt \<Rightarrow> string list" where
  "stmt_names relative s =
     (case s of
        Def f \<Rightarrow> if public (fn_name f) then [fn_name f] else []
      | ClassDef n bs d body \<Rightarrow> if public n then [n] else []
      | AnnAssign t \<Rightarrow> target_names [t]
      | Assign ts v \<Rightarrow> target_names ts
      | ImportFrom m names \<Rightarrow> if relative \<or> m \<noteq> None then reexported names else []
      | OtherStmt \<Rightarrow> [])"

end
