(* ===== verification/Verb_Signatures.thy ===== *)
theory Verb_Signatures
  imports Stub_Tree
begin

text \<open>
  \<open>tools/expand-verb-signatures.py\<close>: the verb methods of the stubs list the same
  parameters as the \<open>request()\<close> they forward to.  The tool reads the parameters and their
  descriptions from \<open>request()\<close>, renders a block per verb and replaces what differs.
\<close>

section \<open>Constants\<close>

definition SECTIONS :: "string list" where
  "SECTIONS = [''Returns:'', ''Raises:'', ''Example:'', ''Note:'', ''Yields:'']"

definition LEADING_API :: "(string \<times> string list) list" where
  "LEADING_API =
    [(''get'', [''url'', ''params'']), (''options'', [''url'']), (''head'', [''url'']),
     (''post'', [''url'', ''data'', ''json'']), (''put'', [''url'', ''data'']), (''patch'', [''url'', ''data'']),
     (''delete'', [''url'']), (''trace'', [''url'']), (''query'', [''url''])]"

definition LEADING_SESS :: "(string \<times> string list) list" where
  "LEADING_SESS = LEADING_API"

definition OVERRIDE :: "string \<Rightarrow> string \<Rightarrow> string option" where
  "OVERRIDE verb p = (if verb = ''head'' \<and> p = ''allow_redirects'' then Some ''False'' else None)"

definition WIDTH :: nat where
  "WIDTH = 88"

text \<open>What the tool stops with\<close>

datatype tool_error = NotFound "string option" string | NoArgs | NoDocstring

section \<open>Reading\<close>

text \<open>A parameter: name, annotation, default\<close>

type_synonym param = "string \<times> string option \<times> string option"

definition spec_of :: "arg \<Rightarrow> string option \<Rightarrow> param" where
  "spec_of a d = (a_name a, a_ann a, d)"

definition param_spec :: "func \<Rightarrow> string list \<Rightarrow> param list" where
  "param_spec node drops =
     (let a = fn_args node;
          positional = ar_posonly a @ ar_args a;
          offset = length positional - length (ar_defaults a);
          defaults = replicate offset None @ map Some (ar_defaults a)
      in filter (\<lambda>p. fst p \<notin> set drops)
           (map2 spec_of positional defaults @ map2 spec_of (ar_kwonly a) (ar_kw_defaults a)))"

definition is_args_line :: "string \<Rightarrow> bool" where
  "is_args_line l \<longleftrightarrow> py_strip l = ''Args:''"

definition plain_name :: "string \<Rightarrow> bool" where
  "plain_name s \<longleftrightarrow> (let t = filter (\<lambda>c. c \<noteq> CHR ''_'') s in t \<noteq> [] \<and> list_all py_isalnum t)"

fun doc_entries :: "nat \<Rightarrow> string list \<Rightarrow> (string, string) odict \<times> string option \<Rightarrow> (string, string) odict" where
  "doc_entries base [] (es, n) = es"
| "doc_entries base (line # ls) (es, n) =
     (let st = py_strip line; ind = indent_of line;
          (before, after) = split_once (CHR '':'') st;
          cand = filter (\<lambda>c. c \<noteq> CHR ''*'') (py_strip before)
      in if st = [] then doc_entries base ls (es, n)
         else if ind \<le> base \<and> endswith st '':'' then es
         else if ind = base + 4 \<and> CHR '':'' \<in> set st \<and> \<not> startswith st [CHR 0x60] \<and> plain_name cand
         then doc_entries base ls (od_put cand (py_strip after) es, Some cand)
         else (case n of
             None \<Rightarrow> doc_entries base ls (es, n)
           | Some k \<Rightarrow> doc_entries base ls (od_put k (py_strip (the (od_get es k) @ '' '' @ st)) es, n)))"

definition doc_args :: "string \<Rightarrow> (string, string) odict" where
  "doc_args raw =
     (case dropWhile (\<lambda>l. \<not> is_args_line l) (py_lines raw) of
        [] \<Rightarrow> []
      | l # rest \<Rightarrow> doc_entries (indent_of l) rest ([], None))"

text \<open>\<open>find\<close> and \<open>find_all\<close>\<close>

definition funcs_named :: "string \<Rightarrow> stmt list \<Rightarrow> func list" where
  "funcs_named name body =
     concat (map (\<lambda>s. case s of Def f \<Rightarrow> (if fn_name f = name then [f] else []) | _ \<Rightarrow> []) body)"

definition class_bodies :: "string \<Rightarrow> module \<Rightarrow> stmt list list" where
  "class_bodies owner tree =
     concat (map (\<lambda>s. case s of ClassDef n bs d body \<Rightarrow> (if n = owner then [body] else []) | _ \<Rightarrow> []) tree)"

definition find_def :: "module \<Rightarrow> string \<Rightarrow> string option \<Rightarrow> tool_error + func" where
  "find_def tree name owner =
     (case (case owner of None \<Rightarrow> funcs_named name tree
                        | Some c \<Rightarrow> concat (map (funcs_named name) (class_bodies c tree))) of
        f # _ \<Rightarrow> Inr f | [] \<Rightarrow> Inl (NotFound owner name))"

definition find_all :: "module \<Rightarrow> string \<Rightarrow> string \<Rightarrow> func list" where
  "find_all tree name owner =
     (case class_bodies owner tree of [] \<Rightarrow> [] | body # _ \<Rightarrow> funcs_named name body)"

section \<open>Rendering\<close>

definition param_text :: "param \<Rightarrow> string" where
  "param_text p = (case p of (n, ann, d) \<Rightarrow>
     n @ (case ann of None \<Rightarrow> [] | Some a \<Rightarrow> '': '' @ a) @ (case d of None \<Rightarrow> [] | Some v \<Rightarrow> '' = '' @ v))"

definition render_signature :: "string \<Rightarrow> string \<Rightarrow> string \<Rightarrow> param list \<Rightarrow> string \<Rightarrow> string list" where
  "render_signature indent prefix name params returns =
     [indent @ prefix @ name @ ''('']
     @ map (\<lambda>p. indent @ spaces 4 @ param_text p @ '','') params
     @ [indent @ '') -> '' @ returns @ '':'']"

fun wrap :: "nat \<Rightarrow> string \<Rightarrow> string list \<Rightarrow> string list" where
  "wrap room row [] = [row]"
| "wrap room row (w # ws) =
     (let cand = (if row = [] then w else row @ '' '' @ w)
      in if length cand \<le> room then wrap room cand ws else row # wrap room w ws)"

definition arg_lines :: "string \<Rightarrow> (string, string) odict \<Rightarrow> string \<Rightarrow> string list" where
  "arg_lines indent docs name =
     (let doc = (case od_get docs name of Some d \<Rightarrow> d | None \<Rightarrow> []);
          lead = indent @ spaces 4 @ name @ '':'';
          rows = wrap (max (WIDTH - length lead - 1) 20) [] (py_words doc)
      in if doc = [] then [lead]
         else (lead @ '' '' @ hd rows) # map (\<lambda>r. indent @ spaces 8 @ r) (tl rows))"

definition render_args :: "param list \<Rightarrow> (string, string) odict \<Rightarrow> string \<Rightarrow> string list" where
  "render_args params docs indent =
     (indent @ ''Args:'') # concat (map (\<lambda>p. arg_lines indent docs (fst p)) params)"

text \<open>The docstring with its argument block replaced, up to the next section\<close>

definition strip_end :: "string list \<Rightarrow> string list" where
  "strip_end ls = rev (dropWhile blank (rev ls))"

definition is_section :: "nat \<Rightarrow> string \<Rightarrow> bool" where
  "is_section base l \<longleftrightarrow> \<not> blank l \<and> indent_of l \<le> base \<and> list_ex (startswith (py_strip l)) SECTIONS"

definition rebuild_docstring :: "string \<Rightarrow> string list \<Rightarrow> string list" where
  "rebuild_docstring raw new_args =
     (let lines = py_lines raw in
      case dropWhile (\<lambda>l. \<not> is_args_line l) lines of
        [] \<Rightarrow> lines @ [[]] @ new_args
      | l # rest \<Rightarrow>
          strip_end (takeWhile (\<lambda>l. \<not> is_args_line l) lines) @ [[]] @ new_args @ [[]]
          @ dropWhile (\<lambda>x. \<not> is_section (indent_of l) x) rest)"

text \<open>The lines between the quotes, for a docstring that has an argument block\<close>

definition rebuilt_lines :: "string \<Rightarrow> param list \<Rightarrow> (string, string) odict \<Rightarrow> tool_error + string list" where
  "rebuilt_lines raw sig_params docs =
     (case dropWhile (\<lambda>l. \<not> is_args_line l) (py_lines raw) of
        [] \<Rightarrow> Inl NoArgs
      | l # _ \<Rightarrow>
          let documented = filter (\<lambda>p. fst p \<noteq> ''self'') sig_params
          in Inr (strip_end (rebuild_docstring raw (render_args documented docs (spaces (indent_of l))))))"

definition quoted_lines :: "nat \<Rightarrow> string list \<Rightarrow> string list" where
  "quoted_lines col ls =
     [spaces col @ [CHR 0x22, CHR 0x22, CHR 0x22] @ hd ls] @ tl ls @ [spaces col @ [CHR 0x22, CHR 0x22, CHR 0x22]]"

definition expected_block ::
  "func \<Rightarrow> string \<Rightarrow> string \<Rightarrow> param list \<Rightarrow> (string, string) odict \<Rightarrow> string
   \<Rightarrow> tool_error + string list option" where
  "expected_block node prefix verb sig_params docs returns =
     (case fn_doc node of
        None \<Rightarrow> Inr None
      | Some raw \<Rightarrow>
          bind_res (rebuilt_lines raw sig_params docs) (\<lambda>rebuilt.
            Inr (Some (render_signature (spaces (fn_col node)) prefix verb sig_params returns
                       @ quoted_lines (fn_body_col node) rebuilt @ [spaces (fn_body_col node) @ ''...'']))))"

definition override :: "string \<Rightarrow> param \<Rightarrow> param" where
  "override verb p = (case p of (n, a, d) \<Rightarrow> (n, a, case OVERRIDE verb n of Some v \<Rightarrow> Some v | None \<Rightarrow> d))"

definition build_params :: "string \<Rightarrow> param list \<Rightarrow> string list \<Rightarrow> param list" where
  "build_params verb spec leading =
     (let lookup = od_of (map (\<lambda>p. (fst p, p)) spec);
          chosen = concat (map (\<lambda>n. case od_get lookup n of Some p \<Rightarrow> [p] | None \<Rightarrow> []) leading)
                   @ filter (\<lambda>p. fst p \<notin> set leading \<union> {''method'', ''self''}) spec
      in map (override verb) chosen)"

section \<open>Rewriting a file\<close>

record job =
  jb_owner :: "string option"
  jb_verb :: string
  jb_prefix :: string
  jb_returns :: string
  jb_spec :: "param list"
  jb_docs :: "(string, string) odict"
  jb_leading :: "string list"
  jb_lead_sig :: "param list option"

type_synonym edit = "nat \<times> nat \<times> string list"

definition job_nodes :: "module \<Rightarrow> job \<Rightarrow> tool_error + func list" where
  "job_nodes tree j =
     (case jb_owner j of
        Some c \<Rightarrow> Inr (find_all tree (jb_verb j) c)
      | None \<Rightarrow> bind_res (find_def tree (jb_verb j) None) (\<lambda>f. Inr [f]))"

definition job_params :: "job \<Rightarrow> param list" where
  "job_params j =
     (let params = build_params (jb_verb j) (jb_spec j) (jb_leading j)
      in case jb_lead_sig j of
           Some (p # ps) \<Rightarrow> (p # ps) @ params
         | _ \<Rightarrow> (if jb_owner j \<noteq> None then (''self'', None, None) # params else params))"

definition label_of :: "string \<Rightarrow> job \<Rightarrow> string" where
  "label_of file j =
     (case jb_owner j of Some c \<Rightarrow> c @ ''.'' @ jb_verb j | None \<Rightarrow> jb_verb j) @ '' ('' @ file @ '')''"

text \<open>What one method needs: nothing, or a label and an edit of its lines\<close>

definition plan_node :: "string list \<Rightarrow> string \<Rightarrow> job \<Rightarrow> func \<Rightarrow> tool_error + (string \<times> edit) list" where
  "plan_node lines file j node =
     bind_res (expected_block node (jb_prefix j) (jb_verb j) (job_params j) (jb_docs j) (jb_returns j)) (\<lambda>b.
       Inr (case b of
           None \<Rightarrow> []
         | Some block \<Rightarrow>
             let current = drop (fn_line node - 1) (take (fn_end node) lines)
             in if current \<noteq> block then [(label_of file j, fn_line node - 1, fn_end node, block)] else []))"

definition plan_job :: "string list \<Rightarrow> string \<Rightarrow> module \<Rightarrow> job \<Rightarrow> tool_error + (string \<times> edit) list" where
  "plan_job lines file tree j =
     bind_res (job_nodes tree j) (\<lambda>nodes. map_sum id concat (map_res (plan_node lines file j) nodes))"

text \<open>\<open>lines[start:end] = block\<close>, from the last edit to the first\<close>

definition apply_edit :: "edit \<Rightarrow> string list \<Rightarrow> string list" where
  "apply_edit e lines = (case e of (s, t, block) \<Rightarrow> take s lines @ block @ drop (max s t) lines)"

definition apply_edits :: "edit list \<Rightarrow> string list \<Rightarrow> string list" where
  "apply_edits planned lines = fold apply_edit (rev (sort_key fst planned)) lines"

definition process ::
  "(string \<Rightarrow> module) \<Rightarrow> bool \<Rightarrow> string \<Rightarrow> string \<Rightarrow> job list \<Rightarrow> tool_error + string list \<times> string" where
  "process parse check file contents jobs =
     (let lines = py_lines contents; tree = parse contents in
      bind_res (map_res (plan_job lines file tree) jobs) (\<lambda>plans.
        let found = concat plans in
        Inr (map fst found,
             if check \<or> found = [] then contents else unlines (apply_edits (map snd found) lines))))"

section \<open>The jobs\<close>

definition SEND_KEYS :: "string list" where
  "SEND_KEYS = [''timeout'', ''proxies'', ''stream'', ''verify'', ''cert'', ''impersonate'', ''proxy'', ''http_version'',
     ''max_redirects'', ''max_response_bytes'', ''default_encoding'', ''discard_cookies'', ''retry'', ''cache_mode'',
     ''priority'', ''content_callback'', ''raise_for_status'']"

definition need_doc :: "func \<Rightarrow> tool_error + (string, string) odict" where
  "need_doc f = (case fn_doc f of None \<Rightarrow> Inl NoDocstring | Some raw \<Rightarrow> Inr (doc_args raw))"

definition api_jobs ::
  "param list \<Rightarrow> (string, string) odict \<Rightarrow> param list \<Rightarrow> (string, string) odict \<Rightarrow> job list" where
  "api_jobs api_spec api_docs init_spec init_docs =
     map (\<lambda>(verb, leading). \<lparr>jb_owner = None, jb_verb = verb, jb_prefix = ''def '', jb_returns = ''Response'',
            jb_spec = api_spec, jb_docs = api_docs, jb_leading = leading, jb_lead_sig = None\<rparr>) LEADING_API
     @ map (\<lambda>(verb, returns). \<lparr>jb_owner = None, jb_verb = verb, jb_prefix = ''def '', jb_returns = returns,
            jb_spec = init_spec, jb_docs = init_docs, jb_leading = map fst init_spec, jb_lead_sig = None\<rparr>)
         [(''async_session'', ''AsyncSession''), (''session'', ''Session'')]"

definition send_spec :: "param list \<Rightarrow> param list" where
  "send_spec sess_spec =
     filter (\<lambda>p. fst p \<in> set SEND_KEYS) sess_spec
     @ [(''native_redirects'', Some ''Optional[bool]'', Some ''None''),
        (''python_redirects'', Some ''Optional[bool]'', Some ''None'')]"

definition send_docs :: "(string, string) odict \<Rightarrow> (string, string) odict" where
  "send_docs sess_docs =
     od_update sess_docs
       [(''request'', ''The :class:`~chrome_client.PreparedRequest` to send. A request ''
           @ ''whose URL matches a non-default adapter is delegated to that adapter.''),
        (''native_redirects'', ''``True`` lets Chromium follow redirects internally '' @ ''(the default).''),
        (''python_redirects'', ''``True`` follows redirects from Python instead, honouring '' @ ''``max_redirects``.'')]"

definition sess_jobs ::
  "param list \<Rightarrow> (string, string) odict \<Rightarrow> param list \<Rightarrow> job list" where
  "sess_jobs sess_spec sess_docs stream_spec =
     (let verbs = (\<lambda>(owner, prefix, returns).
            map (\<lambda>(verb, leading). \<lparr>jb_owner = Some owner, jb_verb = verb, jb_prefix = prefix, jb_returns = returns,
              jb_spec = sess_spec, jb_docs = sess_docs, jb_leading = leading, jb_lead_sig = None\<rparr>) LEADING_SESS);
          stream = (\<lambda>(owner, returns). \<lparr>jb_owner = Some owner, jb_verb = ''__call__'', jb_prefix = ''def '',
              jb_returns = returns, jb_spec = stream_spec, jb_docs = sess_docs, jb_leading = map fst stream_spec,
              jb_lead_sig = Some [(''self'', None, None), (''method'', Some ''str'', None), (''url'', Some ''str'', None)]\<rparr>);
          send = (\<lambda>(owner, prefix, returns). \<lparr>jb_owner = Some owner, jb_verb = ''send'', jb_prefix = prefix,
              jb_returns = returns, jb_spec = send_spec sess_spec, jb_docs = send_docs sess_docs, jb_leading = [],
              jb_lead_sig = Some [(''self'', None, None), (''request'', Some ''PreparedRequest'', None)]\<rparr>)
      in verbs (''Session'', ''def '', ''Response'') @ verbs (''AsyncSession'', ''async def '', ''AsyncResponse'')
         @ [stream (''_StreamFlag'', [CHR 0x22] @ ''_StreamContext'' @ [CHR 0x22]),
            stream (''_AsyncStreamFlag'', [CHR 0x22] @ ''_AsyncStreamContext'' @ [CHR 0x22]),
            send (''Session'', ''def '', ''Response''), send (''AsyncSession'', ''async def '', ''AsyncResponse'')])"

text \<open>
  \<open>main\<close> on the two stub files: the stale entries, the new contents of both and the exit
  code.
\<close>

definition expand_main ::
  "(string \<Rightarrow> module) \<Rightarrow> bool \<Rightarrow> string \<Rightarrow> string \<Rightarrow> tool_error + string list \<times> string \<times> string \<times> nat" where
  "expand_main parse check api_text sess_text =
     (let api_tree = parse api_text; sess_tree = parse sess_text in
      bind_res (find_def api_tree ''request'' None) (\<lambda>api_req.
      bind_res (find_def sess_tree ''request'' (Some ''Session'')) (\<lambda>sess_req.
      bind_res (find_def sess_tree ''__init__'' (Some ''BaseSession'')) (\<lambda>base_init.
      bind_res (need_doc api_req) (\<lambda>api_docs.
      bind_res (need_doc sess_req) (\<lambda>sess_docs.
      bind_res (need_doc base_init) (\<lambda>init_docs.
      bind_res (process parse check ''api.pyi'' api_text
        (api_jobs (param_spec api_req []) api_docs (param_spec base_init [''self'']) init_docs)) (\<lambda>(stale1, api').
      bind_res (process parse check ''sessions.pyi'' sess_text
        (sess_jobs (param_spec sess_req []) sess_docs
          (param_spec sess_req [''self'', ''method'', ''url'', ''stream'']))) (\<lambda>(stale2, sess').
      Inr (stale1 @ stale2, api', sess', if check \<and> stale1 @ stale2 \<noteq> [] then 1 else 0))))))))))"

section \<open>Rewriting a docstring again\<close>

lemma strip_end_snoc: "strip_end (xs @ [x]) = (if blank x then strip_end xs else xs @ [x])"
  by (simp add: strip_end_def)

lemma strip_end_append: "\<not> list_all blank ys \<Longrightarrow> strip_end (xs @ ys) = xs @ strip_end ys"
  by (induction ys rule: rev_induct) (auto simp: strip_end_snoc simp flip: append_assoc)

lemma strip_end_blank: "list_all blank ys \<Longrightarrow> strip_end (xs @ ys) = strip_end xs"
  by (induction ys rule: rev_induct) (auto simp: strip_end_snoc simp flip: append_assoc)

lemma strip_end_idem [simp]: "strip_end (strip_end xs) = strip_end xs"
  by (induction xs rule: rev_induct) (auto simp: strip_end_snoc strip_end_def)

lemma strip_end_prefix: "\<exists>zs. xs = strip_end xs @ zs"
proof (induction xs rule: rev_induct)
  case (snoc x xs)
  then show ?case by (auto simp: strip_end_snoc) (metis append_assoc)
qed (simp add: strip_end_def)

lemma strip_end_all: "list_all P xs \<Longrightarrow> list_all P (strip_end xs)"
  using strip_end_prefix [of xs] by (metis list_all_append)

lemma strip_end_Cons: "\<not> blank x \<Longrightarrow> strip_end (x # xs) = x # strip_end xs"
  by (cases "list_all blank xs")
     (use strip_end_append [of xs "[x]"] strip_end_blank [of xs "[x]"] strip_end_blank [of xs "[]"]
       in \<open>auto simp: strip_end_def\<close>)

lemma args_line [simp]: "is_args_line (spaces n @ ''Args:'')" "indent_of (spaces n @ ''Args:'') = n"
proof -
  have "py_strip (spaces n @ ''Args:'') = ''Args:''"
    by simp (simp add: py_strip_def strip_by_def py_isspace_def)
  then show "is_args_line (spaces n @ ''Args:'')" by (simp add: is_args_line_def)
  show "indent_of (spaces n @ ''Args:'') = n" by (simp add: py_isspace_def)
qed

lemma indent_args [simp]: "indent_of ''Args:'' = 0"
  by (simp add: py_isspace_def)

lemma blank_no_args [simp]: "blank l \<Longrightarrow> \<not> is_args_line l"
  using py_strip_blank [of l] by (auto simp: is_args_line_def)

lemma args_not_blank: "\<not> blank (spaces n @ ''Args:'')"
  by (simp add: py_isspace_def)

text \<open>A rendered argument line stands to the right of the sections.\<close>

definition deep :: "nat \<Rightarrow> string \<Rightarrow> bool" where
  "deep n l \<longleftrightarrow> blank l \<or> n < indent_of l"

lemma deep_no_section: "deep n l \<Longrightarrow> \<not> is_section n l"
  by (auto simp: deep_def is_section_def)

lemma arg_lines_deep: "list_all (deep n) (arg_lines (spaces n) docs name)"
  by (simp add: arg_lines_def deep_def list_all_iff Let_def)

lemma wrap_one_line: "one_line row \<Longrightarrow> list_all one_line ws \<Longrightarrow> list_all one_line (wrap room row ws)"
  by (induction room row ws rule: wrap.induct) (auto simp: Let_def)

lemma wrap_not_Nil [simp]: "wrap room row ws \<noteq> []"
  by (induction room row ws rule: wrap.induct) (simp_all add: Let_def)

lemma arg_lines_one_line: "one_line name \<Longrightarrow> list_all one_line (arg_lines (spaces n) docs name)"
proof -
  assume nm: "one_line name"
  have "list_all one_line (py_words d)" for d
    using py_words_words [of d] word_one_line by (auto simp: list_all_iff)
  then have w: "list_all one_line (wrap room [] (py_words d))" for room d by (simp add: wrap_one_line)
  have h: "one_line (hd (wrap room [] (py_words d)))" "list_all one_line (tl (wrap room [] (py_words d)))" for room d
    using w [of room d] by (cases "wrap room [] (py_words d)"; simp)+
  with nm show ?thesis by (auto simp: arg_lines_def Let_def list_all_iff)
qed

lemma block_deep: "list_all (deep n) (concat (map (\<lambda>p. arg_lines (spaces n) docs (fst p)) ps))"
  by (induction ps) (simp_all add: arg_lines_deep)

lemma block_one_line:
  "list_all (\<lambda>p. one_line (fst p)) ps \<Longrightarrow>
   list_all one_line (concat (map (\<lambda>p. arg_lines (spaces n) docs (fst p)) ps))"
  by (induction ps) (simp_all add: arg_lines_one_line)

text \<open>The rebuilt lines, in parts: what stands before, the block, the sections after it\<close>

lemma rebuilt_parts:
  assumes "py_lines raw = before @ l # rest" and "list_all (\<lambda>x. \<not> is_args_line x) before" and "is_args_line l"
    and "indent_of l = n"
  shows "rebuilt_lines raw sig docs = Inr (strip_end before @ [] # (spaces n @ ''Args:'')
    # strip_end (concat (map (\<lambda>p. arg_lines (spaces n) docs (fst p)) (filter (\<lambda>p. fst p \<noteq> ''self'') sig))
        @ [] # dropWhile (\<lambda>x. \<not> is_section n x) rest))"
proof -
  have "takeWhile (\<lambda>x. \<not> is_args_line x) (py_lines raw) = before"
    "dropWhile (\<lambda>x. \<not> is_args_line x) (py_lines raw) = l # rest"
    using assms(1-3) by (simp_all add: list_all_iff takeWhile_append dropWhile_append)
  moreover have "strip_end (strip_end before @ [] # (spaces n @ ''Args:'') # ys)
      = strip_end before @ [] # (spaces n @ ''Args:'') # strip_end ys" for ys
  proof -
    have "strip_end ((strip_end before @ [[]]) @ (spaces n @ ''Args:'') # ys)
        = (strip_end before @ [[]]) @ strip_end ((spaces n @ ''Args:'') # ys)"
      by (rule strip_end_append) (simp add: py_isspace_def)
    then show ?thesis by (simp only: strip_end_Cons [OF args_not_blank] append_Cons append_Nil append_assoc)
  qed
  ultimately show ?thesis
    using assms(4) by (simp add: rebuilt_lines_def rebuild_docstring_def render_args_def)
qed

lemma sections_again:
  assumes noM: "list_all (\<lambda>x. \<not> is_section n x) (M @ [[]])"
    and tail_def: "tail = dropWhile (\<lambda>x. \<not> is_section n x) rest"
  shows "strip_end (M @ [] # dropWhile (\<lambda>x. \<not> is_section n x) (strip_end (M @ [] # tail) @ [spaces col]))
    = strip_end (M @ [] # tail)"
proof (cases tail)
  case Nil
  have "list_all (\<lambda>x. \<not> is_section n x) (strip_end (M @ [[]]) @ [spaces col])"
    using strip_end_all [OF noM] by (simp add: is_section_def)
  then show ?thesis using Nil by (simp add: dropWhile_eq_Nil_conv list_all_iff)
next
  case (Cons t ts)
  have sec: "is_section n t" using Cons by (auto simp: tail_def dropWhile_eq_Cons_conv)
  then have tb: "\<not> blank t" by (simp add: is_section_def)
  have "strip_end (M @ [] # tail) = M @ [] # t # strip_end ts"
    using tb Cons strip_end_append [of "t # ts" "M @ [[]]"] by (simp add: strip_end_Cons)
  moreover have "dropWhile (\<lambda>x. \<not> is_section n x) (M @ [] # t # strip_end ts @ [spaces col]) = t # strip_end ts @ [spaces col]"
    using noM sec dropWhile_append2 [of "M @ [[]]" "\<lambda>x. \<not> is_section n x" "t # strip_end ts @ [spaces col]"]
    by (simp add: list_all_iff)
  moreover have "strip_end (M @ [] # t # strip_end ts @ [spaces col]) = M @ [] # t # strip_end ts"
    using tb strip_end_append [of "t # strip_end ts @ [spaces col]" "M @ [[]]"]
    by (simp add: strip_end_Cons strip_end_snoc)
  ultimately show ?thesis by simp
qed

text \<open>
  The rewrite is idempotent: the docstring a block is written with, whose last line is the
  indentation of the closing quotes, is rebuilt to the same lines.  So a second run, and
  \<open>--check\<close>, find nothing to do.
\<close>

theorem docstring_rewrite_idempotent:
  assumes "rebuilt_lines raw sig_params docs = Inr ls"
    and "list_all (\<lambda>p. one_line (fst p)) sig_params"
  shows "rebuilt_lines (unlines (ls @ [spaces col])) sig_params docs = Inr ls"
proof -
  let ?na = "\<lambda>x. \<not> is_args_line x"
  obtain l rest where dw: "dropWhile ?na (py_lines raw) = l # rest"
    using assms(1) by (auto simp: rebuilt_lines_def split: list.splits)
  define before n where "before = takeWhile ?na (py_lines raw)" and "n = indent_of l"
  define M where "M = concat (map (\<lambda>p. arg_lines (spaces n) docs (fst p)) (filter (\<lambda>p. fst p \<noteq> ''self'') sig_params))"
  define tail where "tail = dropWhile (\<lambda>x. \<not> is_section n x) rest"
  have split: "py_lines raw = before @ l # rest"
    using takeWhile_dropWhile_id [of ?na "py_lines raw"] by (simp add: before_def dw)
  have nb: "list_all ?na before" by (auto simp: before_def list_all_iff dest: set_takeWhileD)
  have al: "is_args_line l" using hd_dropWhile [of ?na "py_lines raw"] by (simp add: dw)
  have ls: "ls = strip_end before @ [] # (spaces n @ ''Args:'') # strip_end (M @ [] # tail)"
    using assms(1) rebuilt_parts [OF split nb al n_def [symmetric]] by (simp add: M_def tail_def)
  have "list_all (deep n) M" by (simp add: M_def block_deep)
  then have noM: "list_all (\<lambda>x. \<not> is_section n x) (M @ [[]])"
    using deep_no_section by (auto simp: list_all_iff is_section_def)
  have lines: "py_lines (unlines (ls @ [spaces col])) = (strip_end before @ [[]]) @ (spaces n @ ''Args:'')
      # (strip_end (M @ [] # tail) @ [spaces col])"
  proof -
    have "list_all one_line before" "list_all one_line rest"
      using py_lines_one_line [of raw] by (simp_all add: split)
    moreover have "list_all one_line M"
      unfolding M_def using assms(2) by (intro block_one_line) (simp add: list_all_iff)
    moreover have "list_all one_line tail"
      using calculation(2) by (auto simp: tail_def list_all_iff dest: set_dropWhileD)
    ultimately have "list_all one_line (ls @ [spaces col])" by (simp add: ls strip_end_all)
    then show ?thesis by (simp add: lines_unlines ls)
  qed
  have rest': "strip_end (M @ [] # dropWhile (\<lambda>x. \<not> is_section n x) (strip_end (M @ [] # tail) @ [spaces col]))
      = strip_end (M @ [] # tail)"
    by (rule sections_again [OF noM tail_def])
  have nb': "list_all ?na (strip_end before @ [[]])" using nb by (simp add: strip_end_all)
  have "strip_end (strip_end before @ [[]]) = strip_end before" by (simp add: strip_end_snoc)
  with rebuilt_parts [OF lines nb' args_line(1) args_line(2), of sig_params docs] rest'
  show ?thesis by (simp add: ls M_def)
qed

theorem docstring_rewrite_idempotent_witness:
  "rebuilt_lines (unlines ([''Sends.'', [], ''Args:'', ''    url: The address.''] @ [spaces 4]))
      [(''self'', None, None), (''url'', Some ''str'', None)] [(''url'', ''The address.'')]
    = Inr [''Sends.'', [], ''Args:'', ''    url: The address.'']"
  by (rule docstring_rewrite_idempotent [where raw = "unlines [''Sends.'', ''Args:'', ''    old: gone'']"]) code_simp+

section \<open>What the argument block says\<close>

lemma join_snoc: "ws \<noteq> [] \<Longrightarrow> join sep (ws @ [w]) = join sep ws @ sep @ w"
  by (induction sep ws rule: join.induct) auto

text \<open>A row is words with single spaces between them.\<close>

definition tidy :: "string \<Rightarrow> bool" where
  "tidy s \<longleftrightarrow> join '' '' (py_words s) = s"

lemma tidy_join: "list_all word ws \<Longrightarrow> tidy (join '' '' ws) \<and> py_words (join '' '' ws) = ws"
  using py_words_join [of ws] by (simp add: tidy_def list_all_iff)

lemma join_words_Nil: "list_all word vs \<Longrightarrow> join '' '' vs = [] \<longleftrightarrow> vs = []"
  by (induction "'' ''" vs rule: join.induct) (auto simp: word_def)

lemma wrap_words:
  "list_all word ws \<Longrightarrow> list_all word vs \<Longrightarrow>
   list_all tidy (wrap room (join '' '' vs) ws)
   \<and> concat (map py_words (wrap room (join '' '' vs) ws)) = vs @ ws
   \<and> list_all (\<lambda>r. r \<noteq> []) (if vs = [] then tl (wrap room (join '' '' vs) ws) else wrap room (join '' '' vs) ws)"
proof (induction ws arbitrary: vs)
  case Nil
  then show ?case using tidy_join [of vs] join_words_Nil [of vs] by simp
next
  case (Cons w ws)
  have w: "word w" "list_all word ws" using Cons.prems(1) by simp_all
  have row: "(if join '' '' vs = [] then w else join '' '' vs @ '' '' @ w) = join '' '' (vs @ [w])"
    using join_words_Nil [OF Cons.prems(2)] by (auto simp: join_snoc)
  show ?case
  proof (cases "length (join '' '' (vs @ [w])) \<le> room")
    case True
    then have "wrap room (join '' '' vs) (w # ws) = wrap room (join '' '' (vs @ [w])) ws"
      unfolding wrap.simps row by (simp add: Let_def)
    with Cons.IH [of "vs @ [w]"] w Cons.prems(2) show ?thesis
      by (cases "wrap room (join '' '' (vs @ [w])) ws") auto
  next
    case False
    then have "wrap room (join '' '' vs) (w # ws) = join '' '' vs # wrap room (join '' '' [w]) ws"
      unfolding wrap.simps row by (simp add: Let_def)
    with Cons.IH [of "[w]"] w tidy_join [OF Cons.prems(2)] join_words_Nil [OF Cons.prems(2)] show ?thesis by auto
  qed
qed

lemma strip_id: "s = [] \<or> \<not> py_isspace (hd s) \<and> \<not> py_isspace (last s) \<Longrightarrow> py_strip s = s"
proof -
  assume s: "s = [] \<or> \<not> py_isspace (hd s) \<and> \<not> py_isspace (last s)"
  have d: "t = [] \<or> \<not> P (hd t) \<Longrightarrow> dropWhile P t = t" for P and t :: string by (cases t) auto
  have "dropWhile py_isspace s = s" "dropWhile py_isspace (rev s) = rev s"
    using s d [of s] d [of "rev s"] by (auto simp: hd_rev)
  then show ?thesis by (simp add: py_strip_def strip_by_def)
qed

lemma join_ends:
  "list_all word ws \<Longrightarrow> ws \<noteq> [] \<Longrightarrow>
   join '' '' ws \<noteq> [] \<and> \<not> py_isspace (hd (join '' '' ws)) \<and> \<not> py_isspace (last (join '' '' ws))"
proof (induction "'' ''" ws rule: join.induct)
  case (2 s)
  then show ?case by (auto simp: word_def list_all_iff)
next
  case (3 s t ss)
  then have "s \<noteq> []" "\<not> py_isspace (hd s)" by (auto simp: word_def list_all_iff)
  with 3 show ?case by simp
qed simp

lemma tidy_ends: "tidy r \<Longrightarrow> r \<noteq> [] \<Longrightarrow> \<not> py_isspace (hd r) \<and> \<not> py_isspace (last r)"
  using join_ends [OF py_words_words, of r] by (cases "py_words r = []") (simp_all add: tidy_def)

lemma tidy_strip: "tidy r \<Longrightarrow> py_strip r = r"
  using tidy_ends [of r] by (intro strip_id) auto

lemma tidy_blank: "tidy r \<Longrightarrow> blank r \<longleftrightarrow> r = []"
  using py_strip_blank [of r] by (simp add: tidy_strip)

lemma tidy_indent: "tidy r \<Longrightarrow> indent_of r = 0"
  using tidy_ends [of r] by (cases r) (auto simp: indent_of_def)

lemma join_append: "ws \<noteq> [] \<Longrightarrow> vs \<noteq> [] \<Longrightarrow> join sep (ws @ vs) = join sep ws @ sep @ join sep vs"
proof (induction sep ws rule: join.induct)
  case (2 sep s)
  then show ?case by (cases vs) auto
qed auto

lemma strip_more:
  assumes "tidy acc" "tidy r" "r \<noteq> []"
  shows "py_strip (acc @ '' '' @ r) = join '' '' (py_words acc @ py_words r)"
proof (cases "acc = []")
  case True
  have "py_strip ('' '' @ r) = py_strip r" using strip_spaces [of 1 r] by (simp add: spaces_def)
  with True assms show ?thesis by (simp add: tidy_strip) (simp add: py_words_def tidy_def)
next
  case False
  have "py_words acc \<noteq> []" "py_words r \<noteq> []" using assms False by (auto simp: tidy_def)
  then have "join '' '' (py_words acc @ py_words r) = acc @ '' '' @ r"
    using assms by (simp add: join_append tidy_def)
  moreover have "py_strip (acc @ '' '' @ r) = acc @ '' '' @ r"
    using tidy_ends assms False by (intro strip_id) auto
  ultimately show ?thesis by simp
qed

lemma od_put_same: "od_get m k = Some v \<Longrightarrow> od_put k v m = m"
  by (induction m) (auto simp: od_get_def od_put_def split: if_splits)

lemma od_put_twice: "od_put k w (od_put k v m) = od_put k w m"
  by (induction m) (auto simp: od_put_def)

lemma od_put_fresh: "k \<notin> fst ` set m \<Longrightarrow> od_put k v m = m @ [(k, v)]"
  by (induction m) (auto simp: od_put_def)

lemma entries_rows:
  assumes "list_all tidy rows" "list_all (\<lambda>r. r \<noteq> []) rows" "tidy acc" "od_get es k = Some acc"
  shows "doc_entries n (map (\<lambda>r. spaces n @ spaces 8 @ r) rows @ rest) (es, Some k)
    = doc_entries n rest (od_put k (join '' '' (py_words acc @ concat (map py_words rows))) es, Some k)"
  using assms
proof (induction rows arbitrary: acc es)
  case Nil
  then show ?case by (simp add: tidy_def od_put_same)
next
  case (Cons r rows)
  then have r: "tidy r" "r \<noteq> []" by simp_all
  define acc' where "acc' = join '' '' (py_words acc @ py_words r)"
  have acc': "tidy acc'" "py_words acc' = py_words acc @ py_words r"
    using tidy_join [of "py_words acc @ py_words r"] py_words_words by (simp_all add: acc'_def)
  have "doc_entries n ((spaces n @ spaces 8 @ r) # map (\<lambda>r. spaces n @ spaces 8 @ r) rows @ rest) (es, Some k)
      = doc_entries n (map (\<lambda>r. spaces n @ spaces 8 @ r) rows @ rest) (od_put k acc' es, Some k)"
    using r Cons.prems(4) strip_more [OF Cons.prems(3) r]
    by (simp add: tidy_strip tidy_indent acc'_def split_def)
  also have "\<dots> = doc_entries n rest (od_put k (join '' '' (py_words acc' @ concat (map py_words rows))) (od_put k acc' es), Some k)"
    using Cons.prems acc'(1) by (intro Cons.IH) (simp_all add: od_get_put)
  finally show ?case by (simp add: acc'(2) od_put_twice)
qed

text \<open>The names a signature can have\<close>

definition good_name :: "string \<Rightarrow> bool" where
  "good_name s \<longleftrightarrow> plain_name s \<and> list_all (\<lambda>c. c = CHR ''_'' \<or> py_isalnum c) s"

lemma good_name_chars:
  assumes "good_name name"
  shows "name \<noteq> []" "list_all (\<lambda>c. \<not> py_isspace c \<and> c \<noteq> CHR '':'' \<and> c \<noteq> CHR ''*'' \<and> c \<noteq> CHR 0x60) name"
proof -
  show "name \<noteq> []" using assms by (auto simp: good_name_def plain_name_def)
  have "c = CHR ''_'' \<or> py_isalnum c \<Longrightarrow> \<not> py_isspace c \<and> c \<noteq> CHR '':'' \<and> c \<noteq> CHR ''*'' \<and> c \<noteq> CHR 0x60" for c
    by (auto simp: py_isalnum_def py_isspace_def Let_def)
  with assms show "list_all (\<lambda>c. \<not> py_isspace c \<and> c \<noteq> CHR '':'' \<and> c \<noteq> CHR ''*'' \<and> c \<noteq> CHR 0x60) name"
    by (simp add: good_name_def list_all_iff)
qed

lemma good_one_line: "good_name name \<Longrightarrow> one_line name"
  using good_name_chars(2) [of name] newline_isspace unfolding one_line_def list_all_iff by blast

lemma split_once_prefix: "c \<notin> set s \<Longrightarrow> split_once c (s @ c # t) = (s, t)"
  by (induction s) (auto simp: split_once_def)

lemma entry_line:
  assumes "good_name name" "tidy row"
    and "line = spaces n @ spaces 4 @ name @ '':'' \<and> row = []
      \<or> line = spaces n @ spaces 4 @ name @ '':'' @ '' '' @ row"
  shows "doc_entries n (line # rest) (es, m) = doc_entries n rest (od_put name row es, Some name)"
proof -
  note nm = good_name_chars [OF assms(1)]
  define after where "after = (if row = [] then [] else '' '' @ row)"
  have ends: "name \<noteq> []" "\<not> py_isspace (hd name)" using nm by (cases name; simp)+
  have plain: "CHR '':'' \<notin> set name" "filter (\<lambda>c. c \<noteq> CHR ''*'') name = name"
    using nm(2) by (auto simp: list_all_iff filter_id_conv)
  have "py_strip name = name" using nm by (intro strip_id) (auto simp: list_all_iff)
  have st: "py_strip line = name @ '':'' @ after"
  proof -
    have "py_strip line = py_strip (name @ '':'' @ after)"
    proof (cases "row = [] \<and> line = spaces n @ spaces 4 @ name @ '':'' @ '' '' @ row")
      case True
      have "py_strip (name @ '':'' @ '' '') = py_strip (name @ '':'')"
        using ends by (cases name) (simp_all add: py_strip_def strip_by_def)
      with True show ?thesis by (simp add: after_def)
    next
      case False
      with assms(3) show ?thesis by (auto simp: after_def)
    qed
    also have "\<dots> = name @ '':'' @ after"
      using ends tidy_ends [OF assms(2)] by (intro strip_id) (auto simp: after_def py_isspace_def)
    finally show ?thesis .
  qed
  have "indent_of line = n + 4"
    using assms(3) ends by (cases name) auto
  moreover have "\<not> startswith (name @ '':'' @ after) [CHR 0x60]" using nm by (cases name) auto
  moreover have "py_strip after = row"
  proof (cases "row = []")
    case False
    have "py_strip ('' '' @ row) = py_strip row" using strip_spaces [of 1 row] by (simp add: spaces_def)
    with False assms(2) show ?thesis by (simp add: after_def tidy_strip)
  qed (simp add: after_def py_strip_def strip_by_def)
  moreover have "split_once (CHR '':'') (name @ '':'' @ after) = (name, after)"
    using split_once_prefix [OF plain(1), of after] by simp
  ultimately show ?thesis
    using assms(1) ends plain \<open>py_strip name = name\<close> by (simp add: st good_name_def)
qed

declare doc_entries.simps(2) [simp del]

definition doc_of :: "(string, string) odict \<Rightarrow> string \<Rightarrow> string" where
  "doc_of docs name = (case od_get docs name of Some d \<Rightarrow> d | None \<Rightarrow> [])"

lemma entry_block:
  assumes "good_name name"
  shows "doc_entries n (arg_lines (spaces n) docs name @ rest) (es, m)
    = doc_entries n rest (od_put name (join '' '' (py_words (doc_of docs name))) es, Some name)"
proof (cases "doc_of docs name = []")
  case True
  then have "arg_lines (spaces n) docs name = [spaces n @ spaces 4 @ name @ '':'']"
    by (simp add: arg_lines_def doc_of_def split: option.splits)
  moreover have "py_words (doc_of docs name) = []" by (simp add: True py_words_def)
  moreover have "tidy []" by (simp add: tidy_def py_words_def)
  ultimately show ?thesis using entry_line [OF assms, of "[]"] by simp
next
  case False
  define room rows where "room = max (WIDTH - length (spaces n @ spaces 4 @ name @ '':'') - 1) 20"
    and "rows = wrap room [] (py_words (doc_of docs name))"
  have rows: "list_all tidy rows" "concat (map py_words rows) = py_words (doc_of docs name)"
    "list_all (\<lambda>r. r \<noteq> []) (tl rows)" "rows \<noteq> []"
    using wrap_words [OF py_words_words, of "[]" room "doc_of docs name"] by (simp_all add: rows_def)
  then obtain r rs where rr: "rows = r # rs" by (cases rows) auto
  have al: "arg_lines (spaces n) docs name = (spaces n @ spaces 4 @ name @ '':'' @ '' '' @ r)
      # map (\<lambda>r. spaces n @ spaces 8 @ r) rs"
    using False rr by (auto simp: arg_lines_def doc_of_def Let_def rows_def room_def split: option.splits)
  have "doc_entries n (arg_lines (spaces n) docs name @ rest) (es, m)
      = doc_entries n (map (\<lambda>r. spaces n @ spaces 8 @ r) rs @ rest) (od_put name r es, Some name)"
    unfolding al append_Cons using rows(1) by (intro entry_line [OF assms]) (simp_all add: rr)
  also have "\<dots> = doc_entries n rest (od_put name (join '' '' (py_words r @ concat (map py_words rs))) (od_put name r es), Some name)"
    using rows by (intro entries_rows) (simp_all add: rr od_get_put)
  finally show ?thesis using rows(2) by (simp add: od_put_twice rr)
qed

text \<open>
  C20: What a rendered argument block says of each parameter is read back from the docstring:
  every name with its description, in single spaces, whatever stands before the block, and
  up to the section heading that follows it.
\<close>

theorem documented_args_read_back:
  assumes "list_all (\<lambda>l. one_line l \<and> \<not> is_args_line l) before"
    and "list_all (\<lambda>p. good_name (fst p)) params" and "distinct (map fst params)"
    and "list_all one_line rest"
    and "rest = [] \<or> (\<exists>l ls. rest = [] # l # ls \<and> l \<noteq> [] \<and> \<not> blank l \<and> indent_of l \<le> n \<and> endswith (py_strip l) '':'')"
  shows "doc_args (unlines (before @ render_args params docs (spaces n) @ rest))
    = map (\<lambda>p. (fst p, join '' '' (py_words (doc_of docs (fst p))))) params"
proof -
  have stop: "doc_entries n rest (es, m) = es" for es m
    using assms(5) py_strip_blank
    by (auto simp: doc_entries.simps(2) split_def py_strip_def strip_by_def Let_def)
  have "doc_entries n (concat (map (\<lambda>p. arg_lines (spaces n) docs (fst p)) params) @ rest) (es, m)
      = es @ map (\<lambda>p. (fst p, join '' '' (py_words (doc_of docs (fst p))))) params"
    if "fst ` set es \<inter> fst ` set params = {}" for es m
    using assms(2,3) that
  proof (induction params arbitrary: es m)
    case Nil
    then show ?case by (simp add: stop)
  next
    case (Cons p ps)
    then have "fst p \<notin> fst ` set es" by auto
    then show ?case using Cons by (simp add: entry_block od_put_fresh)
  qed
  from this [of "[]" None] have entries: "doc_entries n (concat (map (\<lambda>p. arg_lines (spaces n) docs (fst p)) params) @ rest) ([], None)
      = map (\<lambda>p. (fst p, join '' '' (py_words (doc_of docs (fst p))))) params" by simp
  have "list_all (\<lambda>p. one_line (fst p)) params"
    using assms(2) good_one_line by (simp add: list_all_iff)
  then have "list_all one_line (concat (map (\<lambda>p. arg_lines (spaces n) docs (fst p)) params))"
    by (rule block_one_line)
  moreover have "list_all one_line before" using assms(1) by (simp add: list_all_iff)
  ultimately have "list_all one_line (before @ render_args params docs (spaces n) @ rest)"
    using assms(4) by (simp add: render_args_def)
  then have "py_lines (unlines (before @ render_args params docs (spaces n) @ rest)) = before @ render_args params docs (spaces n) @ rest"
    by (intro lines_unlines) (simp_all add: render_args_def)
  moreover have "dropWhile (\<lambda>l. \<not> is_args_line l) (before @ render_args params docs (spaces n) @ rest)
      = render_args params docs (spaces n) @ rest"
    using assms(1) by (simp add: render_args_def dropWhile_append list_all_iff)
  ultimately show ?thesis by (simp add: doc_args_def render_args_def entries)
qed

theorem documented_args_read_back_witness:
  "doc_args (unlines ([''Sends.'', []]
       @ render_args [(''url'', Some ''str'', None), (''data'', None, Some ''None'')] [(''url'', ''The  address.'')] (spaces 4)
       @ [[], ''    Returns:'', ''        It.'']))
    = map (\<lambda>p. (fst p, join '' '' (py_words (doc_of [(''url'', ''The  address.'')] (fst p)))))
        [(''url'', Some ''str'', None), (''data'', None, Some ''None'')]"
proof (rule documented_args_read_back)
  show "list_all (\<lambda>p. good_name (fst p)) [(''url'', Some ''str'', None), (''data'', None, Some ''None'')]"
    by (simp add: good_name_def plain_name_def py_isalnum_def Let_def)
  have "\<not> blank ''    Returns:'' \<and> indent_of ''    Returns:'' \<le> 4 \<and> endswith (py_strip ''    Returns:'') '':''"
    by code_simp
  then show "[[], ''    Returns:'', ''        It.''] = []
      \<or> (\<exists>l ls. [[], ''    Returns:'', ''        It.''] = [] # l # ls \<and> l \<noteq> [] \<and> \<not> blank l \<and> indent_of l \<le> 4
        \<and> endswith (py_strip l) '':'')" by blast
qed (simp_all add: is_args_line_def py_strip_def strip_by_def py_isspace_def one_line_def)

text \<open>
  The reader and the writer do not end the block alike: a heading with its text on the same
  line ends it for \<open>rebuild_docstring\<close> but is a continuation for \<open>doc_args\<close>, which adds
  it to the last parameter's description.
\<close>

lemma heading_with_text_is_swallowed:
  "doc_args (unlines [''Sends.'', ''Args:'', ''    url: The address.'', ''Note: Not cached.''])
    = [(''url'', ''The address. Note: Not cached.'')]
   \<and> is_section 0 ''Note: Not cached.''"
  by code_simp

section \<open>Edits\<close>

text \<open>All edits at once: what stands between them is kept.\<close>

fun put_blocks :: "nat \<Rightarrow> edit list \<Rightarrow> string list \<Rightarrow> string list" where
  "put_blocks pos [] lines = lines"
| "put_blocks pos ((s, t, block) # es) lines = take (s - pos) lines @ block @ put_blocks t es (drop (t - pos) lines)"

fun ascending :: "nat \<Rightarrow> nat \<Rightarrow> edit list \<Rightarrow> bool" where
  "ascending n pos [] = True"
| "ascending n pos ((s, t, block) # es) \<longleftrightarrow> pos \<le> s \<and> s < t \<and> t \<le> n \<and> ascending n t es"

lemma put_blocks_from:
  "ascending (length lines) pos es \<Longrightarrow> pos \<le> length lines \<Longrightarrow>
   fold apply_edit (rev es) lines = take pos lines @ put_blocks pos es (drop pos lines)"
proof (induction "length lines" pos es rule: ascending.induct)
  case (2 pos s t block es)
  then have asc: "pos \<le> s" "s < t" "t \<le> length lines" by simp_all
  have step: "apply_edit (s, t, block) (take t lines @ rest) = take s lines @ block @ rest" for rest
    using asc by (simp add: apply_edit_def min_def)
  have "take s lines = take pos lines @ take (s - pos) (drop pos lines)"
    using asc(1) take_add [of pos "s - pos" lines] by simp
  then show ?case using 2 asc by (simp add: step)
qed simp

text \<open>
  Replacing the blocks from the last to the first is replacing them all at once: no edit
  moves the lines another one is meant for, and the lines between them are kept.
\<close>

theorem edits_replace_blocks_at_once:
  assumes "ascending (length lines) 0 (sort_key fst planned)"
  shows "apply_edits planned lines = put_blocks 0 (sort_key fst planned) lines"
  using put_blocks_from [OF assms] by (simp add: apply_edits_def)

theorem edits_replace_blocks_at_once_witness:
  "apply_edits [(3, 4, [''D'', ''E'']), (0, 2, [''A''])] [''a'', ''b'', ''c'', ''d'']
    = put_blocks 0 (sort_key fst [(3, 4, [''D'', ''E'']), (0, 2, [''A''])]) [''a'', ''b'', ''c'', ''d'']"
  by (rule edits_replace_blocks_at_once) simp

text \<open>Checking writes nothing, and a file with nothing stale is left as it is.\<close>

lemma process_writes_stale_only:
  "process parse check file contents jobs = Inr (stale, contents') \<Longrightarrow>
   check \<or> stale = [] \<Longrightarrow> contents' = contents"
  by (cases "map_res (plan_job (py_lines contents) file (parse contents)) jobs")
     (auto simp: process_def Let_def bind_res_Inl bind_res_Inr)

section \<open>The parameters of a verb\<close>

definition takes :: "param list \<Rightarrow> string list" where
  "takes ps = map fst ps"

lemma od_update_fresh:
  "distinct (map fst ps) \<Longrightarrow> fst ` set m \<inter> fst ` set ps = {} \<Longrightarrow> od_update m ps = m @ ps"
proof (induction ps arbitrary: m)
  case (Cons p ps)
  obtain k v where p: "p = (k, v)" by (cases p)
  have "od_update m (p # ps) = od_update (m @ [(k, v)]) ps"
    using Cons.prems by (simp add: od_update_def p od_put_fresh)
  with Cons p show ?case by auto
qed (simp add: od_update_def)

lemma od_of_distinct: "distinct (map fst ps) \<Longrightarrow> od_of ps = ps"
  by (simp add: od_of_def od_update_fresh)

lemma lookup_in_spec: "distinct (takes spec) \<Longrightarrow> p \<in> set spec \<Longrightarrow> od_get (od_of (map (\<lambda>p. (fst p, p)) spec)) (fst p) = Some p"
proof -
  assume d: "distinct (takes spec)" and p: "p \<in> set spec"
  have "map fst (map (\<lambda>p. (fst p, p)) spec) = takes spec" by (simp add: takes_def comp_def)
  with d have "od_of (map (\<lambda>p. (fst p, p)) spec) = map (\<lambda>p. (fst p, p)) spec" by (intro od_of_distinct) simp
  moreover have "map_of (map (\<lambda>p. (fst p, p)) spec) (fst p) = Some p"
    using d p by (intro map_of_is_SomeI) (auto simp: takes_def comp_def)
  ultimately show ?thesis by (simp add: od_get_def)
qed

lemma leading_params:
  assumes "distinct (takes spec)" "set leading \<subseteq> set (takes spec)"
  shows "\<exists>ps. concat (map (\<lambda>n. case od_get (od_of (map (\<lambda>p. (fst p, p)) spec)) n of Some p \<Rightarrow> [p] | None \<Rightarrow> []) leading) = ps
    \<and> takes ps = leading \<and> set ps = {p \<in> set spec. fst p \<in> set leading}"
  using assms(2)
proof (induction leading)
  case (Cons n leading)
  then obtain p where p: "p \<in> set spec" "fst p = n" by (auto simp: takes_def)
  have uniq: "q = p" if "q \<in> set spec" "fst q = n" for q
    using lookup_in_spec [OF assms(1) that(1)] lookup_in_spec [OF assms(1) p(1)] that(2) p(2) by simp
  have "q \<in> set spec \<and> fst q \<in> set (n # leading) \<longleftrightarrow> q = p \<or> q \<in> set spec \<and> fst q \<in> set leading" for q
    using uniq [of q] p by (cases "fst q = n") (simp, blast, simp, blast)
  then have "{q \<in> set spec. fst q \<in> set (n # leading)} = insert p {q \<in> set spec. fst q \<in> set leading}"
    by (simp add: set_eq_iff)
  moreover obtain ps where "concat (map (\<lambda>n. case od_get (od_of (map (\<lambda>p. (fst p, p)) spec)) n of Some p \<Rightarrow> [p] | None \<Rightarrow> []) leading) = ps"
    "takes ps = leading" "set ps = {p \<in> set spec. fst p \<in> set leading}"
    using Cons by auto
  moreover have "od_get (od_of (map (\<lambda>p. (fst p, p)) spec)) n = Some p"
    using lookup_in_spec [OF assms(1) p(1)] p(2) by simp
  ultimately show ?case using p(2) by (simp add: takes_def)
qed (simp add: takes_def)

text \<open>
  A verb takes its customary arguments first and then every other parameter of
  \<open>request()\<close>, each once, in \<open>request()\<close>'s order, with its annotation and, but for the
  \<open>allow_redirects\<close> of \<open>head\<close>, its default.
\<close>

theorem verb_parameters_match_request:
  assumes "distinct (takes spec)" and "set leading \<subseteq> set (takes spec)"
    and "''method'' \<notin> set leading" and "''self'' \<notin> set leading"
  shows "takes (build_params verb spec leading)
      = leading @ filter (\<lambda>n. n \<notin> set leading \<union> {''method'', ''self''}) (takes spec)
    \<and> set (build_params verb spec leading) = override verb ` {p \<in> set spec. fst p \<notin> {''method'', ''self''}}"
proof -
  obtain ps where ps: "concat (map (\<lambda>n. case od_get (od_of (map (\<lambda>p. (fst p, p)) spec)) n of Some p \<Rightarrow> [p] | None \<Rightarrow> []) leading) = ps"
    "takes ps = leading" "set ps = {p \<in> set spec. fst p \<in> set leading}"
    using leading_params [OF assms(1,2)] by blast
  define chosen where "chosen = ps @ filter (\<lambda>p. fst p \<notin> set leading \<union> {''method'', ''self''}) spec"
  have bp: "build_params verb spec leading = map (override verb) chosen"
    by (simp add: build_params_def Let_def ps(1) chosen_def)
  have "takes (map (override verb) chosen) = takes chosen"
    by (simp add: takes_def override_def comp_def split_def)
  also have "\<dots> = leading @ filter (\<lambda>n. n \<notin> set leading \<union> {''method'', ''self''}) (takes spec)"
    using ps(2) by (simp add: chosen_def takes_def filter_map comp_def)
  finally have t: "takes (build_params verb spec leading) = \<dots>" by (simp only: bp)
  have "set chosen = {p \<in> set spec. fst p \<notin> {''method'', ''self''}}"
    using ps(3) assms(3,4) by (auto simp: chosen_def)
  with t show ?thesis by (simp add: bp)
qed

theorem verb_parameters_match_request_witness:
  "takes (build_params ''head'' [(''method'', None, None), (''url'', None, None), (''json'', None, Some ''None'')] [''url''])
      = [''url''] @ filter (\<lambda>n. n \<notin> set [''url''] \<union> {''method'', ''self''}) (takes [(''method'', None, None), (''url'', None, None), (''json'', None, Some ''None'')])
    \<and> set (build_params ''head'' [(''method'', None, None), (''url'', None, None), (''json'', None, Some ''None'')] [''url''])
      = override ''head'' ` {p \<in> set [(''method'', None, None), (''url'', None, None), (''json'', None, Some ''None'')]. fst p \<notin> {''method'', ''self''}}"
  by (rule verb_parameters_match_request) (simp_all add: takes_def)

end
