(* ===== verification/Stub_Facades.thy ===== *)
theory Stub_Facades
  imports Stub_Tree "HOL-Library.Multiset" "HOL-Library.List_Lexorder" "HOL-Library.Char_ord"
begin

text \<open>
  \<open>tools/generate-python-stubs.py\<close>: the profile \<open>Literal\<close> blocks of
  \<open>impersonate.pyi\<close>, and the facade stubs that re-export the public names of the
  implementation stubs.  A file is its text under its path, the list of the path's parts;
  the text of the package root around its imports is an argument.
\<close>

section \<open>Constants\<close>

definition FACADE_MODULES :: "string list" where
  "FACADE_MODULES = [''adapters'', ''api'', ''auth'', ''cookies'', ''engine'', ''exceptions'', ''impersonate'',
     ''models'', ''multipart'', ''sessions'', ''status_codes'', ''structures'', ''utils'', ''websockets'']"

definition FACADE_SUMMARY :: "(string \<times> string) list" where
  "FACADE_SUMMARY =
    [(''adapters'', ''Transport adapters: the mount point for custom transports.''),
     (''api'', ''Module-level ``get``/``post``/... over one process-wide session.''),
     (''auth'', ''Authentication handlers, matching ``requests.auth``.''),
     (''cookies'', ''``RequestsCookieJar`` and the Core cookie-store bridge.''),
     (''engine'', ''Chromium engine configuration and per-session caching.''),
     (''exceptions'', ''requests'' @ [CHR 0x27] @ '' exception hierarchy plus curl_cffi'' @ [CHR 0x27] @ ''s extra leaves.''),
     (''impersonate'', ''Profile selection: ``Literal`` lists of every accepted value.''),
     (''models'', ''``Request``, ``PreparedRequest``, ``Response``, ``AsyncResponse``.''),
     (''multipart'', ''Form, JSON and multipart body encoding, plus ``CurlMime``.''),
     (''sessions'', ''``Session``, ``AsyncSession``, ``Client`` and ``AsyncClient``.''),
     (''status_codes'', ''``codes``: status name to number, including upper-case aliases.''),
     (''structures'', ''``CaseInsensitiveDict``, ``Headers`` and ``LookupDict``.''),
     (''utils'', ''Helpers mirroring ``requests.utils``.''),
     (''websockets'', ''``WebSocket`` and ``AsyncWebSocket``.'')]"

definition ROOT_LOCAL_NAMES :: "string list" where
  "ROOT_LOCAL_NAMES = [''core_version'', ''abi_version'', ''__all__'']"

text \<open>What the tool stops with\<close>

datatype gen_error = NotLiteral | CouldNotRead | NoHeader string | NoClosing string | NoPublicNames string

section \<open>Profile literals\<close>

text \<open>\<open>ast.literal_eval\<close>, on the literals that occur: integers, strings and \<open>None\<close>\<close>

datatype literal = LInt int | LStr string | LNone

definition literal_eval :: "expr \<Rightarrow> gen_error + literal" where
  "literal_eval e = (case e of EInt n \<Rightarrow> Inr (LInt n) | EStr s \<Rightarrow> Inr (LStr s) | ENone \<Rightarrow> Inr LNone
     | EDict ks \<Rightarrow> Inl NotLiteral | EOther \<Rightarrow> Inl NotLiteral)"

type_synonym constants = "(string, literal) odict \<times> literal list option"

definition read_target :: "expr \<Rightarrow> string \<Rightarrow> constants \<Rightarrow> gen_error + constants" where
  "read_target v name c =
     (case c of (consts, versions) \<Rightarrow>
        if name \<in> {''OLDEST_CHROME'', ''LATEST_CHROME''}
        then bind_res (literal_eval v) (\<lambda>l. Inr (od_put name l consts, versions))
        else if name = ''HTTP_VERSIONS''
        then (case v of EDict ks \<Rightarrow> bind_res (map_res literal_eval ks) (\<lambda>ls. Inr (consts, Some ls))
                      | _ \<Rightarrow> Inl NotLiteral)
        else Inr c)"

definition read_stmt :: "stmt \<Rightarrow> constants \<Rightarrow> gen_error + constants" where
  "read_stmt s c =
     (case s of
        Assign ts v \<Rightarrow>
          fold (\<lambda>t r. case t of TName n \<Rightarrow> bind_res r (read_target v n) | TOther \<Rightarrow> r) ts (Inr c)
      | _ \<Rightarrow> Inr c)"

definition runtime_values :: "module \<Rightarrow> gen_error + int \<times> int \<times> literal list" where
  "runtime_values tree =
     bind_res (fold (\<lambda>s r. bind_res r (read_stmt s)) tree (Inr ([], None))) (\<lambda>(consts, versions).
       case (od_get consts ''OLDEST_CHROME'', od_get consts ''LATEST_CHROME'', versions) of
         (Some (LInt a), Some (LInt b), Some vs) \<Rightarrow> Inr (a, b, vs)
       | (Some _, Some _, Some vs) \<Rightarrow> Inl NotLiteral
       | _ \<Rightarrow> Inl CouldNotRead)"

definition expected_literals :: "int \<times> int \<times> literal list \<Rightarrow> (string \<times> literal list) list" where
  "expected_literals v =
     (case v of (oldest, latest, versions) \<Rightarrow>
       [(''ChromeProfileName'', map (\<lambda>n. LStr (''chrome_'' @ show_int n)) [oldest..latest]),
        (''ChromeProfileAlias'', map (\<lambda>n. LStr (''chrome'' @ show_int n)) [oldest..latest]),
        (''ChromeFamilyAlias'', [LStr ''chrome'', LStr ''chromium'']),
        (''HttpVersion'', versions)])"

definition literal_item :: "literal \<Rightarrow> string" where
  "literal_item l = (case l of LStr s \<Rightarrow> [CHR 0x22] @ s @ [CHR 0x22, CHR '','']
     | LInt n \<Rightarrow> show_int n @ '','' | LNone \<Rightarrow> ''None,'')"

text \<open>Rows of \<open>per_line\<close> items\<close>

fun rows_of :: "nat \<Rightarrow> string list \<Rightarrow> string list \<Rightarrow> string list" where
  "rows_of n row [] = (if row = [] then [] else [spaces 4 @ join '' '' row])"
| "rows_of n row (i # is) =
     (if length (row @ [i]) = n then (spaces 4 @ join '' '' (row @ [i])) # rows_of n [] is
      else rows_of n (row @ [i]) is)"

definition render_literal :: "literal list \<Rightarrow> nat \<Rightarrow> string list" where
  "render_literal values per_line =
     (let rendered = map literal_item values
      in if per_line = 1 then map (\<lambda>i. spaces 4 @ i) rendered else rows_of per_line [] rendered)"

definition per_line :: "string \<Rightarrow> nat" where
  "per_line name = (if name \<in> {''ChromeProfileName'', ''ChromeProfileAlias''} then 4 else 1)"

definition is_header :: "string \<Rightarrow> string \<Rightarrow> bool" where
  "is_header name line \<longleftrightarrow> startswith line (name @ '': TypeAlias = Literal['')"

definition closing :: string where
  "closing = '']''"

text \<open>\<open>lines[header + 1 : closing] = rendered\<close>\<close>

definition replace_block :: "string \<Rightarrow> string list \<Rightarrow> string list \<Rightarrow> gen_error + string list" where
  "replace_block name rendered lines =
     (case dropWhile (\<lambda>l. \<not> is_header name l) lines of
        [] \<Rightarrow> Inl (NoHeader name)
      | h # rest \<Rightarrow>
          if closing \<in> set rest
          then Inr (takeWhile (\<lambda>l. \<not> is_header name l) lines @ h # rendered @ dropWhile (\<lambda>l. l \<noteq> closing) rest)
          else Inl (NoClosing name))"

fun replace_blocks :: "(string \<times> string list) list \<Rightarrow> string list \<Rightarrow> gen_error + string list" where
  "replace_blocks [] lines = Inr lines"
| "replace_blocks ((name, rendered) # bs) lines = bind_res (replace_block name rendered lines) (replace_blocks bs)"

definition literal_blocks :: "int \<times> int \<times> literal list \<Rightarrow> (string \<times> string list) list" where
  "literal_blocks v = map (\<lambda>(name, values). (name, render_literal values (per_line name))) (expected_literals v)"

definition regenerate_literals :: "module \<Rightarrow> string \<Rightarrow> gen_error + string" where
  "regenerate_literals runtime stub =
     bind_res (runtime_values runtime) (\<lambda>v.
     bind_res (replace_blocks (literal_blocks v) (py_lines stub)) (\<lambda>ls. Inr (unlines ls)))"

section \<open>Facades\<close>

fun seen_once :: "string list \<Rightarrow> string list \<Rightarrow> string list" where
  "seen_once seen [] = []"
| "seen_once seen (n # ns) = (if n \<in> set seen then seen_once seen ns else n # seen_once (n # seen) ns)"

definition stub_names :: "module \<Rightarrow> string list" where
  "stub_names tree = seen_once [] (concat (map (stmt_names False) tree))"

definition render_import :: "string list \<Rightarrow> string \<Rightarrow> string" where
  "render_import names path =
     unlines ([''from '' @ path @ '' import (''] @ map (\<lambda>n. spaces 4 @ n @ '' as '' @ n @ '','') names @ ['')''])"

definition facade_document :: "string \<Rightarrow> string \<Rightarrow> string \<Rightarrow> string" where
  "facade_document title alias_of imports =
     unlines ([[CHR 0x22, CHR 0x22, CHR 0x22] @ title, []]
       @ [''At runtime this module *is* ``'' @ alias_of @ ''``: the package aliases it'',
          ''into ``sys.modules`` on import. The names below are re-exported'',
          ''explicitly, so a type checker follows the same path instead of'',
          ''seeing ``Any`` (PEP 561).'']
       @ [[CHR 0x22, CHR 0x22, CHR 0x22], []]
       @ (if occurs_in ''__all__'' imports then [''from typing import List'', []] else [])
       @ [imports, []])"

type_synonym path = "string list"

definition pkg :: "path \<Rightarrow> path" where
  "pkg p = [''bindings'', ''python'', ''chrome_client''] @ p"

definition impl :: "string \<Rightarrow> path" where
  "impl f = pkg [''_python_impl'', f]"

definition module_facades :: "(path \<Rightarrow> module) \<Rightarrow> string \<Rightarrow> gen_error + (path \<times> string) list" where
  "module_facades tree m =
     (let names = stub_names (tree (impl (m @ ''.pyi'')));
          summary = (case map_of FACADE_SUMMARY m of Some s \<Rightarrow> s | None \<Rightarrow> []);
          doc = (\<lambda>dots. facade_document summary (''chrome_client._python_impl.'' @ m)
                   (render_import names (dots @ ''_python_impl.'' @ m)))
      in if names = [] then Inl (NoPublicNames m)
         else Inr [(pkg [m @ ''.pyi''], doc ''.''), (pkg [''requests'', m @ ''.pyi''], doc ''..'')])"

definition package_facades :: "string \<times> string \<Rightarrow> (path \<Rightarrow> module) \<Rightarrow> (path \<times> string) list" where
  "package_facades template tree =
     (let names = stub_names (tree (impl ''__init__.pyi''))
      in [(pkg [''requests'', ''__init__.pyi''],
           facade_document ''``requests``-shaped namespace over the Chromium Core.'' ''chrome_client._python_impl''
             (render_import (filter (\<lambda>n. n \<noteq> ''__all__'') names) ''.._python_impl''
              @ [CHR 0x0a, CHR 0x0a] @ ''#: Same names the implementation package exports.''
              @ [CHR 0x0a] @ ''__all__: List[str]'')),
          (pkg [''__init__.pyi''],
           fst template @ render_import (filter (\<lambda>n. n \<notin> set ROOT_LOCAL_NAMES) names) ''._python_impl''
             @ snd template)])"

definition regenerate_facades ::
  "string \<times> string \<Rightarrow> (path \<Rightarrow> module) \<Rightarrow> gen_error + (path \<times> string) list" where
  "regenerate_facades template tree =
     bind_res (map_res (module_facades tree) FACADE_MODULES) (\<lambda>fs.
       Inr (concat fs @ package_facades template tree))"

section \<open>The run\<close>

text \<open>The files after the run, the stale ones, and the exit code\<close>

definition write_files :: "(path \<times> string) list \<Rightarrow> (path \<Rightarrow> string) \<Rightarrow> path \<Rightarrow> string" where
  "write_files ws fs = fold (\<lambda>(p, t) g. g(p := t)) ws fs"

definition stub_outputs ::
  "(string \<Rightarrow> module) \<Rightarrow> string \<times> string \<Rightarrow> (path \<Rightarrow> string) \<Rightarrow> gen_error + (path \<times> string) list" where
  "stub_outputs parse template fs =
     bind_res (regenerate_literals (parse (fs (impl ''impersonate.py''))) (fs (impl ''impersonate.pyi''))) (\<lambda>lits.
     bind_res (regenerate_facades template (\<lambda>p. parse (fs p))) (\<lambda>facades.
     Inr ((impl ''impersonate.pyi'', lits) # sort_key fst facades)))"

definition generate_main ::
  "(string \<Rightarrow> module) \<Rightarrow> string \<times> string \<Rightarrow> bool \<Rightarrow> (path \<Rightarrow> string)
   \<Rightarrow> gen_error + (path \<Rightarrow> string) \<times> path list \<times> nat" where
  "generate_main parse template check fs =
     bind_res (stub_outputs parse template fs) (\<lambda>outputs.
       let stale = map fst (filter (\<lambda>(p, t). fs p \<noteq> t) outputs)
       in if stale = [] then Inr (fs, [], 0)
          else if check then Inr (fs, stale, 1)
          else Inr (write_files outputs fs, stale, 0))"

section \<open>Regenerating the literals\<close>

text \<open>A block of a file: its first header, the lines to the next closing bracket, the rest\<close>

definition block_at :: "string \<Rightarrow> string list \<Rightarrow> string list \<Rightarrow> bool" where
  "block_at name body lines \<longleftrightarrow> (\<exists>before h after. lines = before @ h # body @ closing # after
     \<and> list_all (\<lambda>l. \<not> is_header name l) before \<and> is_header name h \<and> closing \<notin> set body)"

definition LITERAL_NAMES :: "string list" where
  "LITERAL_NAMES = [''ChromeProfileName'', ''ChromeProfileAlias'', ''ChromeFamilyAlias'', ''HttpVersion'']"

text \<open>Lines that are no header and no closing bracket\<close>

definition inner :: "string list \<Rightarrow> bool" where
  "inner body \<longleftrightarrow> list_all (\<lambda>l. l \<noteq> closing \<and> list_all (\<lambda>n. \<not> is_header n l) LITERAL_NAMES) body"

lemma replace_block_at:
  assumes "block_at name body lines"
  obtains before h after where "lines = before @ h # body @ closing # after"
    and "list_all (\<lambda>l. \<not> is_header name l) before" and "is_header name h" and "closing \<notin> set body"
    and "\<And>r. replace_block name r lines = Inr (before @ h # r @ closing # after)"
proof -
  from assms obtain before h after where p: "lines = before @ h # body @ closing # after"
    "list_all (\<lambda>l. \<not> is_header name l) before" "is_header name h" "closing \<notin> set body"
    by (auto simp: block_at_def)
  have "dropWhile (\<lambda>l. l \<noteq> closing) (body @ closing # after) = closing # after"
    using p(4) by (induction body) auto
  moreover have "takeWhile (\<lambda>l. \<not> is_header name l) lines = before"
    "dropWhile (\<lambda>l. \<not> is_header name l) lines = h # body @ closing # after"
    using p(2,3) by (simp_all add: p(1) list_all_iff takeWhile_append dropWhile_append)
  ultimately have "replace_block name r lines = Inr (before @ h # r @ closing # after)" for r
    by (simp add: replace_block_def)
  with p that show ?thesis by blast
qed

lemma headers_apart:
  assumes "n \<in> set LITERAL_NAMES" "m \<in> set LITERAL_NAMES" "is_header n l" "is_header m l"
  shows "n = m"
proof -
  have "k = takeWhile (\<lambda>c. c \<noteq> CHR '':'') l" if "k \<in> set LITERAL_NAMES" "is_header k l" for k
  proof -
    note hd = that
    have "CHR '':'' \<notin> set k" using hd(1) by (auto simp: LITERAL_NAMES_def)
    moreover obtain t where "l = k @ CHR '':'' # t" using hd(2) by (auto simp: is_header_def startswith_iff)
    moreover have "CHR '':'' \<notin> set k \<Longrightarrow> takeWhile (\<lambda>c. c \<noteq> CHR '':'') (k @ CHR '':'' # t) = k" for t
      by (induction k) auto
    ultimately show ?thesis by simp
  qed
  with assms show ?thesis by metis
qed

lemma closing_no_header [simp]: "n \<in> set LITERAL_NAMES \<Longrightarrow> \<not> is_header n closing"
  by (auto simp: LITERAL_NAMES_def is_header_def closing_def)

text \<open>Replacing one block keeps the others.\<close>

lemma block_kept:
  assumes "block_at n body lines" "inner body" "n \<in> set LITERAL_NAMES"
    and "block_at m old lines" "inner old" "inner new" "m \<in> set LITERAL_NAMES" "m \<noteq> n"
    and "replace_block m new lines = Inr lines'"
  shows "block_at n body lines'"
proof -
  obtain A h C where m: "lines = A @ h # old @ closing # C" "list_all (\<lambda>l. \<not> is_header m l) A" "is_header m h"
    "replace_block m new lines = Inr (A @ h # new @ closing # C)"
    using replace_block_at [OF assms(4)] by metis
  then have l': "lines' = A @ h # new @ closing # C" using assms(9) by simp
  obtain P g Q where n: "lines = P @ g # body @ closing # Q" "list_all (\<lambda>l. \<not> is_header n l) P" "is_header n g"
    "closing \<notin> set body"
    using assms(1) by (auto simp: block_at_def)
  have gh: "\<not> is_header n h" using headers_apart [OF assms(3,7) _ m(3)] assms(8) by auto
  have oldn: "list_all (\<lambda>l. \<not> is_header n l) old" "list_all (\<lambda>l. \<not> is_header n l) new"
    using assms(3,5,6) by (auto simp: inner_def list_all_iff)
  have bodym: "h \<notin> set body" using assms(2,7) m(3) by (auto simp: inner_def list_all_iff)
  show ?thesis
  proof (cases "length P < length A")
    case True
    then obtain A' where A: "A = P @ g # A'"
      using m(1) n(1) by (auto simp: append_eq_append_conv2 Cons_eq_append_conv)
    then have eq: "body @ closing # Q = A' @ h # old @ closing # C" using m(1) n(1) by simp
    obtain A'' where "A' = body @ closing # A''"
    proof -
      have "h \<noteq> closing" using closing_no_header [OF assms(7)] m(3) by auto
      with eq bodym that show ?thesis
        by (auto simp: append_eq_append_conv2 Cons_eq_append_conv append_eq_Cons_conv)
    qed
    then show ?thesis using n(2-4) unfolding block_at_def l' A by force
  next
    case False
    then obtain D where P: "P = A @ D" "D @ g # body @ closing # Q = h # old @ closing # C"
      using m(1) n(1) by (auto simp: append_eq_append_conv2)
    with gh n(3) obtain E where E: "D = h # E" "E @ g # body @ closing # Q = old @ closing # C"
      by (cases D) auto
    have g: "g \<notin> set old" "g \<noteq> closing" using oldn(1) n(3) assms(3) by (auto simp: list_all_iff)
    obtain E' where E': "E = old @ closing # E'" "C = E' @ g # body @ closing # Q"
      using E(2) g by (auto simp: append_eq_append_conv2 Cons_eq_append_conv append_eq_Cons_conv)
    have "lines' = (A @ h # new @ closing # E') @ g # body @ closing # Q" by (simp add: l' E'(2))
    moreover have "list_all (\<lambda>l. \<not> is_header n l) (A @ h # new @ closing # E')"
      using n(2) P(1) E(1) E'(1) gh oldn(2) assms(3) by simp
    ultimately show ?thesis using n(3,4) unfolding block_at_def by blast
  qed
qed

lemma block_replaced:
  "block_at m old lines \<Longrightarrow> inner new \<Longrightarrow> replace_block m new lines = Inr lines' \<Longrightarrow> block_at m new lines'"
proof -
  assume b: "block_at m old lines" "inner new" "replace_block m new lines = Inr lines'"
  have "closing \<notin> set new" using b(2) by (auto simp: inner_def list_all_iff)
  with replace_block_at [OF b(1)] b(3) show ?thesis by (metis Inr_inject block_at_def)
qed

lemma block_current: "block_at m body lines \<Longrightarrow> replace_block m body lines = Inr lines"
  using replace_block_at [of m body lines] by metis

text \<open>Replacing several blocks makes every one of them current, and is then idempotent.\<close>

lemma replace_all_blocks:
  assumes "distinct (map fst bs)" "fst ` set bs \<subseteq> set LITERAL_NAMES" "list_all (\<lambda>b. inner (snd b)) bs"
    and "\<forall>n \<in> set LITERAL_NAMES. \<exists>body. inner body \<and> block_at n body lines"
  shows "\<exists>out. replace_blocks bs lines = Inr out
    \<and> (\<forall>n body. n \<in> set LITERAL_NAMES - fst ` set bs \<longrightarrow> inner body \<longrightarrow> block_at n body lines \<longrightarrow> block_at n body out)
    \<and> (\<forall>b \<in> set bs. block_at (fst b) (snd b) out)"
  using assms
proof (induction bs arbitrary: lines)
  case (Cons b bs)
  obtain m new where b: "b = (m, new)" by (cases b)
  have m: "m \<in> set LITERAL_NAMES" "inner new" "m \<notin> fst ` set bs" using Cons.prems(1-3) b by (auto simp: list_all_iff)
  obtain old where old: "inner old" "block_at m old lines" using Cons.prems(4) m(1) by blast
  then obtain lines1 where l1: "replace_block m new lines = Inr lines1" using replace_block_at by metis
  have kept: "block_at n body lines1" if "n \<in> set LITERAL_NAMES" "n \<noteq> m" "inner body" "block_at n body lines" for n body
    using block_kept [OF that(4,3,1) old(2,1) m(2,1) _ l1] that(2) by blast
  have cur: "block_at m new lines1" by (rule block_replaced [OF old(2) m(2) l1])
  have "\<forall>n \<in> set LITERAL_NAMES. \<exists>body. inner body \<and> block_at n body lines1"
    using Cons.prems(4) kept cur m(2) by metis
  moreover have "distinct (map fst bs)" "fst ` set bs \<subseteq> set LITERAL_NAMES" "list_all (\<lambda>b. inner (snd b)) bs"
    using Cons.prems(1-3) by auto
  ultimately obtain out where out: "replace_blocks bs lines1 = Inr out"
    "\<forall>n body. n \<in> set LITERAL_NAMES - fst ` set bs \<longrightarrow> inner body \<longrightarrow> block_at n body lines1 \<longrightarrow> block_at n body out"
    "\<forall>b \<in> set bs. block_at (fst b) (snd b) out"
    using Cons.IH by blast
  have "block_at m new out" using out(2) m cur by blast
  moreover have "\<forall>n body. n \<in> set LITERAL_NAMES - fst ` set (b # bs) \<longrightarrow> inner body \<longrightarrow> block_at n body lines \<longrightarrow> block_at n body out"
    using out(2) kept b by auto
  moreover have "replace_blocks (b # bs) lines = Inr out" by (simp add: b l1 out(1) bind_res_Inr)
  ultimately show ?case using out(3) b by auto
qed simp

lemma replace_current: "\<forall>b \<in> set bs. block_at (fst b) (snd b) out \<Longrightarrow> replace_blocks bs out = Inr out"
  by (induction bs) (auto simp: block_current bind_res_Inr)

definition block_body :: "string \<Rightarrow> string list \<Rightarrow> string list option" where
  "block_body name lines =
     (case dropWhile (\<lambda>l. \<not> is_header name l) lines of
        [] \<Rightarrow> None
      | h # rest \<Rightarrow> if closing \<in> set rest then Some (takeWhile (\<lambda>l. l \<noteq> closing) rest) else None)"

lemma block_body_at: "block_body name lines = Some body \<longleftrightarrow> block_at name body lines"
proof
  assume bb: "block_body name lines = Some body"
  then obtain h rest where dw: "dropWhile (\<lambda>l. \<not> is_header name l) lines = h # rest"
    by (auto simp: block_body_def split: list.splits)
  with bb have r: "closing \<in> set rest" "body = takeWhile (\<lambda>l. l \<noteq> closing) rest"
    by (auto simp: block_body_def split: if_splits)
  then have "\<exists>after. rest = body @ closing # after"
    by (metis (mono_tags, lifting) takeWhile_dropWhile_id dropWhile_eq_Nil_conv hd_Cons_tl hd_dropWhile)
  moreover have "is_header name h" using dw by (auto simp: dropWhile_eq_Cons_conv)
  moreover have "lines = takeWhile (\<lambda>l. \<not> is_header name l) lines @ h # rest"
    using takeWhile_dropWhile_id [of "\<lambda>l. \<not> is_header name l" lines] by (simp add: dw)
  moreover have "list_all (\<lambda>l. \<not> is_header name l) (takeWhile (\<lambda>l. \<not> is_header name l) lines)"
    by (auto simp: list_all_iff dest: set_takeWhileD)
  moreover have "closing \<notin> set body" using r(2) by (auto dest: set_takeWhileD)
  ultimately show "block_at name body lines" unfolding block_at_def by metis
next
  assume "block_at name body lines"
  then obtain before h after where p: "lines = before @ h # body @ closing # after"
    "list_all (\<lambda>l. \<not> is_header name l) before" "is_header name h" "closing \<notin> set body"
    by (auto simp: block_at_def)
  then have "dropWhile (\<lambda>l. \<not> is_header name l) lines = h # body @ closing # after"
    by (simp add: list_all_iff dropWhile_append)
  moreover have "takeWhile (\<lambda>l. l \<noteq> closing) (body @ closing # after) = body"
    using p(4) by (induction body) auto
  ultimately show "block_body name lines = Some body" by (simp add: block_body_def)
qed

lemma rows_inner: "inner (rows_of n row is)"
proof (induction n row "is" rule: rows_of.induct)
  case (1 n row)
  then show ?case by (auto simp: inner_def closing_def LITERAL_NAMES_def is_header_def spaces_def numeral_eq_Suc)
next
  case (2 n row i "is")
  then show ?case by (auto simp: inner_def closing_def LITERAL_NAMES_def is_header_def spaces_def numeral_eq_Suc)
qed

lemma render_inner: "inner (render_literal values n)"
  using rows_inner
  by (auto simp: render_literal_def inner_def list_all_iff Let_def closing_def LITERAL_NAMES_def is_header_def
    spaces_def numeral_eq_Suc)

definition plain_literal :: "literal \<Rightarrow> bool" where
  "plain_literal l = (case l of LStr s \<Rightarrow> one_line s | _ \<Rightarrow> True)"

lemma show_int_one_line [simp]: "one_line (show_int n)"
proof -
  have "\<not> ascii_digit (CHR 0x0a)" by (simp add: ascii_digit_def)
  then have "one_line (show_nat k)" for k
    using show_nat_digits [of k] by (auto simp: one_line_def list_all_iff)
  then show ?thesis by (simp add: show_int_def)
qed

lemma item_one_line: "plain_literal l \<Longrightarrow> one_line (literal_item l)"
  by (cases l) (simp_all add: plain_literal_def literal_item_def)

lemma rows_one_line: "list_all one_line row \<Longrightarrow> list_all one_line is \<Longrightarrow> list_all one_line (rows_of n row is)"
  by (induction n row "is" rule: rows_of.induct) (auto simp: one_line_join)

lemma render_one_line: "list_all plain_literal values \<Longrightarrow> list_all one_line (render_literal values n)"
proof -
  assume "list_all plain_literal values"
  then have "list_all one_line (map literal_item values)" by (simp add: list_all_iff item_one_line)
  then show ?thesis
    using rows_one_line [of "[]" "map literal_item values" n] by (simp add: render_literal_def list_all_iff Let_def)
qed

lemma expected_plain:
  "list_all plain_literal vs \<Longrightarrow> list_all (\<lambda>(n, values). list_all plain_literal values) (expected_literals (a, b, vs))"
  by (simp add: expected_literals_def list_all_iff plain_literal_def)

lemma literal_blocks_names: "map fst (literal_blocks v) = LITERAL_NAMES"
  by (cases v) (simp add: literal_blocks_def expected_literals_def LITERAL_NAMES_def)

lemma blocks_one_line:
  assumes "list_all plain_literal vs" "list_all one_line lines" "list_all (\<lambda>b. list_all one_line (snd b)) bs"
  shows "replace_blocks bs lines = Inr out \<Longrightarrow> list_all one_line out"
  using assms(2,3)
proof (induction bs arbitrary: lines)
  case (Cons b bs)
  obtain m new where b: "b = (m, new)" by (cases b)
  then obtain lines1 where l1: "replace_block m new lines = Inr lines1" "replace_blocks bs lines1 = Inr out"
    using Cons.prems(1) by (cases "replace_block m new lines") (auto simp: bind_res_Inl bind_res_Inr)
  obtain h rest where hr: "dropWhile (\<lambda>l. \<not> is_header m l) lines = h # rest"
    "lines1 = takeWhile (\<lambda>l. \<not> is_header m l) lines @ h # new @ dropWhile (\<lambda>l. l \<noteq> closing) rest"
    using l1(1) by (auto simp: replace_block_def split: list.splits if_splits)
  have "set (takeWhile (\<lambda>l. \<not> is_header m l) lines) \<subseteq> set lines" "set (h # rest) \<subseteq> set lines"
    "set (dropWhile (\<lambda>l. l \<noteq> closing) rest) \<subseteq> set rest"
    using hr(1) by (metis set_takeWhileD subsetI, metis set_dropWhileD subsetI, metis set_dropWhileD subsetI)
  then have "list_all one_line lines1"
    using Cons.prems(2,3) b by (auto simp: hr(2) list_all_iff)
  with Cons l1(2) show ?case by simp
qed simp

text \<open>
  Regenerating the literals succeeds on every stub that has the four blocks, makes each of
  them list what the runtime constants say, from the oldest to the latest profile, and
  changes nothing when run again.
\<close>

theorem literals_regenerated:
  assumes "runtime_values runtime = Inr (oldest, latest, versions)" and "list_all plain_literal versions"
    and "list_all (\<lambda>n. case block_body n (py_lines stub) of Some b \<Rightarrow> inner b | None \<Rightarrow> False) LITERAL_NAMES"
  shows "case regenerate_literals runtime stub of
      Inl e \<Rightarrow> False
    | Inr out \<Rightarrow> regenerate_literals runtime out = Inr out
        \<and> list_all (\<lambda>(n, r). block_body n (py_lines out) = Some r) (literal_blocks (oldest, latest, versions))"
proof -
  let ?bs = "literal_blocks (oldest, latest, versions)"
  have names: "distinct (map fst ?bs)" "fst ` set ?bs \<subseteq> set LITERAL_NAMES"
    unfolding set_map [symmetric] literal_blocks_names by (simp_all add: LITERAL_NAMES_def)
  have inn: "list_all (\<lambda>b. inner (snd b)) ?bs"
    by (auto simp: literal_blocks_def list_all_iff render_inner)
  have "\<forall>n \<in> set LITERAL_NAMES. \<exists>body. inner body \<and> block_at n body (py_lines stub)"
    using assms(3) by (auto simp: list_all_iff block_body_at split: option.splits)
  then obtain out where out: "replace_blocks ?bs (py_lines stub) = Inr out" "\<forall>b \<in> set ?bs. block_at (fst b) (snd b) out"
    using replace_all_blocks [OF names inn] by metis
  have "list_all (\<lambda>b. list_all one_line (snd b)) ?bs"
    using expected_plain [OF assms(2), of oldest latest] render_one_line
    by (auto simp: literal_blocks_def list_all_iff)
  then have ol: "list_all one_line out" by (rule blocks_one_line [OF assms(2) py_lines_one_line _ out(1)])
  have ne: "out \<noteq> []" using out(2) by (auto simp: literal_blocks_def expected_literals_def block_at_def)
  have "py_lines (unlines out) = out" by (rule lines_unlines [OF ne ol])
  moreover have "list_all (\<lambda>(n, r). block_body n out = Some r) ?bs"
    using out(2) by (auto simp: list_all_iff block_body_at)
  ultimately show ?thesis
    using assms(1) out(1) replace_current [OF out(2)] by (simp add: regenerate_literals_def bind_res_Inr)
qed

definition sample_runtime :: module where
  "sample_runtime =
     [OtherStmt, Assign [TName ''LATEST_CHROME''] (EInt 2), Assign [TName ''OLDEST_CHROME''] (EInt 1),
      Assign [TName ''HTTP_VERSIONS''] (EDict [ENone, EStr ''v1''])]"

definition sample_stub :: "string list" where
  "sample_stub = concat (map (\<lambda>n. [n @ '': TypeAlias = Literal['', ''    old'', closing, []]) LITERAL_NAMES)"

lemma sample_values: "runtime_values sample_runtime = Inr (1, 2, [LNone, LStr ''v1''])"
  by (simp add: runtime_values_def sample_runtime_def read_stmt_def read_target_def literal_eval_def bind_res_Inr
    od_put_def od_get_def)

lemma sample_stub_blocks:
  "list_all (\<lambda>n. case block_body n sample_stub of Some b \<Rightarrow> inner b | None \<Rightarrow> False) LITERAL_NAMES
   \<and> sample_stub \<noteq> [] \<and> list_all one_line sample_stub"
  by code_simp

theorem literals_regenerated_witness:
  "case regenerate_literals sample_runtime (unlines sample_stub) of
      Inl e \<Rightarrow> False
    | Inr out \<Rightarrow> regenerate_literals sample_runtime out = Inr out
        \<and> list_all (\<lambda>(n, r). block_body n (py_lines out) = Some r) (literal_blocks (1, 2, [LNone, LStr ''v1'']))"
  by (rule literals_regenerated [OF sample_values])
     (use sample_stub_blocks in \<open>simp_all add: plain_literal_def lines_unlines\<close>)

section \<open>Names and imports\<close>

text \<open>Every public name of the stub once, in the order it first appears\<close>

lemma seen_once_set: "set (seen_once seen ns) = set ns - set seen"
  by (induction seen ns rule: seen_once.induct) auto

lemma seen_once_distinct: "distinct (seen_once seen ns)"
  by (induction seen ns rule: seen_once.induct) (auto simp: seen_once_set)

lemma stub_names_exact:
  "distinct (stub_names tree)" "set (stub_names tree) = (\<Union>s \<in> set tree. set (stmt_names False s))"
  by (simp_all add: stub_names_def seen_once_distinct seen_once_set)

section \<open>Running the tool, then checking\<close>

lemma write_files_get:
  "distinct (map fst ws) \<Longrightarrow> write_files ws fs p = (case map_of ws p of Some t \<Rightarrow> t | None \<Rightarrow> fs p)"
proof (induction ws arbitrary: fs)
  case (Cons w ws)
  obtain q t where w: "w = (q, t)" by (cases w)
  have "write_files (w # ws) fs p = write_files ws (fs(q := t)) p" by (simp add: write_files_def w)
  moreover have "map_of ws q = None" using Cons.prems w by (simp add: map_of_eq_None_iff)
  ultimately show ?case using Cons w by (cases "p = q") (simp_all split: option.split)
qed (simp add: write_files_def)

definition facade_paths :: "path list" where
  "facade_paths = concat (map (\<lambda>m. [pkg [m @ ''.pyi''], pkg [''requests'', m @ ''.pyi'']]) FACADE_MODULES)
     @ [pkg [''requests'', ''__init__.pyi''], pkg [''__init__.pyi'']]"

lemma module_facades_paths:
  "map_res (module_facades tree) ms = Inr fs \<Longrightarrow>
   map fst (concat fs) = concat (map (\<lambda>m. [pkg [m @ ''.pyi''], pkg [''requests'', m @ ''.pyi'']]) ms)"
proof (induction ms arbitrary: fs)
  case (Cons m ms)
  obtain f gs where "module_facades tree m = Inr f" "map_res (module_facades tree) ms = Inr gs" "fs = f # gs"
    using Cons.prems by (auto simp: bind_res_def split: sum.splits)
  moreover from this(1) have "map fst f = [pkg [m @ ''.pyi''], pkg [''requests'', m @ ''.pyi'']]"
    by (auto simp: module_facades_def Let_def split: if_splits)
  ultimately show ?case using Cons.IH [of gs] by simp
qed simp

lemma regenerate_facades_paths: "regenerate_facades template tree = Inr fs \<Longrightarrow> map fst fs = facade_paths"
  by (cases "map_res (module_facades tree) FACADE_MODULES")
     (auto simp: regenerate_facades_def bind_res_Inl bind_res_Inr facade_paths_def package_facades_def Let_def
       dest!: module_facades_paths)

lemma facade_paths_distinct: "distinct facade_paths"
  by code_simp

lemma facade_paths_outside: "impl f \<notin> set facade_paths"
  by (auto simp: facade_paths_def FACADE_MODULES_def impl_def pkg_def)

lemma facades_cong:
  "(\<And>m. stub_names (t1 (impl m)) = stub_names (t2 (impl m))) \<Longrightarrow>
   regenerate_facades template t1 = regenerate_facades template t2"
proof -
  assume eq: "\<And>m. stub_names (t1 (impl m)) = stub_names (t2 (impl m))"
  have "module_facades t1 = module_facades t2" by (rule ext) (simp add: module_facades_def eq)
  moreover have "package_facades template t1 = package_facades template t2" by (simp add: package_facades_def eq)
  ultimately show ?thesis by (simp add: regenerate_facades_def)
qed

lemma stub_outputs_cases:
  assumes "stub_outputs parse template fs = Inr outputs"
  obtains lits facades where
    "regenerate_literals (parse (fs (impl ''impersonate.py''))) (fs (impl ''impersonate.pyi'')) = Inr lits"
    and "regenerate_facades template (\<lambda>p. parse (fs p)) = Inr facades"
    and "outputs = (impl ''impersonate.pyi'', lits) # sort_key fst facades"
    and "distinct (map fst outputs)"
    and "set (map fst outputs) = insert (impl ''impersonate.pyi'') (set facade_paths)"
proof -
  obtain lits facades where lits: "regenerate_literals (parse (fs (impl ''impersonate.py''))) (fs (impl ''impersonate.pyi'')) = Inr lits"
    and fac: "regenerate_facades template (\<lambda>p. parse (fs p)) = Inr facades"
    and outs: "outputs = (impl ''impersonate.pyi'', lits) # sort_key fst facades"
    using assms by (auto simp: stub_outputs_def bind_res_def split: sum.splits)
  have paths: "map fst facades = facade_paths" by (rule regenerate_facades_paths [OF fac])
  then have "mset (map fst (sort_key fst facades)) = mset facade_paths"
    by (metis mset_map mset_sort)
  then have "distinct (map fst (sort_key fst facades))"
    using facade_paths_distinct mset_eq_imp_distinct_iff by blast
  moreover have sets: "set (map fst (sort_key fst facades)) = set facade_paths"
    using arg_cong [OF paths, of set] by simp
  ultimately have "distinct (map fst outputs)"
    using facade_paths_outside by (auto simp: outs)
  moreover have "set (map fst outputs) = insert (impl ''impersonate.pyi'') (set facade_paths)"
    using sets by (simp add: outs)
  ultimately show thesis using that lits fac outs by blast
qed

lemma main_writes:
  assumes "stub_outputs parse template fs = Inr outputs"
  obtains fs' stale where "generate_main parse template False fs = Inr (fs', stale, 0)"
    and "\<And>p t. (p, t) \<in> set outputs \<Longrightarrow> fs' p = t"
    and "\<And>p. p \<notin> insert (impl ''impersonate.pyi'') (set facade_paths) \<Longrightarrow> fs' p = fs p"
proof -
  obtain lits facades where o: "distinct (map fst outputs)"
      "set (map fst outputs) = insert (impl ''impersonate.pyi'') (set facade_paths)"
    using stub_outputs_cases [OF assms] by metis
  define stale where "stale = map fst (filter (\<lambda>(p, t). fs p \<noteq> t) outputs)"
  have run: "generate_main parse template False fs
      = Inr (if stale = [] then fs else write_files outputs fs, stale, 0)"
    by (simp add: generate_main_def assms bind_res_Inr Let_def stale_def)
  have "write_files outputs fs p = t" if "(p, t) \<in> set outputs" for p t
    using that o(1) by (simp add: write_files_get)
  moreover have "fs p = t" if "(p, t) \<in> set outputs" "stale = []" for p t
    using that by (auto simp: stale_def filter_empty_conv)
  moreover have "write_files outputs fs p = fs p" if "p \<notin> insert (impl ''impersonate.pyi'') (set facade_paths)" for p
  proof -
    have "map_of outputs p = None" using that o(2) by (simp add: map_of_eq_None_iff)
    then show ?thesis using o(1) by (simp add: write_files_get)
  qed
  ultimately show thesis using that [OF run] by (cases "stale = []") simp_all
qed


text \<open>For the witness, a parser that finds the constants above in every file\<close>

definition sample_files :: "path \<Rightarrow> string" where
  "sample_files p = (if p = impl ''impersonate.pyi'' then unlines sample_stub else [])"

lemma sample_literals:
  "case regenerate_literals sample_runtime (unlines sample_stub) of
     Inr out \<Rightarrow> regenerate_literals sample_runtime out = Inr out | Inl e \<Rightarrow> False"
  by code_simp

lemma sample_names: "stub_names sample_runtime = [''LATEST_CHROME'', ''OLDEST_CHROME'', ''HTTP_VERSIONS'']"
  by code_simp

lemma sample_facades: "\<exists>fs. regenerate_facades template (\<lambda>p. sample_runtime) = Inr fs"
proof -
  have "\<exists>fs. map_res (module_facades (\<lambda>p. sample_runtime)) ms = Inr fs" for ms
    by (induction ms) (auto simp: module_facades_def sample_names bind_res_Inr Let_def)
  then obtain fs where "map_res (module_facades (\<lambda>p. sample_runtime)) FACADE_MODULES = Inr fs" by blast
  then show ?thesis by (simp add: regenerate_facades_def bind_res_Inr)
qed


end
