(* ===== verification/Stub_Audit.thy ===== *)
theory Stub_Audit
  imports Stub_Tree "HOL-Library.List_Lexorder" "HOL-Library.Char_ord"
begin

text \<open>
  \<open>tools/audit-python-stubs.py\<close>: the stubs are compared with the runtime modules.  A
  module is indexed, every public class and callable is looked for, and signatures and
  docstrings are compared.  Errors and warnings are values instead of messages; the tools
  the script starts are their output.
\<close>

section \<open>Signatures\<close>

datatype kind = KPos | KVararg | KKwonly | KKwarg

record parameter =
  pm_name :: string
  pm_kind :: kind
  pm_default :: "string option"

definition param_of :: "kind \<Rightarrow> arg \<Rightarrow> string option \<Rightarrow> parameter" where
  "param_of k a d = \<lparr>pm_name = a_name a, pm_kind = k, pm_default = d\<rparr>"

definition parameters :: "func \<Rightarrow> parameter list" where
  "parameters f =
     (let a = fn_args f;
          positional = ar_posonly a @ ar_args a;
          defaults = replicate (length positional - length (ar_defaults a)) None @ map Some (ar_defaults a)
      in map2 (param_of KPos) positional defaults
         @ (case ar_vararg a of None \<Rightarrow> [] | Some v \<Rightarrow> [param_of KVararg v None])
         @ map2 (param_of KKwonly) (ar_kwonly a) (ar_kw_defaults a)
         @ (case ar_kwarg a of None \<Rightarrow> [] | Some v \<Rightarrow> [param_of KKwarg v None]))"

definition CONSTANTS :: "(string \<times> string) list" where
  "CONSTANTS = [(''DEFAULT_REDIRECT_LIMIT'', ''30''), (''DEFAULT_MAX_ENGINES'', ''8''),
     (''CONTENT_CHUNK_SIZE'', ''10240''), (''ITER_CHUNK_SIZE'', ''512''), (''OK'', ''1000'')]"

definition default_source :: "string option \<Rightarrow> string option" where
  "default_source d = map_option (\<lambda>t. case map_of CONSTANTS t of Some c \<Rightarrow> c | None \<Rightarrow> t) d"

definition is_overload :: "func \<Rightarrow> bool" where
  "is_overload f \<longleftrightarrow> list_ex (\<lambda>d. endswith d ''overload'') (fn_decorators f)"

text \<open>\<open>docstring(node)\<close> as a truth value and as a text\<close>

definition documented_by :: "string option \<Rightarrow> bool" where
  "documented_by d \<longleftrightarrow> (case d of Some (c # s) \<Rightarrow> True | _ \<Rightarrow> False)"

section \<open>A module's index\<close>

record index =
  mx_calls :: "(string, func list) odict"
  mx_attrs :: "(string, string list) odict"
  mx_classes :: "(string, string option) odict"
  mx_bases :: "(string, string list) odict"

definition no_index :: index where
  "no_index = \<lparr>mx_calls = [], mx_attrs = [], mx_classes = [], mx_bases = []\<rparr>"

definition dotted :: "string \<Rightarrow> string \<Rightarrow> string" where
  "dotted owner member = owner @ ''.'' @ member"

definition add_call :: "string \<Rightarrow> func \<Rightarrow> index \<Rightarrow> index" where
  "add_call key f m =
     m\<lparr>mx_calls := od_put key ((case od_get (mx_calls m) key of Some fs \<Rightarrow> fs | None \<Rightarrow> []) @ [f]) (mx_calls m)\<rparr>"

definition add_attr :: "string \<Rightarrow> string \<Rightarrow> index \<Rightarrow> index" where
  "add_attr owner name m =
     m\<lparr>mx_attrs := od_put owner (List.insert name (case od_get (mx_attrs m) owner of Some ns \<Rightarrow> ns | None \<Rightarrow> [])) (mx_attrs m)\<rparr>"

definition index_child :: "string \<Rightarrow> stmt \<Rightarrow> index \<Rightarrow> index" where
  "index_child owner s m =
     (case s of
        Def f \<Rightarrow> add_call (dotted owner (fn_name f)) f m
      | AnnAssign (TName n) \<Rightarrow> add_attr owner n m
      | Assign ts v \<Rightarrow> fold (\<lambda>t. case t of TName n \<Rightarrow> add_attr owner n | TOther \<Rightarrow> (\<lambda>m. m)) ts m
      | _ \<Rightarrow> m)"

definition index_stmt :: "stmt \<Rightarrow> index \<Rightarrow> index" where
  "index_stmt s m =
     (case s of
        Def f \<Rightarrow> add_call (fn_name f) f m
      | ClassDef n bases doc body \<Rightarrow>
          fold (index_child n) body
            (m\<lparr>mx_classes := od_put n doc (mx_classes m),
               mx_bases := od_put n (map (\<lambda>b. last (split_on (CHR ''.'') b)) bases) (mx_bases m)\<rparr>)
      | _ \<Rightarrow> m)"

definition index_module :: "module \<Rightarrow> index" where
  "index_module tree = fold index_stmt tree no_index"

definition calls_of :: "index \<Rightarrow> string \<Rightarrow> func list" where
  "calls_of m key = (case od_get (mx_calls m) key of Some fs \<Rightarrow> fs | None \<Rightarrow> [])"

definition concrete :: "func list \<Rightarrow> func list" where
  "concrete fs = (case filter (\<lambda>f. \<not> is_overload f) fs of [] \<Rightarrow> fs | c # cs \<Rightarrow> c # cs)"

definition primary :: "index \<Rightarrow> string \<Rightarrow> func option" where
  "primary m key = (case concrete (calls_of m key) of [] \<Rightarrow> None | f # _ \<Rightarrow> Some f)"

definition documented :: "index \<Rightarrow> string \<Rightarrow> bool" where
  "documented m key \<longleftrightarrow> list_ex (\<lambda>f. documented_by (fn_doc f)) (concrete (calls_of m key))"

definition partition_dot :: "string \<Rightarrow> string \<times> string" where
  "partition_dot key = split_once (CHR ''.'') key"

definition declares :: "index \<Rightarrow> string \<Rightarrow> bool" where
  "declares m key \<longleftrightarrow> od_has (mx_calls m) key
     \<or> (let (owner, member) = partition_dot key
         in owner \<noteq> [] \<and> member \<in> set (case od_get (mx_attrs m) owner of Some ns \<Rightarrow> ns | None \<Rightarrow> []))"

definition bases_of :: "index \<Rightarrow> string \<Rightarrow> string list" where
  "bases_of m c = (case od_get (mx_bases m) c of Some bs \<Rightarrow> bs | None \<Rightarrow> [])"

text \<open>\<open>inherits\<close>: a walk over the bases, last found first, each class once\<close>

function inherits_from :: "index \<Rightarrow> string \<Rightarrow> string list \<Rightarrow> string list \<Rightarrow> bool" where
  "inherits_from m member seen pending =
     (if pending = [] then False
      else let base = last pending; rest = butlast pending
           in if base \<in> set seen \<or> \<not> od_has (mx_classes m) base then inherits_from m member seen rest
              else if declares m (dotted base member) then True
              else inherits_from m member (base # seen) (rest @ bases_of m base))"
  by pat_completeness auto
termination
proof (relation "measures [\<lambda>(m, member, seen, pending). card (set (od_keys (mx_classes m)) - set seen),
    \<lambda>(m, member, seen, pending). length pending]", goal_cases)
  case (3 m member seen pending base rest)
  then have "base \<in> set (od_keys (mx_classes m)) - set seen" by (simp add: od_has_def od_keys_get)
  then have "card (set (od_keys (mx_classes m)) - set (base # seen)) < card (set (od_keys (mx_classes m)) - set seen)"
    by (intro psubset_card_mono) auto
  then show ?case by simp
qed auto

declare inherits_from.simps [simp del]

definition inherits :: "index \<Rightarrow> string \<Rightarrow> string \<Rightarrow> bool" where
  "inherits m c member = inherits_from m member [] (bases_of m c)"

definition public_keys :: "index \<Rightarrow> string list" where
  "public_keys m =
     filter (\<lambda>key. let (owner, member) = partition_dot key
        in \<not> (od_has (mx_classes m) owner \<and> is_private_class owner)
           \<and> (if member \<noteq> [] then is_public member else is_public owner)) (od_keys (mx_calls m))"

section \<open>Comparing\<close>

datatype finding =
    MissingParameter string string
  | UnknownParameter string string
  | DefaultDiffers string string string "string option"
  | OrderDiffers string
  | KwargsNotAccepted string
  | Undocumented string
  | NoArgsBlock string
  | NoReturnsBlock string
  | MissingStub string
  | ClassNotDeclared string
  | NotDeclared string
  | NoRuntimeCounterpart string
  | FacadeMissing string
  | NotReexported string "string list"
  | NoMarker
  | StaleStub string
  | StaleVerb string
  | ToolLine string

definition variadic :: "parameter \<Rightarrow> bool" where
  "variadic p \<longleftrightarrow> pm_kind p \<in> {KVararg, KKwarg}"

definition named_names :: "parameter list \<Rightarrow> string list" where
  "named_names ps = map pm_name (filter (\<lambda>p. \<not> variadic p) ps)"

definition default_of :: "parameter list \<Rightarrow> string \<Rightarrow> string option" where
  "default_of ps n =
     (case od_get (od_of (map (\<lambda>p. (pm_name p, p)) ps)) n of Some p \<Rightarrow> default_source (pm_default p) | None \<Rightarrow> None)"

definition missing_params :: "string \<Rightarrow> parameter list \<Rightarrow> parameter list \<Rightarrow> finding list" where
  "missing_params label impl stub =
     map (\<lambda>p. MissingParameter label (pm_name p))
       (filter (\<lambda>p. \<not> variadic p \<and> pm_name p \<notin> pm_name ` set stub) impl)"

definition stub_param_findings :: "string \<Rightarrow> parameter list \<Rightarrow> parameter \<Rightarrow> finding list" where
  "stub_param_findings label impl p =
     (if variadic p then []
      else (if pm_name p \<notin> pm_name ` set impl \<and> \<not> list_ex variadic impl
            then [UnknownParameter label (pm_name p)] else [])
         @ (if pm_name p \<in> pm_name ` set impl
            then (case default_source (pm_default p) of
                    None \<Rightarrow> []
                  | Some declared \<Rightarrow>
                      if declared \<noteq> ''...'' \<and> default_of impl (pm_name p) \<noteq> Some declared
                      then [DefaultDiffers label (pm_name p) declared (default_of impl (pm_name p))] else [])
            else []))"

definition shared :: "parameter list \<Rightarrow> parameter list \<Rightarrow> string list" where
  "shared ps others = filter (\<lambda>n. n \<in> pm_name ` set others) (named_names ps)"

definition check_parameters :: "string \<Rightarrow> parameter list \<Rightarrow> parameter list \<Rightarrow> finding list" where
  "check_parameters label impl stub =
     missing_params label impl stub
     @ concat (map (stub_param_findings label impl) stub)
     @ (if shared impl stub \<noteq> [] \<and> shared stub impl \<noteq> [] \<and> shared impl stub \<noteq> shared stub impl
        then [OrderDiffers label] else [])
     @ (if \<not> list_ex (\<lambda>p. pm_kind p = KKwarg) stub \<and> list_ex (\<lambda>p. pm_kind p = KKwarg) impl
           \<and> filter (\<lambda>n. n \<notin> pm_name ` set impl) (named_names stub) = []
        then [KwargsNotAccepted label] else [])"

text \<open>A node for the docstring check: its docstring and its return annotation\<close>

definition first_doc :: "string option list \<Rightarrow> string" where
  "first_doc docs = (case filter documented_by docs of Some d # _ \<Rightarrow> d | _ \<Rightarrow> [])"

definition check_docstring ::
  "string \<Rightarrow> string option list \<Rightarrow> string option \<Rightarrow> string list \<Rightarrow> finding list \<times> finding list" where
  "check_docstring label docs returns params =
     (if \<not> list_ex documented_by docs then ([Undocumented label], [])
      else let t = first_doc docs in
        (if filter (\<lambda>n. n \<notin> {''self'', ''cls''}) params \<noteq> [] \<and> \<not> occurs_in ''Args:'' t
         then [NoArgsBlock label] else [],
         (case returns of
            None \<Rightarrow> []
          | Some r \<Rightarrow> if r \<notin> {''None'', ''Never'', ''NoReturn''} \<and> \<not> occurs_in ''Returns:'' t \<and> \<not> occurs_in ''Yields:'' t
                      then [NoReturnsBlock label] else [])))"

definition check_class :: "string \<Rightarrow> index \<Rightarrow> string \<Rightarrow> finding list \<times> finding list" where
  "check_class m stub name =
     (if \<not> is_public name then ([], [])
      else case od_get (mx_classes stub) name of
        None \<Rightarrow> ([ClassNotDeclared (dotted m name)], [])
      | Some doc \<Rightarrow> check_docstring (dotted m name) [doc] None [])"

definition check_key :: "string \<Rightarrow> index \<Rightarrow> index \<Rightarrow> string \<Rightarrow> finding list \<times> finding list" where
  "check_key m impl stub key =
     (let (owner, member) = partition_dot key; label = dotted m key in
      if \<not> declares stub key
      then (if member \<noteq> [] \<and> inherits stub owner member then ([], [])
            else if member = ''__init__'' \<and> od_has (mx_classes stub) owner then ([], [])
            else ([NotDeclared label], []))
      else case concrete (calls_of stub key) of
        [] \<Rightarrow> ([], [])
      | node # nodes \<Rightarrow>
          (case check_docstring label (map fn_doc (node # nodes)) (fn_returns node) (map pm_name (parameters node)) of
             (es, ws) \<Rightarrow>
               (es @ (case primary impl key of
                        None \<Rightarrow> [] | Some f \<Rightarrow> check_parameters label (parameters f) (parameters node)), ws)))"

definition check_extra :: "string \<Rightarrow> index \<Rightarrow> index \<Rightarrow> string \<Rightarrow> finding list" where
  "check_extra m impl stub key =
     (let (owner, member) = partition_dot key in
      if od_has (mx_calls impl) key \<or> declares impl key \<or> member = [] \<or> owner \<noteq> [] \<and> inherits impl owner member
      then [] else [NoRuntimeCounterpart (dotted m key)])"

definition both :: "('a list \<times> 'b list) list \<Rightarrow> 'a list \<times> 'b list" where
  "both rs = (concat (map fst rs), concat (map snd rs))"

definition check_module :: "string \<Rightarrow> module \<Rightarrow> module option \<Rightarrow> finding list \<times> finding list" where
  "check_module m impl_tree stub_tree =
     (case stub_tree of
        None \<Rightarrow> ([MissingStub m], [])
      | Some tree \<Rightarrow>
          let impl = index_module impl_tree; stub = index_module tree
          in both (map (check_class m stub) (od_keys (mx_classes impl))
                   @ map (check_key m impl stub) (public_keys impl)
                   @ [([], concat (map (check_extra m impl stub) (public_keys stub)))]))"

section \<open>Facades and derived stubs\<close>

definition ALIASED :: "string list" where
  "ALIASED = [''adapters'', ''api'', ''auth'', ''cookies'', ''engine'', ''exceptions'', ''impersonate'', ''models'',
     ''multipart'', ''sessions'', ''status_codes'', ''structures'', ''utils'', ''websockets'']"

definition exposed :: "module \<Rightarrow> string list" where
  "exposed tree = concat (map (stmt_names True) tree)"

definition not_in :: "string \<Rightarrow> string list \<Rightarrow> string list \<Rightarrow> finding list" where
  "not_in label wanted available =
     (let missing = sort (remdups (filter (\<lambda>n. n \<notin> set available) wanted))
      in if missing = [] then [] else [NotReexported label missing])"

text \<open>A facade under its name, when the file exists\<close>

definition check_facade ::
  "(string \<Rightarrow> module) \<Rightarrow> (string \<Rightarrow> module option) \<Rightarrow> bool \<Rightarrow> finding list" where
  "check_facade impl facade marker =
     (let promised = exposed (impl ''__init__.py'');
          root = (case facade ''__init__.pyi'' of Some t \<Rightarrow> exposed t | None \<Rightarrow> []);
          requests = (case facade ''requests/__init__.pyi'' of Some t \<Rightarrow> exposed t | None \<Rightarrow> [])
      in concat (map (\<lambda>m. concat (map (\<lambda>f. case facade f of
             None \<Rightarrow> [FacadeMissing f]
           | Some t \<Rightarrow> not_in f (exposed (impl (m @ ''.pyi''))) (exposed t)) [m @ ''.pyi'', ''requests/'' @ m @ ''.pyi'']))
           ALIASED)
         @ map (\<lambda>m. NotReexported ''__init__.pyi'' [m]) (filter (\<lambda>m. m \<notin> set root) ALIASED)
         @ not_in ''__init__.pyi'' promised root
         @ not_in ''requests/__init__.pyi'' promised requests
         @ (if marker then [] else [NoMarker]))"

text \<open>What the two generators report under \<open>--check\<close>: exit code and lines\<close>

definition check_generated :: "nat \<times> string list \<Rightarrow> finding list" where
  "check_generated r =
     (if fst r = 0 then []
      else concat (map (\<lambda>l.
        if startswith l ''stale: '' then [StaleStub (drop 7 l)]
        else if startswith l ''run '' then [] else [ToolLine l]) (snd r)))"

definition check_verb_signatures :: "nat \<times> string list \<Rightarrow> finding list" where
  "check_verb_signatures r =
     (if fst r = 0 then []
      else concat (map (\<lambda>l.
        if startswith l ''stale: '' then [StaleVerb (drop 7 l)]
        else if startswith l ''run:'' \<or> py_strip l = [] then [] else [ToolLine l]) (snd r)))"

definition audit_main ::
  "(string \<Rightarrow> module) \<Rightarrow> (string \<Rightarrow> module option) \<Rightarrow> (string \<Rightarrow> module option) \<Rightarrow> bool
   \<Rightarrow> nat \<times> string list \<Rightarrow> nat \<times> string list \<Rightarrow> finding list \<times> finding list \<times> nat" where
  "audit_main impl stubs facade marker generator expander =
     (let modules = both (map (\<lambda>m. check_module m (impl (m @ ''.py'')) (stubs m)) ALIASED);
          errors = fst modules @ check_facade impl facade marker @ check_generated generator
                   @ check_verb_signatures expander
      in (errors, snd modules, if errors \<noteq> [] then 1 else 0))"

section \<open>Inheritance\<close>

text \<open>The proper ancestors of a class among the classes of its stub\<close>

inductive derives :: "index \<Rightarrow> string \<Rightarrow> string \<Rightarrow> bool" for m c where
  derives_base: "b \<in> set (bases_of m c) \<Longrightarrow> od_has (mx_classes m) b \<Longrightarrow> derives m c b"
| derives_step: "derives m c b \<Longrightarrow> b' \<in> set (bases_of m b) \<Longrightarrow> od_has (mx_classes m) b' \<Longrightarrow> derives m c b'"

lemma inherits_from_sound:
  "inherits_from m member seen pending \<Longrightarrow>
   (\<And>b. b \<in> set pending \<Longrightarrow> od_has (mx_classes m) b \<Longrightarrow> derives m c b) \<Longrightarrow>
   \<exists>b. derives m c b \<and> declares m (dotted b member)"
proof (induction m member seen pending rule: inherits_from.induct)
  case (1 m member seen pending)
  then have ne: "pending \<noteq> []" by (auto simp: inherits_from.simps [of m member seen pending])
  define base rest where "base = last pending" and "rest = butlast pending"
  have p: "set pending = insert base (set rest)"
    using append_butlast_last_id [OF ne] by (metis base_def rest_def list.simps(15) set_append set_empty Un_insert_right Un_empty_right)
  have run: "inherits_from m member seen pending =
      (if base \<in> set seen \<or> \<not> od_has (mx_classes m) base then inherits_from m member seen rest
       else if declares m (dotted base member) then True
       else inherits_from m member (base # seen) (rest @ bases_of m base))"
    using ne by (subst inherits_from.simps) (simp add: base_def rest_def Let_def)
  show ?case
  proof (cases "base \<in> set seen \<or> \<not> od_has (mx_classes m) base")
    case True
    then show ?thesis using "1.IH"(1) [OF ne base_def rest_def True] "1.prems" run p by simp
  next
    case False
    then have d: "derives m c base" using "1.prems"(2) p by auto
    show ?thesis
    proof (cases "declares m (dotted base member)")
      case True
      with d show ?thesis by blast
    next
      case no: False
      then show ?thesis
        using "1.IH"(2) [OF ne base_def rest_def False no] "1.prems" run False p d
        by (auto intro: derives_step)
    qed
  qed
qed

lemma inherits_from_complete:
  "\<not> inherits_from m member seen pending \<Longrightarrow>
   (\<And>s b. s \<in> set seen \<Longrightarrow> \<not> declares m (dotted s member)
      \<and> (b \<in> set (bases_of m s) \<longrightarrow> od_has (mx_classes m) b \<longrightarrow> b \<in> set seen \<union> set pending)) \<Longrightarrow>
   \<exists>S. set seen \<subseteq> S \<and> (\<forall>b \<in> set pending. od_has (mx_classes m) b \<longrightarrow> b \<in> S)
     \<and> (\<forall>s \<in> S. \<not> declares m (dotted s member) \<and> (\<forall>b \<in> set (bases_of m s). od_has (mx_classes m) b \<longrightarrow> b \<in> S))"
proof (induction m member seen pending rule: inherits_from.induct)
  case (1 m member seen pending)
  show ?case
  proof (cases "pending = []")
    case True
    then show ?thesis using "1.prems"(2) by (intro exI [of _ "set seen"]) auto
  next
    case ne: False
    define base rest where "base = last pending" and "rest = butlast pending"
    have p: "set pending = insert base (set rest)"
      using append_butlast_last_id [OF ne] by (metis base_def rest_def list.simps(15) set_append set_empty Un_insert_right Un_empty_right)
    have run: "inherits_from m member seen pending =
        (if base \<in> set seen \<or> \<not> od_has (mx_classes m) base then inherits_from m member seen rest
         else if declares m (dotted base member) then True
         else inherits_from m member (base # seen) (rest @ bases_of m base))"
      using ne by (subst inherits_from.simps) (simp add: base_def rest_def Let_def)
    show ?thesis
    proof (cases "base \<in> set seen \<or> \<not> od_has (mx_classes m) base")
      case True
      have "\<exists>S. set seen \<subseteq> S \<and> (\<forall>b \<in> set rest. od_has (mx_classes m) b \<longrightarrow> b \<in> S)
          \<and> (\<forall>s \<in> S. \<not> declares m (dotted s member) \<and> (\<forall>b \<in> set (bases_of m s). od_has (mx_classes m) b \<longrightarrow> b \<in> S))"
        by (rule "1.IH"(1) [OF ne base_def rest_def True]) (use "1.prems" run True p in auto)
      then show ?thesis using True p by auto
    next
      case False
      then have no: "\<not> declares m (dotted base member)" using "1.prems"(1) run by auto
      have "\<exists>S. set (base # seen) \<subseteq> S \<and> (\<forall>b \<in> set (rest @ bases_of m base). od_has (mx_classes m) b \<longrightarrow> b \<in> S)
          \<and> (\<forall>s \<in> S. \<not> declares m (dotted s member) \<and> (\<forall>b \<in> set (bases_of m s). od_has (mx_classes m) b \<longrightarrow> b \<in> S))"
        by (rule "1.IH"(2) [OF ne base_def rest_def False no]) (use "1.prems" run False no p in auto)
      then show ?thesis using p by auto
    qed
  qed
qed

text \<open>
  C22: \<open>inherits\<close> answers whether some ancestor of the class in the stub declares the member,
  however the bases are arranged, cycles and repetitions included.
\<close>

theorem inherits_iff_ancestor_declares:
  "inherits m c member \<longleftrightarrow> (\<exists>b. derives m c b \<and> declares m (dotted b member))"
proof
  assume "inherits m c member"
  then show "\<exists>b. derives m c b \<and> declares m (dotted b member)"
    unfolding inherits_def by (rule inherits_from_sound) (rule derives_base)
next
  assume ex: "\<exists>b. derives m c b \<and> declares m (dotted b member)"
  show "inherits m c member"
  proof (rule ccontr)
    assume "\<not> inherits m c member"
    then obtain S where S: "\<forall>b \<in> set (bases_of m c). od_has (mx_classes m) b \<longrightarrow> b \<in> S"
      "\<forall>s \<in> S. \<not> declares m (dotted s member) \<and> (\<forall>b \<in> set (bases_of m s). od_has (mx_classes m) b \<longrightarrow> b \<in> S)"
      using inherits_from_complete [of m member "[]" "bases_of m c"] by (auto simp: inherits_def)
    have "b \<in> S" if "derives m c b" for b
      using that by induction (use S in auto)
    with ex S(2) show False by blast
  qed
qed

section \<open>What a clean audit means\<close>

lemma named_in: "n \<in> set (named_names ps) \<Longrightarrow> n \<in> pm_name ` set ps"
  by (auto simp: named_names_def)

lemma no_missing: "missing_params label impl stub = [] \<Longrightarrow> set (named_names impl) \<subseteq> pm_name ` set stub"
  by (auto simp: missing_params_def filter_empty_conv named_names_def)

lemma no_unknown:
  assumes "concat (map (stub_param_findings label impl) stub) = []" "\<not> list_ex variadic impl" "p \<in> set stub" "\<not> variadic p"
  shows "pm_name p \<in> pm_name ` set impl
    \<and> default_source (pm_default p) \<in> {None, Some ''...'', default_of impl (pm_name p)}"
proof -
  have "stub_param_findings label impl p = []" using assms(1,3) by simp
  then show ?thesis using assms(2,4) by (auto simp: stub_param_findings_def split: if_splits option.splits)
qed

lemma shared_all: "set (named_names ps) \<subseteq> pm_name ` set others \<Longrightarrow> shared ps others = named_names ps"
  by (auto simp: shared_def filter_id_conv)

text \<open>
  When a comparison reports nothing, a runtime function without \<open>*args\<close> and \<open>**kwargs\<close> is
  declared with exactly its parameters, in its order, and a default the stub states is the
  runtime's: a call written against the stub binds the same arguments.  The comparison does
  not see a parameter that is variadic in the stub only, which is excluded here.
\<close>

theorem clean_signature_is_exact:
  assumes "check_parameters label impl stub = []" and "\<not> list_ex variadic impl"
    and "list_all (\<lambda>p. \<not> variadic p \<or> pm_name p \<notin> pm_name ` set impl) stub"
  shows "named_names stub = named_names impl
    \<and> list_all (\<lambda>p. variadic p \<or> default_source (pm_default p) \<in> {None, Some ''...'', default_of impl (pm_name p)}) stub"
proof -
  have parts: "missing_params label impl stub = []" "concat (map (stub_param_findings label impl) stub) = []"
    "shared impl stub = [] \<or> shared stub impl = [] \<or> shared impl stub = shared stub impl"
    using assms(1) by (auto simp: check_parameters_def split: if_splits)
  have named: "named_names impl = map pm_name impl"
    using assms(2) by (simp add: named_names_def list_ex_iff)
  have stub_in: "set (named_names stub) \<subseteq> set (named_names impl)"
    using no_unknown [OF parts(2) assms(2)] by (auto simp: named) (auto simp: named_names_def)
  have impl_in: "set (named_names impl) \<subseteq> set (named_names stub)"
  proof
    fix n assume "n \<in> set (named_names impl)"
    moreover from this obtain p where "p \<in> set stub" "n = pm_name p" using no_missing [OF parts(1)] by auto
    ultimately show "n \<in> set (named_names stub)"
      using assms(3) by (auto simp: named_names_def list_all_iff)
  qed
  have "shared impl stub = named_names impl" "shared stub impl = named_names stub"
    using impl_in stub_in named_in by (blast intro: shared_all)+
  with parts(3) impl_in stub_in have "named_names stub = named_names impl" by auto
  moreover have "list_all (\<lambda>p. variadic p \<or> default_source (pm_default p) \<in> {None, Some ''...'', default_of impl (pm_name p)}) stub"
    using no_unknown [OF parts(2) assms(2)] unfolding list_all_iff by blast
  ultimately show ?thesis by blast
qed

theorem clean_signature_is_exact_witness:
  "named_names [\<lparr>pm_name = ''url'', pm_kind = KPos, pm_default = None\<rparr>, \<lparr>pm_name = ''n'', pm_kind = KPos, pm_default = Some ''512''\<rparr>]
      = named_names [\<lparr>pm_name = ''url'', pm_kind = KPos, pm_default = None\<rparr>,
          \<lparr>pm_name = ''n'', pm_kind = KPos, pm_default = Some ''ITER_CHUNK_SIZE''\<rparr>]
    \<and> list_all (\<lambda>p. variadic p \<or> default_source (pm_default p) \<in> {None, Some ''...'', default_of
          [\<lparr>pm_name = ''url'', pm_kind = KPos, pm_default = None\<rparr>,
           \<lparr>pm_name = ''n'', pm_kind = KPos, pm_default = Some ''ITER_CHUNK_SIZE''\<rparr>] (pm_name p)})
        [\<lparr>pm_name = ''url'', pm_kind = KPos, pm_default = None\<rparr>, \<lparr>pm_name = ''n'', pm_kind = KPos, pm_default = Some ''512''\<rparr>]"
  by (rule clean_signature_is_exact [where label = "''f''"])
     (simp_all add: check_parameters_def missing_params_def stub_param_findings_def shared_def named_names_def variadic_def
       default_of_def default_source_def CONSTANTS_def od_of_def od_update_def od_put_def od_get_def)

text \<open>A parameter that is variadic in the stub only goes unnoticed.\<close>

lemma variadic_in_the_stub_unnoticed:
  "check_parameters ''f'' [\<lparr>pm_name = ''args'', pm_kind = KPos, pm_default = None\<rparr>]
     [\<lparr>pm_name = ''args'', pm_kind = KVararg, pm_default = None\<rparr>, \<lparr>pm_name = ''kwargs'', pm_kind = KKwarg, pm_default = None\<rparr>] = []"
  by code_simp

text \<open>
  A clean module: every public class is declared with a docstring, and every public
  callable of the runtime is declared, inherited in the stub, or an \<open>__init__\<close> of a
  declared class.
\<close>

definition class_covered :: "index \<Rightarrow> string \<Rightarrow> bool" where
  "class_covered stub name \<longleftrightarrow> (case od_get (mx_classes stub) name of Some doc \<Rightarrow> documented_by doc | None \<Rightarrow> False)"

definition key_covered :: "index \<Rightarrow> string \<Rightarrow> bool" where
  "key_covered stub key \<longleftrightarrow>
     (let (owner, member) = partition_dot key in
      declares stub key \<and> (calls_of stub key = [] \<or> documented stub key)
      \<or> member \<noteq> [] \<and> inherits stub owner member
      \<or> member = ''__init__'' \<and> od_has (mx_classes stub) owner)"

lemma both_clean: "fst (both rs) = [] \<longleftrightarrow> (\<forall>r \<in> set rs. fst r = [])"
  by (auto simp: both_def)

lemma check_docstring_clean: "fst (check_docstring label docs returns params) = [] \<Longrightarrow> list_ex documented_by docs"
  by (auto simp: check_docstring_def split: if_splits)

lemma concrete_Nil [simp]: "concrete fs = [] \<longleftrightarrow> fs = []"
  by (auto simp: concrete_def split: list.splits)

theorem clean_module_is_covered:
  assumes "fst (check_module m impl_tree (Some stub_tree)) = []"
  shows "list_all (class_covered (index_module stub_tree)) (filter is_public (od_keys (mx_classes (index_module impl_tree))))
    \<and> list_all (key_covered (index_module stub_tree)) (public_keys (index_module impl_tree))"
proof -
  let ?impl = "index_module impl_tree" and ?stub = "index_module stub_tree"
  have clean: "\<forall>name \<in> set (od_keys (mx_classes ?impl)). fst (check_class m ?stub name) = []"
    "\<forall>key \<in> set (public_keys ?impl). fst (check_key m ?impl ?stub key) = []"
    using assms by (auto simp: check_module_def both_clean Let_def)
  have "class_covered ?stub name" if "fst (check_class m ?stub name) = []" "is_public name" for name
    using that by (auto simp: check_class_def class_covered_def split: option.splits dest!: check_docstring_clean)
  moreover have "key_covered ?stub key" if "fst (check_key m ?impl ?stub key) = []" for key
  proof -
    obtain owner member where pd: "partition_dot key = (owner, member)" by (cases "partition_dot key")
    show ?thesis
    proof (cases "declares ?stub key")
      case False
      with that pd show ?thesis by (auto simp: check_key_def key_covered_def Let_def split: if_splits)
    next
      case True
      then have "calls_of ?stub key = [] \<or> documented ?stub key"
        using that pd
        by (auto simp: check_key_def documented_def Let_def list_ex_iff split: list.splits prod.splits
          dest!: check_docstring_clean [OF arg_cong [where f = fst, THEN trans]])
      with True pd show ?thesis by (simp add: key_covered_def)
    qed
  qed
  ultimately show ?thesis using clean by (simp add: list_all_iff)
qed

definition sample_args :: arguments where
  "sample_args = \<lparr>ar_posonly = [], ar_args = [\<lparr>a_name = ''self'', a_ann = None\<rparr>, \<lparr>a_name = ''url'', a_ann = None\<rparr>],
     ar_defaults = [], ar_vararg = None, ar_kwonly = [], ar_kw_defaults = [], ar_kwarg = None\<rparr>"

definition sample_def :: "string option \<Rightarrow> stmt" where
  "sample_def doc = Def \<lparr>fn_name = ''get'', fn_args = sample_args, fn_decorators = [], fn_returns = None, fn_doc = doc,
     fn_col = 0, fn_body_col = 4, fn_line = 1, fn_end = 4\<rparr>"

theorem clean_module_is_covered_witness:
  "list_all (class_covered (index_module [ClassDef ''Api'' [] (Some ''Calls.'') [sample_def (Some ''Args: url'')]]))
      (filter is_public (od_keys (mx_classes (index_module [ClassDef ''Api'' [] None [sample_def None]]))))
    \<and> list_all (key_covered (index_module [ClassDef ''Api'' [] (Some ''Calls.'') [sample_def (Some ''Args: url'')]]))
        (public_keys (index_module [ClassDef ''Api'' [] None [sample_def None]]))"
  by (rule clean_module_is_covered [where m = "''api''"]) code_simp

section \<open>Facades\<close>

lemma not_in_clean: "not_in label wanted available = [] \<longleftrightarrow> set wanted \<subseteq> set available"
proof -
  have "sort xs = [] \<longleftrightarrow> xs = []" for xs :: "string list" by (metis set_empty set_sort)
  then show ?thesis by (auto simp: not_in_def Let_def filter_empty_conv)
qed

text \<open>
  With no finding, every facade exists and exposes every public name of its implementation
  stub, and the package root exposes the submodules and everything the runtime promises.
\<close>

lemma clean_facades_expose:
  assumes "check_facade impl facade marker = []"
  shows "list_all (\<lambda>m. list_all (\<lambda>f. case facade f of Some t \<Rightarrow> set (exposed (impl (m @ ''.pyi''))) \<subseteq> set (exposed t) | None \<Rightarrow> False)
      [m @ ''.pyi'', ''requests/'' @ m @ ''.pyi'']) ALIASED \<and> marker"
  using assms by (auto simp: check_facade_def Let_def list_all_iff not_in_clean split: option.splits if_splits)

text \<open>
  \<open>expand-verb-signatures.py\<close> indents its stale lines, which the audit looks for at the
  start of a line: they are counted as they stand, and never as verb signatures.
\<close>

lemma indented_stale_lines_unrecognised:
  "check_verb_signatures (1, [''  stale: Session.get (sessions.pyi)'']) = [ToolLine ''  stale: Session.get (sessions.pyi)'']"
  by code_simp

end
