(* ===== verification/Evidence.thy ===== *)
theory Evidence
  imports Exceptions Py_Regex "HOL-Library.List_Lexorder" "HOL-Library.Char_ord"
begin

text \<open>
  Three of the \<open>tools\<close>: \<open>collect-profile-evidence.py\<close> (what a profile's parameters rest
  on, from the release's sources), \<open>version.py\<close> (the one carrier of the version) and
  \<open>audit-net-error-names.py\<close> (the table of \<open>exceptions.py\<close> against Chromium's header).
  The network is the reply to each attempt; the SHA-256 digest, base64 and the decoding of
  a file's bytes are arguments.
\<close>

section \<open>Files and markers\<close>

definition FILES :: "(string \<times> string \<times> string) list" where
  "FILES =
    [(''boringssl_extensions'', ''boringssl'', ''ssl/extensions.cc''),
     (''boringssl_handshake_client'', ''boringssl'', ''ssl/handshake_client.cc''),
     (''boringssl_random'', ''boringssl'', ''crypto/rand/rand.cc''),
     (''chromium_base_random'', ''chromium'', ''base/rand_util.cc''),
     (''quiche_random'', ''quiche'', ''quiche/common/quiche_random.cc''),
     (''alpn'', ''chromium'', ''net/http/http_network_session.cc''),
     (''features'', ''chromium'', ''net/base/features.cc''),
     (''http2'', ''chromium'', ''net/spdy/spdy_session.cc''),
     (''http3'', ''chromium'', ''net/quic/quic_chromium_client_session.cc''),
     (''quiche_h3'', ''quiche'', ''quiche/quic/core/quic_config.cc''),
     (''tls'', ''chromium'', ''net/socket/ssl_client_socket_impl.cc''),
     (''websocket'', ''chromium'', ''net/websockets/websocket_basic_handshake_stream.cc'')]"

type_synonym markers = "(string \<times> regex) list"

definition anyI :: "string list \<Rightarrow> regex" where
  "anyI ws = Alts (map LitI ws)"

definition RANDOM_MARKERS :: markers where
  "RANDOM_MARKERS =
    [(''csprng'', anyI [''RAND_bytes'', ''RAND_priv_bytes'', ''GetRandBytes'', ''RandomBytes'']),
     (''grease'', anyI [''grease'', ''GREASE'']),
     (''extension_permutation'', Alts [LitI ''permute_extensions'',
        Seqs [LitI ''permut'', Upto 12 Dot, LitI ''extension''], LitI ''extension_permutation'']),
     (''key_share'', Alts [Seqs [LitI ''key'', Opt Dot, LitI ''share''], LitI ''key_shares'', LitI ''supported_groups'']),
     (''quic_random'', Alts [LitI ''QuicRandom'', LitI ''QuicheRandom'',
        Seqs [LitI ''Generate'', Star Dot, LitI ''Random''], LitI ''RandUint''])]"

definition PROTOCOL_MARKERS :: "(string \<times> markers) list" where
  "PROTOCOL_MARKERS =
    [(''tls'',
       [(''alpn'', anyI [''ALPN'', ''alpn_protos'', ''SerializeNextProtos'']),
        (''ech'', anyI [''ECH'', ''ech_'']),
        (''grease'', anyI [''grease'', ''GREASE'']),
        (''groups'', anyI [''supported_groups'', ''key_shares'', ''SSL_set1_group'']),
        (''alps'', anyI [''ALPS'', ''application_settings'']),
        (''ticket'', anyI [''session_ticket'', ''ticket'']),
        (''compression'', Alts [Seqs [LitI ''cert'', Star Dot, LitI ''compress''], LitI ''compression''])]),
     (''alpn'',
       [(''h1'', anyI [''HTTP/1'', ''kProtoHTTP11'', ''HTTP11'']),
        (''h2'', anyI [''HTTP/2'', ''kProtoHTTP2'', ''HTTP2'']),
        (''h3'', anyI [''HTTP/3'', ''kProtoHTTP3'', ''HTTP3'']),
        (''alpn'', anyI [''ALPN'', ''GetAlpnProtos'', ''NextProto''])]),
     (''http2'',
       [(''settings'', anyI [''SETTINGS'', ''settings'']),
        (''window'', anyI [''WINDOW'', ''window'', ''flow control'']),
        (''priority'', anyI [''priority'', ''PRIORITY'', ''exclusive'']),
        (''pseudo_headers'', anyI [''pseudo'', '':method'', '':authority'', '':scheme'', '':path'']),
        (''connect'', anyI [''CONNECT_PROTOCOL'', ''extended CONNECT'', ''connect''])]),
     (''http3'',
       [(''transport'', anyI [''transport'', ''TransportParameter'']),
        (''settings'', anyI [''SETTINGS'', ''settings'']),
        (''flow_control'', Alts [Seqs [LitI ''flow'', Dot, LitI ''control''], LitI ''window'']),
        (''connection_id'', Alts [Seqs [LitI ''connection'', Dot, LitI ''id''], LitI ''ConnectionId'']),
        (''grease'', anyI [''grease'', ''GREASE'']),
        (''websocket'', anyI [''websocket'', ''WebSocket'', ''CONNECT''])]),
     (''websocket'',
       [(''upgrade'', anyI [''Upgrade'', ''upgrade'']),
        (''origin'', anyI [''Origin'', ''origin'']),
        (''sec_headers'', anyI [''Sec-WebSocket'', ''sec-websocket'']),
        (''connect'', anyI [''CONNECT'', ''connect'']),
        (''extensions'', anyI [''extension'', ''Extension''])]),
     (''features'',
       [(''base_feature'', anyI [''BASE_FEATURE'', ''BASE_DECLARE_FEATURE'']),
        (''quic'', anyI [''QUIC'', ''QUICHE'', ''HTTP3'']),
        (''tls'', anyI [''ECH'', ''ALPS'', ''TLS'', ''certificate'']),
        (''http2'', anyI [''HTTP2'', ''HTTP/2'', ''SPDY'']),
        (''websocket'', anyI [''WebSocket'', ''WEBSOCKET'']),
        (''variation'', Alts [LitI ''variation'', Seqs [LitI ''field'', Dot, LitI ''trial''], LitI ''Finch''])]),
     (''quiche_h3'',
       [(''transport'', anyI [''TransportParameter'', ''transport_parameter'', ''idle_timeout'']),
        (''settings'', anyI [''SETTINGS'', ''settings'']),
        (''flow_control'', Alts [Seqs [LitI ''flow'', Dot, LitI ''control''], LitI ''window'']),
        (''connection_id'', Alts [Seqs [LitI ''connection'', Dot, LitI ''id''], LitI ''ConnectionId'']),
        (''grease'', anyI [''grease'', ''GREASE''])])]"

definition MARKERS_FOR_FILE :: "string \<Rightarrow> markers option" where
  "MARKERS_FOR_FILE name =
     (if name \<in> {''boringssl_extensions'', ''boringssl_handshake_client'', ''boringssl_random'',
         ''chromium_base_random'', ''quiche_random''}
      then Some RANDOM_MARKERS else map_of PROTOCOL_MARKERS name)"

section \<open>Fetching\<close>

text \<open>The reply to one attempt, and what comes of a fetch\<close>

datatype attempt_reply = Payload string | HttpStatus nat | TransportError

datatype fetched = Blob string | NotThere | BadPayload | GaveUp nat

definition unwrap :: "(string \<Rightarrow> string option) \<Rightarrow> string \<Rightarrow> fetched" where
  "unwrap b64 payload =
     (let body = (if startswith payload ('')]}'' @ [CHR 0x27])
                  then (if CHR 0x0a \<in> set payload then Some (snd (split_once (CHR 0x0a) payload)) else None)
                  else Some payload)
      in case body of None \<Rightarrow> BadPayload
         | Some b \<Rightarrow> (case b64 b of Some x \<Rightarrow> Blob x | None \<Rightarrow> BadPayload))"

text \<open>The attempts from the given one on, and the sleeps between them\<close>

fun fetch_from :: "(string \<Rightarrow> string option) \<Rightarrow> (nat \<Rightarrow> attempt_reply) \<Rightarrow> nat \<Rightarrow> nat \<Rightarrow> nat \<Rightarrow> fetched \<times> nat list" where
  "fetch_from b64 replies attempts attempt 0 = (GaveUp attempts, [])"
| "fetch_from b64 replies attempts attempt (Suc left) =
     (case replies attempt of
        Payload p \<Rightarrow> (unwrap b64 p, [])
      | r \<Rightarrow>
          if r = HttpStatus 404 then (NotThere, [])
          else (case fetch_from b64 replies attempts (attempt + 1) left of
                  (res, sleeps) \<Rightarrow> (res, if left > 0 then 2 ^ attempt # sleeps else sleeps)))"

definition fetch :: "(string \<Rightarrow> string option) \<Rightarrow> nat \<Rightarrow> (nat \<Rightarrow> attempt_reply) \<Rightarrow> fetched \<times> nat list" where
  "fetch b64 attempts replies = fetch_from b64 replies attempts 0 attempts"

definition DEFAULT_ATTEMPTS :: nat where
  "DEFAULT_ATTEMPTS = 5"

section \<open>Signals\<close>

definition numbered :: "string list \<Rightarrow> (nat \<times> string) list" where
  "numbered lines = zip [1..<length lines + 1] lines"

definition hits :: "regex \<Rightarrow> string \<Rightarrow> nat list" where
  "hits r t = map fst (filter (\<lambda>(i, line). rx_search r line \<noteq> None) (numbered (splitlines t)))"

definition signal_lines :: "string \<Rightarrow> markers \<Rightarrow> (string \<times> nat \<times> nat list) list" where
  "signal_lines t markers = map (\<lambda>(name, r). (name, length (hits r t), take 32 (hits r t))) markers"

section \<open>Collecting a release\<close>

definition hex_digit :: "char \<Rightarrow> bool" where
  "hex_digit c \<longleftrightarrow> 48 \<le> cp c \<and> cp c \<le> 57 \<or> 97 \<le> cp c \<and> cp c \<le> 102"

definition quote1 :: string where
  "quote1 = [CHR 0x27]"

definition revision_pattern :: "string \<Rightarrow> regex" where
  "revision_pattern name =
     Seqs [Lit (quote1 @ name @ quote1 @ '':''), Star (Sym py_isspace), Lit quote1, Group (Times 40 (Sym hex_digit)), Lit quote1]"

datatype collect_error = NoRevision string | FetchFailed fetched

definition deps_revision :: "string \<Rightarrow> string \<Rightarrow> collect_error + string" where
  "deps_revision deps name =
     (case rx_search (revision_pattern name) deps of
        Some (revision # _, m, rest) \<Rightarrow> Inr revision | _ \<Rightarrow> Inl (NoRevision name))"

record source_file =
  sf_repository :: string
  sf_path :: string
  sf_bytes :: nat
  sf_digest :: string
  sf_signals :: "(string \<times> nat \<times> nat list) list"

record release =
  rl_tag :: string
  rl_boringssl :: string
  rl_quiche :: string
  rl_files :: "(string \<times> source_file) list"

text \<open>\<open>web\<close> is the outcome of a fetch by repository, reference and path.\<close>

definition blob_of :: "fetched \<Rightarrow> collect_error + string" where
  "blob_of f = (case f of Blob b \<Rightarrow> Inr b | _ \<Rightarrow> Inl (FetchFailed f))"

definition collect ::
  "(string \<Rightarrow> string) \<Rightarrow> (string \<Rightarrow> string) \<Rightarrow> (string \<Rightarrow> string \<Rightarrow> string \<Rightarrow> fetched) \<Rightarrow> string
   \<Rightarrow> collect_error + release" where
  "collect decode sha256 web tag =
     (let tag_ref = ''refs/tags/'' @ tag in
      bind_res (blob_of (web ''chromium'' tag_ref ''DEPS'')) (\<lambda>deps.
      bind_res (deps_revision (decode deps) ''boringssl_revision'') (\<lambda>boringssl.
      bind_res (deps_revision (decode deps) ''quiche_revision'') (\<lambda>quiche.
      bind_res (map_res (\<lambda>(name, repo, path).
          bind_res (blob_of (web repo (if repo = ''boringssl'' then boringssl else if repo = ''quiche'' then quiche else tag_ref) path))
            (\<lambda>blob. Inr (name,
              \<lparr>sf_repository = repo, sf_path = path, sf_bytes = length blob, sf_digest = sha256 blob,
               sf_signals = signal_lines (decode blob) (case MARKERS_FOR_FILE name of Some m \<Rightarrow> m | None \<Rightarrow> [])\<rparr>))) FILES)
        (\<lambda>files. Inr \<lparr>rl_tag = tag, rl_boringssl = boringssl, rl_quiche = quiche, rl_files = files\<rparr>)))))"

text \<open>The comparison of several releases\<close>

record comparison =
  cm_tags :: "string list"
  cm_identical :: "string list"
  cm_differing :: "string list"
  cm_stable :: bool

definition digest_of :: "release \<Rightarrow> string \<Rightarrow> string option" where
  "digest_of r name = map_option sf_digest (map_of (rl_files r) name)"

definition same_everywhere :: "release list \<Rightarrow> string \<Rightarrow> bool" where
  "same_everywhere rs name \<longleftrightarrow> length (remdups (map (\<lambda>r. digest_of r name) rs)) = 1"

definition compare_releases :: "(string, release) odict \<Rightarrow> comparison" where
  "compare_releases collected =
     (let rs = map snd collected;
          identical = filter (same_everywhere rs) (map fst FILES);
          differing = filter (\<lambda>n. \<not> same_everywhere rs n) (map fst FILES)
      in \<lparr>cm_tags = od_keys collected, cm_identical = sort identical, cm_differing = sort differing,
          cm_stable = (differing = [])\<rparr>)"

definition collect_all ::
  "(string \<Rightarrow> string) \<Rightarrow> (string \<Rightarrow> string) \<Rightarrow> (string \<Rightarrow> string \<Rightarrow> string \<Rightarrow> fetched) \<Rightarrow> string list
   \<Rightarrow> collect_error + (string, release) odict \<times> comparison option" where
  "collect_all decode sha256 web tags =
     bind_res (map_res (\<lambda>t. bind_res (collect decode sha256 web t) (\<lambda>r. Inr (t, r))) tags) (\<lambda>rs.
       let collected = od_of rs
       in Inr (collected, if 1 < length collected then Some (compare_releases collected) else None))"

section \<open>The workspace version\<close>

text \<open>
  The pattern of \<open>version.py\<close>: a line with the table's name, then, lazily, the first line
  that starts with \<open>version = "..."\<close>.  \<open>bol\<close> lists the texts after the line feeds.
\<close>

fun bol :: "string \<Rightarrow> string list" where
  "bol [] = []"
| "bol (c # s) = (if c = CHR 0x0a then s # bol s else bol s)"

definition version_line :: regex where
  "version_line = Seqs [Lit ''version'', Star (Sym py_isspace), Lit ''='', Star (Sym py_isspace), Lit [CHR 0x22],
     Group (Plus (Sym (\<lambda>c. c \<noteq> CHR 0x22))), Lit [CHR 0x22]]"

definition group_at :: "regex \<Rightarrow> string \<Rightarrow> string option" where
  "group_at r s = (case rx_at r s of Some (g # gs, m, rest) \<Rightarrow> Some g | _ \<Rightarrow> None)"

fun first_some :: "'a option list \<Rightarrow> 'a option" where
  "first_some [] = None"
| "first_some (x # xs) = (case x of Some y \<Rightarrow> Some y | None \<Rightarrow> first_some xs)"

definition TABLE :: string where
  "TABLE = ''[workspace.package]''"

text \<open>Behind the name only white space may follow on its line.\<close>

definition header_version :: "string \<Rightarrow> string option" where
  "header_version s =
     (if startswith s TABLE
      then let r = drop (length TABLE) s; w = takeWhile py_isspace r
           in if CHR 0x0a \<in> set w then first_some (map (group_at version_line) (bol r)) else None
      else None)"

definition workspace_version :: "string \<Rightarrow> string option" where
  "workspace_version t = first_some (map header_version (t # bol t))"

definition three_components :: regex where
  "three_components = Seqs [Plus (Sym ascii_digit), Lit ''.'', Plus (Sym ascii_digit), Lit ''.'', Plus (Sym ascii_digit)]"

datatype version_result = NoVersion | NotARelease string | Version string

definition version_main :: "bool \<Rightarrow> string \<Rightarrow> version_result" where
  "version_main check t =
     (case workspace_version t of
        None \<Rightarrow> NoVersion
      | Some v \<Rightarrow> if check \<and> rx_full three_components v = None then NotARelease v else Version v)"

section \<open>The names of net errors\<close>

definition upper_name :: "char \<Rightarrow> bool" where
  "upper_name c \<longleftrightarrow> 65 \<le> cp c \<and> cp c \<le> 90 \<or> 48 \<le> cp c \<and> cp c \<le> 57 \<or> c = CHR ''_''"

definition rx_int :: regex where
  "rx_int = Group (Seq (Opt (Lit ''-'')) (Plus (Sym ascii_digit)))"

definition header_row :: regex where
  "header_row = Seqs [Lit ''NET_ERROR('', Group (Plus (Sym upper_name)), Lit '', '', rx_int, Lit '')'']"

definition table_row :: regex where
  "table_row = Seqs [Star (Sym py_isspace), rx_int, Lit ('': ('' @ [CHR 0x22]), Group (Plus (Sym upper_name)), Lit [CHR 0x22, CHR '','']]"

definition signed_int :: "string \<Rightarrow> int" where
  "signed_int s = (case s of CHR ''-'' # d \<Rightarrow> - int (read_nat d) | _ \<Rightarrow> int (read_nat s))"

definition header_truth :: "string \<Rightarrow> (int, string) odict" where
  "header_truth header =
     od_of (concat (map (\<lambda>g. case g of [name, n] \<Rightarrow> [(signed_int n, ''ERR_'' @ name)] | _ \<Rightarrow> []) (rx_finditer header_row header)))"

definition table_rows :: "string \<Rightarrow> (int \<times> string) list" where
  "table_rows t =
     concat (map (\<lambda>l. case rx_at table_row l of Some ([n, name], m, rest) \<Rightarrow> [(signed_int n, name)] | _ \<Rightarrow> []) (splitlines t))"

text \<open>\<open>text[text.index(a):text.index(b, start)]\<close>; a table that is not found ends the tool.\<close>

fun from_sub :: "string \<Rightarrow> string \<Rightarrow> string option" where
  "from_sub p [] = (if p = [] then Some [] else None)"
| "from_sub p (c # s) = (if startswith (c # s) p then Some (c # s) else from_sub p s)"

fun before_sub :: "string \<Rightarrow> string \<Rightarrow> string option" where
  "before_sub p [] = (if p = [] then Some [] else None)"
| "before_sub p (c # s) = (if startswith (c # s) p then Some [] else map_option ((#) c) (before_sub p s))"

definition table_text :: "string \<Rightarrow> string option" where
  "table_text t =
     (case from_sub ''_NET_ERRORS = {'' t of None \<Rightarrow> None | Some s \<Rightarrow> before_sub [CHR 0x0a, CHR ''}'', CHR 0x0a] s)"

datatype name_problem = NotCurrent int string | OtherName int string string | NotInTable int

definition row_problems :: "(int, string) odict \<Rightarrow> int \<times> string \<Rightarrow> name_problem list" where
  "row_problems truth row =
     (case row of (n, name) \<Rightarrow>
        (case od_get truth n of
           None \<Rightarrow> [NotCurrent n name]
         | Some expected \<Rightarrow> if expected \<noteq> name then [OtherName n name expected] else []))"

definition PROXY_CODES :: "int list" where
  "PROXY_CODES = [- 111, - 115, - 120, - 121, - 127, - 130, - 131, - 136, - 324, - 336]"

definition entry_text :: "(int, string) odict \<Rightarrow> int \<Rightarrow> string" where
  "entry_text truth n = show_int n @ '': ('' @ [CHR 0x22] @ (case od_get truth n of Some e \<Rightarrow> e | None \<Rightarrow> []) @ [CHR 0x22]"

definition audit_names :: "string \<Rightarrow> string \<Rightarrow> name_problem list option" where
  "audit_names header t =
     (case table_text t of
        None \<Rightarrow> None
      | Some table \<Rightarrow>
          let truth = header_truth header
          in Some (concat (map (row_problems truth) (table_rows table))
                   @ map NotInTable (filter (\<lambda>n. \<not> occurs_in (entry_text truth n) t) PROXY_CODES)))"

section \<open>Fetching is bounded\<close>

definition decisive :: "attempt_reply \<Rightarrow> bool" where
  "decisive r \<longleftrightarrow> (case r of Payload p \<Rightarrow> True | HttpStatus n \<Rightarrow> n = 404 | TransportError \<Rightarrow> False)"

definition outcome_of :: "(string \<Rightarrow> string option) \<Rightarrow> nat \<Rightarrow> attempt_reply list \<Rightarrow> fetched" where
  "outcome_of b64 attempts rs = (case rs of [] \<Rightarrow> GaveUp attempts | Payload p # _ \<Rightarrow> unwrap b64 p | _ \<Rightarrow> NotThere)"

lemma fetch_from_outcome:
  "fst (fetch_from b64 replies attempts attempt left)
    = outcome_of b64 attempts (filter decisive (map replies [attempt..<attempt + left]))"
proof (induction b64 replies attempts attempt left rule: fetch_from.induct)
  case (2 b64 replies attempts attempt left)
  have "[attempt..<attempt + Suc left] = attempt # [attempt + 1..<attempt + 1 + left]"
    by (simp add: upt_conv_Cons)
  with 2 show ?case
    by (cases "replies attempt") (auto simp: decisive_def outcome_of_def split: prod.splits)
qed (simp add: outcome_of_def)

lemma fetch_from_sleeps:
  "length (snd (fetch_from b64 replies attempts attempt left)) \<le> left - 1
   \<and> sum_list (snd (fetch_from b64 replies attempts attempt left)) + 2 ^ attempt \<le> 2 ^ (attempt + (left - 1))"
proof (induction left arbitrary: attempt)
  case (Suc left)
  obtain res sleeps where r: "fetch_from b64 replies attempts (attempt + 1) left = (res, sleeps)"
    by (cases "fetch_from b64 replies attempts (attempt + 1) left")
  define again where "again = (if left > 0 then 2 ^ attempt # sleeps else sleeps)"
  have "length again \<le> left \<and> sum_list again + 2 ^ attempt \<le> 2 ^ (attempt + left)"
  proof (cases left)
    case 0
    with r show ?thesis by (simp add: again_def)
  next
    case (Suc k)
    have "length sleeps \<le> k \<and> sum_list sleeps + 2 ^ (attempt + 1) \<le> 2 ^ (attempt + 1 + k)"
      using Suc.IH [of "attempt + 1"] r Suc by simp
    with Suc show ?thesis by (simp add: again_def)
  qed
  then show ?case using r by (cases "replies attempt") (auto simp: again_def)
qed simp

text \<open>
  A fetch ends with the first decisive reply among its attempts, a payload or a 404, and
  gives up after the last attempt; it sleeps at most between the attempts, and in all for
  less than two to the number of attempts seconds.
\<close>

theorem fetch_retries_until_decisive:
  "fst (fetch b64 attempts replies) = outcome_of b64 attempts (filter decisive (map replies [0..<attempts]))
   \<and> length (snd (fetch b64 attempts replies)) \<le> attempts - 1
   \<and> sum_list (snd (fetch b64 attempts replies)) < 2 ^ attempts"
proof -
  have "sum_list (snd (fetch b64 attempts replies)) + 1 \<le> 2 ^ (attempts - 1)"
    using fetch_from_sleeps [of b64 replies attempts 0 attempts] by (simp add: fetch_def)
  also have "(2 :: nat) ^ (attempts - 1) \<le> 2 ^ attempts" by (simp add: power_increasing)
  finally show ?thesis
    using fetch_from_outcome [of b64 replies attempts 0 attempts] fetch_from_sleeps [of b64 replies attempts 0 attempts]
    by (simp add: fetch_def)
qed

section \<open>What is recorded\<close>

text \<open>The lines that contain a word of the pattern, from one\<close>

definition matching_lines :: "regex \<Rightarrow> string list \<Rightarrow> nat list" where
  "matching_lines r lines =
     filter (\<lambda>i. \<exists>u w v. lines ! (i - 1) = u @ w @ v \<and> in_lang r w) [1..<length lines + 1]"

lemma numbered_filter:
  "map fst (filter (\<lambda>(i, l). P l) (numbered lines)) = filter (\<lambda>i. P (lines ! (i - 1))) [1..<length lines + 1]"
proof -
  have n: "numbered lines = map (\<lambda>i. (i, lines ! (i - 1))) [1..<length lines + 1]"
    unfolding numbered_def by (rule nth_equalityI) (simp_all del: upt_Suc)
  show ?thesis unfolding n by (simp add: filter_map comp_def)
qed

text \<open>
  For every signal, the number of lines of the file that contain what its pattern describes,
  and the first 32 of their numbers.
\<close>

theorem signals_are_matching_lines:
  "signal_lines t markers =
     map (\<lambda>(name, r). (name, length (matching_lines r (splitlines t)), take 32 (matching_lines r (splitlines t)))) markers"
proof -
  have "hits r t = matching_lines r (splitlines t)" for r
    unfolding hits_def matching_lines_def numbered_filter rx_search_iff ..
  then show ?thesis by (simp add: signal_lines_def)
qed

lemma one_value: "length (remdups (x # xs)) = 1 \<longleftrightarrow> list_all (\<lambda>y. y = x) xs"
proof -
  have "length (remdups (x # xs)) = card (set (x # xs))" by (rule length_remdups_card_conv)
  also have "\<dots> = 1 \<longleftrightarrow> set xs \<subseteq> {x}" by (auto simp: card_1_singleton_iff)
  finally show ?thesis by (auto simp: list_all_iff)
qed

text \<open>
  Across releases every audited file is either identical or differing, and the surface is
  stable exactly when every file has one digest in all of them.
\<close>

theorem comparison_is_exact:
  "set (cm_identical (compare_releases (x # xs))) \<union> set (cm_differing (compare_releases (x # xs))) = set (map fst FILES)
   \<and> set (cm_identical (compare_releases (x # xs))) \<inter> set (cm_differing (compare_releases (x # xs))) = {}
   \<and> cm_stable (compare_releases (x # xs))
     = list_all (\<lambda>n. list_all (\<lambda>r. digest_of (snd r) n = digest_of (snd x) n) xs) (map fst FILES)"
proof -
  have "same_everywhere (map snd (x # xs)) n \<longleftrightarrow> list_all (\<lambda>r. digest_of (snd r) n = digest_of (snd x) n) xs" for n
    unfolding same_everywhere_def list.map one_value by (simp add: list_all_iff)
  then have "cm_stable (compare_releases (x # xs))
      = list_all (\<lambda>n. list_all (\<lambda>r. digest_of (snd r) n = digest_of (snd x) n) xs) (map fst FILES)"
    by (simp add: compare_releases_def Let_def filter_empty_conv list_all_iff del: list.map)
  moreover have "set (filter P xs) \<union> set (filter (\<lambda>x. \<not> P x) xs) = set xs
      \<and> set (filter P xs) \<inter> set (filter (\<lambda>x. \<not> P x) xs) = {}" for P and xs :: "string list" by auto
  ultimately show ?thesis by (simp only: compare_releases_def Let_def comparison.simps set_sort)
qed

section \<open>What a clean audit of the names means\<close>

text \<open>
  When the audit passes, every row of the table has the name Chromium's header gives to its
  code, and the codes of proxy failures are entered under theirs.
\<close>

lemma clean_names_agree:
  assumes "audit_names header t = Some []" and "table_text t = Some table"
  shows "list_all (\<lambda>(n, name). od_get (header_truth header) n = Some name) (table_rows table)
    \<and> list_all (\<lambda>n. occurs_in (entry_text (header_truth header) n) t) PROXY_CODES"
proof -
  have "\<forall>row \<in> set (table_rows table). row_problems (header_truth header) row = []"
    "list_all (\<lambda>n. occurs_in (entry_text (header_truth header) n) t) PROXY_CODES"
    using assms by (auto simp: audit_names_def Let_def filter_empty_conv list_all_iff)
  then show ?thesis by (auto simp: list_all_iff row_problems_def split: option.splits if_splits)
qed

text \<open>The table this development has for \<open>exceptions.py\<close> does name the codes of proxy failures.\<close>

lemma proxy_codes_named: "list_all (\<lambda>n. named_error n \<noteq> None) PROXY_CODES"
  by code_simp

section \<open>Versions\<close>

lemma in_lang_Plus_Sym: "in_lang (Plus (Sym P)) w \<longleftrightarrow> w \<noteq> [] \<and> list_all P w"
proof -
  have star: "in_lang (Star (Sym P)) w \<longleftrightarrow> list_all P w" for w
  proof
    show "in_lang (Star (Sym P)) w \<Longrightarrow> list_all P w"
      by (induction "Star (Sym P)" w rule: in_lang.induct) auto
    show "list_all P w \<Longrightarrow> in_lang (Star (Sym P)) w"
    proof (induction w)
      case (Cons c w)
      then have "in_lang (Sym P) [c]" "in_lang (Star (Sym P)) w" by auto
      from lang_star [OF this] show ?case by simp
    qed (rule lang_stop)
  qed
  have "in_lang (Plus (Sym P)) w \<longleftrightarrow> (\<exists>c v. w = c # v \<and> P c \<and> list_all P v)"
    by (auto simp: Plus_def in_lang_Seq star) (metis append_Cons append_Nil)
  then show ?thesis by (cases w) auto
qed

text \<open>\<open>--check\<close> accepts three numbers with dots between them and nothing else.\<close>

definition is_number :: "string \<Rightarrow> bool" where
  "is_number s \<longleftrightarrow> s \<noteq> [] \<and> list_all ascii_digit s"

lemma checked_version_is_a_release:
  "version_main True t = Version v \<Longrightarrow>
   \<exists>a b c. v = a @ ''.'' @ b @ ''.'' @ c \<and> is_number a \<and> is_number b \<and> is_number c"
proof -
  assume "version_main True t = Version v"
  then have "rx_full three_components v \<noteq> None" by (auto simp: version_main_def split: option.splits if_splits)
  then have "in_lang three_components v" by (simp only: rx_full_iff)
  then show ?thesis
    by (simp add: three_components_def in_lang_Seq in_lang_Plus_Sym is_number_def del: Lit.simps) blast
qed

text \<open>
  The pattern does not stop at the end of the table: without a version of its own, the
  workspace gets that of a later table.
\<close>

lemma version_of_another_table:
  "workspace_version (''[workspace.package]'' @ [CHR 0x0a] @ ''edition = 1'' @ [CHR 0x0a] @ ''[dependencies.x]'' @ [CHR 0x0a]
     @ ''version = '' @ [CHR 0x22] @ ''9.9.9'' @ [CHR 0x22] @ [CHR 0x0a]) = Some ''9.9.9''"
  by code_simp

end
