(* ===== verification/Cookie_Policy.thy ===== *)
theory Cookie_Policy
  imports Cookies Py_Url
begin

text \<open>
  How a jar of \<open>cookies.py\<close> meets the wire: \<open>MockRequest\<close> and \<open>MockResponse\<close>, the two
  adapters the program gives to \<open>http.cookiejar\<close>, \<open>cookie_header\<close> and the extraction
  behind \<open>absorb_set_cookie\<close>.  The standard library's side is \<open>DefaultCookiePolicy\<close> with its
  default settings (Netscape cookies only), the policy of every jar the package builds.

  \<open>now\<close> is \<open>int(time.time())\<close>.  \<open>dates\<close> is \<open>http2time\<close>, the standard library's reader of
  dates: the text of an \<open>Expires\<close> attribute to seconds, if it is a date.
\<close>

section \<open>The request as the policy sees it\<close>

record mock_request =
  mq_url :: string
  mq_type :: string
  mq_headers :: "(string, string) odict"
  mq_new :: "(string, string) odict"

definition new_mock_request :: "string \<Rightarrow> (string, string) odict option \<Rightarrow> exc_class + mock_request" where
  "new_mock_request url headers = bind_res (urlparse url) (\<lambda>p.
     Inr \<lparr>mq_url = url, mq_type = u_scheme p,
          mq_headers = (case headers of None \<Rightarrow> [] | Some h \<Rightarrow> h), mq_new = []\<rparr>)"

definition mq_get_host :: "mock_request \<Rightarrow> exc_class + string" where
  "mq_get_host r = bind_res (urlparse (mq_url r)) (\<lambda>p. Inr (u_netloc p))"

text \<open>A \<open>Host\<close> header replaces the network location of a URL without a port.\<close>

definition mq_get_full_url :: "mock_request \<Rightarrow> exc_class + string" where
  "mq_get_full_url r =
     (case od_get (mq_headers r) ''Host'' of
        None \<Rightarrow> Inr (mq_url r)
      | Some host \<Rightarrow> bind_res (urlparse (mq_url r)) (\<lambda>p. bind_res (url_port p) (\<lambda>port.
          if port \<noteq> None \<and> port \<noteq> Some 0 then Inr (mq_url r)
          else Inr (urlunparse (p\<lparr>u_netloc := host\<rparr>)))))"

definition mq_has_header :: "mock_request \<Rightarrow> string \<Rightarrow> bool" where
  "mq_has_header r name \<longleftrightarrow> od_has (mq_headers r) name \<or> od_has (mq_new r) name"

definition mq_get_header :: "mock_request \<Rightarrow> string \<Rightarrow> string option \<Rightarrow> string option" where
  "mq_get_header r name dflt =
     (case od_get (mq_headers r) name of Some v \<Rightarrow> Some v
      | None \<Rightarrow> (case od_get (mq_new r) name of Some v \<Rightarrow> Some v | None \<Rightarrow> dflt))"

definition mq_add_header :: "string \<Rightarrow> string \<Rightarrow> mock_request \<Rightarrow> exc_class + mock_request" where
  "mq_add_header k v r = Inl NotImplementedError"

definition mq_add_unredirected_header :: "string \<Rightarrow> string \<Rightarrow> mock_request \<Rightarrow> mock_request" where
  "mq_add_unredirected_header name v r = r\<lparr>mq_new := od_put name v (mq_new r)\<rparr>"

definition mock_response_get_all :: "string list \<Rightarrow> string \<Rightarrow> string list option \<Rightarrow> string list" where
  "mock_response_get_all ls name dflt =
     (if py_lower name \<noteq> ''set-cookie'' then (case dflt of Some d \<Rightarrow> d | None \<Rightarrow> []) else ls)"

section \<open>Hosts, paths and ports\<close>

text \<open>A final line feed does not hide the end of the text from \<open>$\<close>.\<close>

definition final_line :: "string \<Rightarrow> string \<times> string" where
  "final_line s = (if s \<noteq> [] \<and> cp (last s) = 10 then (butlast s, [last s]) else (s, []))"

text \<open>The digits at the end of a text, with the rest before them in reverse.\<close>

definition end_digits :: "string \<Rightarrow> string \<times> string" where
  "end_digits s = (takeWhile ascii_digit (rev s), dropWhile ascii_digit (rev s))"

definition is_ipv4_like :: "string \<Rightarrow> bool" where
  "is_ipv4_like s = (case end_digits (fst (final_line s)) of (d, r) \<Rightarrow> d \<noteq> [] \<and> startswith r ''.'')"

definition drop_port :: "string \<Rightarrow> string" where
  "drop_port s = (case final_line s of (body, nl) \<Rightarrow>
     (case end_digits body of (d, r) \<Rightarrow> if d \<noteq> [] \<and> startswith r '':'' then rev (tl r) @ nl else s))"

definition request_host :: "mock_request \<Rightarrow> exc_class + string" where
  "request_host r = bind_res (mq_get_full_url r) (\<lambda>url. bind_res (urlparse url) (\<lambda>p.
     let host = (if u_netloc p = [] then the (mq_get_header r ''Host'' (Some [])) else u_netloc p)
     in Inr (py_lower (drop_port host))))"

text \<open>The effective host of a name without a dot is below \<open>.local\<close>.\<close>

definition effective_host :: "string \<Rightarrow> string" where
  "effective_host h = (if CHR ''.'' \<notin> set h \<and> \<not> is_ipv4_like h then h @ ''.local'' else h)"

definition HTTP_PATH_SAFE :: string where
  "HTTP_PATH_SAFE = ''%/;:@&=+$,!~*()'' @ [CHR 0x27]"

fun upper_escapes :: "string \<Rightarrow> string" where
  "upper_escapes (p # a # b # s) =
     (if p = CHR ''%'' \<and> hex_val a \<noteq> None \<and> hex_val b \<noteq> None
      then p # upper_char a # upper_char b # upper_escapes s
      else p # upper_escapes (a # b # s))"
| "upper_escapes s = s"

definition escape_path :: "string \<Rightarrow> string" where
  "escape_path path = upper_escapes (quote HTTP_PATH_SAFE path)"

definition request_path :: "mock_request \<Rightarrow> exc_class + string" where
  "request_path r = bind_res (mq_get_full_url r) (\<lambda>url. bind_res (urlsplit url) (\<lambda>p.
     let path = escape_path (u_path p) in Inr (if startswith path ''/'' then path else CHR ''/'' # path)))"

text \<open>What follows the first colon, if it is a number; without a colon, the default port.\<close>

definition request_port :: "mock_request \<Rightarrow> exc_class + string option" where
  "request_port r = bind_res (mq_get_host r) (\<lambda>host.
     case partition_at CHR '':'' host of
       (_, True, port) \<Rightarrow> Inr (if int_text port = None then None else Some port)
     | (_, False, _) \<Rightarrow> Inr (Some ''80''))"

text \<open>What every check of the policy reads of a request; it is the same for all cookies.\<close>

record req_view =
  rv_type :: string
  rv_host :: string
  rv_erhn :: string
  rv_path :: string
  rv_port :: "string option"

definition view_of :: "mock_request \<Rightarrow> exc_class + req_view" where
  "view_of r = bind_res (request_host r) (\<lambda>h. bind_res (request_path r) (\<lambda>p. bind_res (request_port r) (\<lambda>port.
     Inr \<lparr>rv_type = mq_type r, rv_host = h, rv_erhn = effective_host h, rv_path = p, rv_port = port\<rparr>)))"

section \<open>Returning cookies\<close>

definition dotted :: "string \<Rightarrow> string" where
  "dotted d = (if d \<noteq> [] \<and> \<not> startswith d ''.'' then CHR ''.'' # d else d)"

definition with_dot :: "string \<Rightarrow> string" where
  "with_dot h = (if startswith h ''.'' then h else CHR ''.'' # h)"

definition domain_return_ok :: "string \<Rightarrow> req_view \<Rightarrow> bool" where
  "domain_return_ok d v \<longleftrightarrow> endswith (with_dot (rv_host v)) (dotted d) \<or> endswith (with_dot (rv_erhn v)) (dotted d)"

definition path_return_ok :: "string \<Rightarrow> req_view \<Rightarrow> bool" where
  "path_return_ok p v \<longleftrightarrow> rv_path v = p
     \<or> startswith (rv_path v) p \<and> (endswith p ''/'' \<or> startswith (drop (length p) (rv_path v)) ''/'')"

definition port_of_request :: "req_view \<Rightarrow> string" where
  "port_of_request v = (case rv_port v of None \<Rightarrow> ''80'' | Some p \<Rightarrow> p)"

text \<open>
  \<open>return_ok\<close>: version, verifiability, secure, expires, port, domain.  Cookies of a positive
  version are switched off by default, and the verifiability check concerns no other.
\<close>

definition return_ok :: "int \<Rightarrow> req_view \<Rightarrow> cookie \<Rightarrow> bool" where
  "return_ok now v c \<longleftrightarrow>
     ck_version c \<le> 0
     \<and> (ck_secure c \<longrightarrow> rv_type v \<in> {''https'', ''wss''})
     \<and> \<not> is_expired now c
     \<and> (case ck_port c of None \<Rightarrow> True
        | Some ps \<Rightarrow> ps = [] \<or> port_of_request v \<in> set (split_on CHR '','' ps))
     \<and> (ck_version c = 0 \<longrightarrow> endswith (CHR ''.'' # rv_erhn v) (dotted (ck_domain c)))"

text \<open>\<open>_cookies_for_domain\<close> and \<open>_cookies_for_request\<close>\<close>

definition cookies_for_domain :: "int \<Rightarrow> req_view \<Rightarrow> string \<Rightarrow> (string, (string, cookie) odict) odict \<Rightarrow> cookie list" where
  "cookies_for_domain now v d by_path =
     (if \<not> domain_return_ok d v then []
      else concat (map (\<lambda>(p, by_name). if path_return_ok p v then filter (return_ok now v) (map snd by_name) else [])
             by_path))"

definition cookies_for_request :: "int \<Rightarrow> req_view \<Rightarrow> store \<Rightarrow> cookie list" where
  "cookies_for_request now v m = concat (map (\<lambda>(d, by_path). cookies_for_domain now v d by_path) m)"

definition cookie_attr :: "cookie \<Rightarrow> string" where
  "cookie_attr c = (case ck_value c of None \<Rightarrow> ck_name c | Some s \<Rightarrow> ck_name c @ ''='' @ s)"

text \<open>\<open>cookies.sort(key=lambda a: len(a.path), reverse=True)\<close>: longest first, ties as they were.\<close>

definition cookie_attrs :: "cookie list \<Rightarrow> string list" where
  "cookie_attrs cs = map cookie_attr (sort_key (\<lambda>c. - int (length (ck_path c))) cs)"

text \<open>
  \<open>add_cookie_header\<close>.  Nothing is read of the request when the jar has no domain at all.  A
  header that is there already stays; the expired cookies go at the end in any case.
\<close>

definition add_cookie_header :: "int \<Rightarrow> mock_request \<Rightarrow> jar \<Rightarrow> exc_class + (mock_request \<times> jar)" where
  "add_cookie_header now r j =
     bind_res (if jar_store j = [] then Inr []
               else bind_res (view_of r) (\<lambda>v. Inr (cookies_for_request now v (jar_store j)))) (\<lambda>cs.
       let attrs = cookie_attrs cs;
           r' = (if attrs \<noteq> [] \<and> \<not> mq_has_header r ''Cookie''
                 then mq_add_unredirected_header ''Cookie'' (join ''; '' attrs) r else r)
       in Inr (r', jar_clear_expired now j))"

definition cookie_header ::
  "int \<Rightarrow> string \<Rightarrow> (string, string) odict option \<Rightarrow> jar \<Rightarrow> exc_class + (string option \<times> jar)" where
  "cookie_header now url headers j =
     bind_res (new_mock_request url headers) (\<lambda>r. bind_res (add_cookie_header now r j) (\<lambda>(r', j').
       Inr (od_get (mq_new r') ''Cookie'', j')))"

section \<open>Reading Set-Cookie\<close>

text \<open>The value of an attribute: absent, present without a value, a text or a time.\<close>

datatype ns_value = NoValue | Present | TextValue string | TimeValue int

definition known_attrs :: "string list" where
  "known_attrs = [''expires'', ''domain'', ''path'', ''secure'', ''version'', ''port'', ''max-age'']"

definition strip_quotes :: "string \<Rightarrow> string" where
  "strip_quotes s = (let t = (if startswith s [CHR 0x22] then tl s else s)
     in if endswith t [CHR 0x22] then butlast t else t)"

definition ns_pair :: "string \<Rightarrow> string \<times> ns_value" where
  "ns_pair param = (case partition_at CHR ''='' (py_strip param) of
     (key, sep, v) \<Rightarrow> (py_strip key, if sep then TextValue (py_strip v) else NoValue))"

definition ns_attr :: "(string \<Rightarrow> int option) \<Rightarrow> string \<times> ns_value \<Rightarrow> string \<times> ns_value" where
  "ns_attr dates kv =
     (let key = (if py_lower (fst kv) \<in> set known_attrs then py_lower (fst kv) else fst kv)
      in (key, case snd kv of
            TextValue v \<Rightarrow>
              if key = ''version'' then TextValue (strip_quotes v)
              else if key = ''expires''
              then (case dates (strip_quotes v) of None \<Rightarrow> NoValue | Some t \<Rightarrow> TimeValue t)
              else TextValue v
          | w \<Rightarrow> w))"

text \<open>
  One line of \<open>parse_ns_headers\<close>: the first field is the cookie, an empty first key drops
  the line, empty keys later are skipped, and a version is always there.
\<close>

definition parse_ns_header :: "(string \<Rightarrow> int option) \<Rightarrow> string \<Rightarrow> (string \<times> ns_value) list" where
  "parse_ns_header dates line =
     (case split_on CHR '';'' line of
        [] \<Rightarrow> []
      | p # ps \<Rightarrow>
          if fst (ns_pair p) = [] then []
          else let pairs = map (ns_attr dates) (filter (\<lambda>kv. fst kv \<noteq> []) (map ns_pair ps))
               in ns_pair p # pairs
                    @ (if ''version'' \<in> set (map fst pairs) then [] else [(''version'', TextValue ''0'')]))"

definition parse_ns_headers :: "(string \<Rightarrow> int option) \<Rightarrow> string list \<Rightarrow> (string \<times> ns_value) list list" where
  "parse_ns_headers dates ls = filter (\<lambda>ps. ps \<noteq> []) (map (parse_ns_header dates) ls)"

definition boolean_attrs :: "string list" where
  "boolean_attrs = [''discard'', ''secure'']"

definition value_attrs :: "string list" where
  "value_attrs = [''version'', ''expires'', ''max-age'', ''domain'', ''path'', ''port'', ''comment'', ''commenturl'']"

text \<open>
  The loop of \<open>_normalized_cookie_tuples\<close> over the attributes of one cookie: \<open>None\<close> is a
  bad cookie.  \<open>int(None)\<close>, for a \<open>Max-Age\<close> without a value, raises.
\<close>

primrec normalize_attrs ::
  "int \<Rightarrow> (string \<times> ns_value) list \<Rightarrow> bool \<Rightarrow> (string, ns_value) odict \<Rightarrow> (string, ns_value) odict
     \<Rightarrow> exc_class + ((string, ns_value) odict \<times> (string, ns_value) odict) option" where
  "normalize_attrs now [] max_age standard rest = Inr (Some (standard, rest))"
| "normalize_attrs now (kv # attrs) max_age standard rest =
     (let lc = py_lower (fst kv);
          k = (if lc \<in> set value_attrs \<or> lc \<in> set boolean_attrs then lc else fst kv);
          v = (if k \<in> set boolean_attrs \<and> snd kv = NoValue then Present else snd kv)
      in if od_has standard k then normalize_attrs now attrs max_age standard rest
         else if k = ''domain'' then
           (case v of TextValue d \<Rightarrow> normalize_attrs now attrs max_age (od_put k (TextValue (py_lower d)) standard) rest
            | _ \<Rightarrow> Inr None)
         else if k = ''expires'' \<and> (max_age \<or> v = NoValue) then normalize_attrs now attrs max_age standard rest
         else if k = ''max-age'' then
           (case v of
              TextValue n \<Rightarrow> (case int_text n of
                  None \<Rightarrow> Inr None
                | Some i \<Rightarrow> normalize_attrs now attrs True (od_put ''expires'' (TimeValue (now + i)) standard) rest)
            | _ \<Rightarrow> Inl TypeError)
         else if k \<in> set value_attrs \<or> k \<in> set boolean_attrs then
           (if v = NoValue \<and> k \<notin> {''port'', ''comment'', ''commenturl''} then Inr None
            else normalize_attrs now attrs max_age (od_put k v standard) rest)
         else normalize_attrs now attrs max_age standard (od_put k v rest))"

type_synonym cookie_tuple = "string \<times> ns_value \<times> (string, ns_value) odict \<times> (string, ns_value) odict"

definition normalized_tuple :: "int \<Rightarrow> (string \<times> ns_value) list \<Rightarrow> exc_class + cookie_tuple option" where
  "normalized_tuple now pairs = bind_res (normalize_attrs now (tl pairs) False [] []) (\<lambda>r.
     Inr (map_option (\<lambda>(standard, rest). (fst (hd pairs), snd (hd pairs), standard, rest)) r))"

definition text_value :: "ns_value \<Rightarrow> string option" where
  "text_value v = (case v of TextValue s \<Rightarrow> Some s | _ \<Rightarrow> None)"

definition truthy :: "ns_value option \<Rightarrow> bool" where
  "truthy v \<longleftrightarrow> (case v of None \<Rightarrow> False | Some (TextValue s) \<Rightarrow> s \<noteq> [] | Some NoValue \<Rightarrow> False | Some _ \<Rightarrow> True)"

text \<open>The default path: what comes before the last slash of the request's path.\<close>

definition up_to_last_slash :: "string \<Rightarrow> string" where
  "up_to_last_slash p = (case rpartition_at CHR ''/'' p of (before, True, _) \<Rightarrow> before | _ \<Rightarrow> p)"

definition default_path :: "int \<Rightarrow> string \<Rightarrow> string" where
  "default_path version path =
     (let p = (if CHR ''/'' \<notin> set path then path
               else if version = 0 then up_to_last_slash path else up_to_last_slash path @ ''/'')
      in if p = [] then ''/'' else p)"

text \<open>What becomes of one parsed cookie: it is stored, asks for a deletion, or is ignored.\<close>

datatype made = Made cookie | Cleared | Ignored

definition tuple_port :: "req_view \<Rightarrow> (string, ns_value) odict \<Rightarrow> string option \<times> bool" where
  "tuple_port v standard = (case od_get standard ''port'' of
     None \<Rightarrow> (None, False)
   | Some (TextValue p) \<Rightarrow> (Some (filter (\<lambda>c. \<not> py_isspace c) p), True)
   | Some _ \<Rightarrow> (rv_port v, False))"

definition tuple_domain :: "req_view \<Rightarrow> (string, ns_value) odict \<Rightarrow> string" where
  "tuple_domain v standard = (case od_get standard ''domain'' of
     Some (TextValue d) \<Rightarrow> with_dot d | _ \<Rightarrow> rv_erhn v)"

definition cookie_from_tuple :: "int \<Rightarrow> req_view \<Rightarrow> cookie_tuple \<Rightarrow> made" where
  "cookie_from_tuple now v t = (case t of (name, val, standard, rest) \<Rightarrow>
     case Option.bind (Option.bind (od_get standard ''version'') text_value) int_text of
       None \<Rightarrow> Ignored
     | Some version \<Rightarrow>
         let path = (case od_get standard ''path'' of Some (TextValue p) \<Rightarrow> p | _ \<Rightarrow> []);
             domain = (case od_get standard ''domain'' of Some (TextValue d) \<Rightarrow> Some d | _ \<Rightarrow> None);
             expires = (case od_get standard ''expires'' of Some (TimeValue t) \<Rightarrow> Some t | _ \<Rightarrow> None)
         in if (case expires of None \<Rightarrow> False | Some t \<Rightarrow> t \<le> now) then Cleared
            else Made \<lparr>ck_version = version, ck_name = name, ck_value = text_value val,
               ck_port = fst (tuple_port v standard), ck_port_specified = snd (tuple_port v standard),
               ck_domain = tuple_domain v standard, ck_domain_specified = (domain \<noteq> None),
               ck_domain_initial_dot = (case domain of None \<Rightarrow> False | Some d \<Rightarrow> startswith d ''.''),
               ck_path = (if path \<noteq> [] then escape_path path else default_path version (rv_path v)),
               ck_path_specified = (path \<noteq> []),
               ck_secure = truthy (od_get standard ''secure''), ck_expires = expires,
               ck_discard = (truthy (od_get standard ''discard'') \<or> expires = None),
               ck_comment = Option.bind (od_get standard ''comment'') text_value,
               ck_rest = map (\<lambda>(k, w). (k, text_value w)) rest, ck_rfc2109 = False\<rparr>)"

text \<open>A cookie of version 1 from \<open>Set-Cookie\<close> is taken as a Netscape cookie.\<close>

definition as_netscape :: "cookie \<Rightarrow> cookie" where
  "as_netscape c = (if ck_version c = 1 then c\<lparr>ck_rfc2109 := True, ck_version := 0\<rparr> else c)"

definition set_ok_domain :: "req_view \<Rightarrow> cookie \<Rightarrow> bool" where
  "set_ok_domain v c \<longleftrightarrow>
     (ck_domain_specified c \<longrightarrow>
        (let erhn = rv_erhn v; domain = ck_domain c;
             undotted = (if startswith domain ''.'' then tl domain else domain)
         in (CHR ''.'' \<in> set undotted \<or> endswith erhn ''.local'')
            \<and> (ck_version c = 0 \<longrightarrow>
                 endswith erhn domain \<or> endswith erhn (undotted @ ''.local'')
                 \<or> startswith erhn ''.'' \<or> endswith (CHR ''.'' # erhn) domain)))"

text \<open>The port list is read up to the request's port; a text that is no number before it refuses.\<close>

fun port_listed :: "string \<Rightarrow> string list \<Rightarrow> bool" where
  "port_listed p [] = False"
| "port_listed p (q # qs) = (int_text q \<noteq> None \<and> (q = p \<or> port_listed p qs))"

definition set_ok_port :: "req_view \<Rightarrow> cookie \<Rightarrow> bool" where
  "set_ok_port v c \<longleftrightarrow> (ck_port_specified c \<longrightarrow>
     port_listed (port_of_request v) (split_on CHR '','' (the (ck_port c))))"

definition set_ok :: "req_view \<Rightarrow> cookie \<Rightarrow> bool" where
  "set_ok v c \<longleftrightarrow> ck_version c \<le> 0 \<and> set_ok_domain v c \<and> set_ok_port v c"

text \<open>
  \<open>make_cookies\<close> with the lines the mock response gives.  Whatever raises while the lines
  are read is reported as a warning and leaves no cookie at all.  Asking for a deletion
  clears the jar the cookies are read into, which is empty: only its revision moves.
\<close>

definition made_cookies :: "int \<Rightarrow> (string \<Rightarrow> int option) \<Rightarrow> req_view \<Rightarrow> string list \<Rightarrow> made list" where
  "made_cookies now dates v ls =
     (case map_res (normalized_tuple now) (parse_ns_headers dates ls) of
        Inl e \<Rightarrow> []
      | Inr ts \<Rightarrow> map (cookie_from_tuple now v) (List.map_filter id ts))"

definition cookies_of :: "made list \<Rightarrow> cookie list" where
  "cookies_of ms = List.map_filter (\<lambda>m. case m of Made c \<Rightarrow> Some (as_netscape c) | _ \<Rightarrow> None) ms"

definition extract_cookies :: "int \<Rightarrow> (string \<Rightarrow> int option) \<Rightarrow> req_view \<Rightarrow> string list \<Rightarrow> jar" where
  "extract_cookies now dates v ls =
     (let ms = made_cookies now dates v ls
      in fold jar_set_cookie (filter (set_ok v) (cookies_of ms))
           (jar_empty\<lparr>jar_revision := length (filter (\<lambda>m. m = Cleared) ms)\<rparr>))"

text \<open>\<open>absorb_set_cookie(url, lines)\<close> with the mock request and the mock response.\<close>

definition received_cookies :: "int \<Rightarrow> (string \<Rightarrow> int option) \<Rightarrow> string \<Rightarrow> string list \<Rightarrow> exc_class + jar" where
  "received_cookies now dates url ls =
     bind_res (new_mock_request url None) (\<lambda>r. bind_res (view_of r) (\<lambda>v.
       Inr (extract_cookies now dates v (mock_response_get_all ls ''Set-Cookie'' (Some [])))))"

definition absorb_lines :: "int \<Rightarrow> (string \<Rightarrow> int option) \<Rightarrow> string \<Rightarrow> string list \<Rightarrow> jar \<Rightarrow> exc_class + jar" where
  "absorb_lines now dates url ls j =
     (if ls = [] then Inr j
      else bind_res (received_cookies now dates url ls) (\<lambda>received.
             Inr (absorb_set_cookie (\<lambda>_ _. received) url ls j)))"


section \<open>What a request carries\<close>

text \<open>
  The rule the layered checks amount to.  A cookie goes with a request when the host is
  the cookie's domain or lies below it, the path is the cookie's path or lies below it, and
  the transport, the clock and the port allow it.
\<close>

definition undotted :: "string \<Rightarrow> string" where
  "undotted d = (if startswith d ''.'' then tl d else d)"

definition host_below :: "string \<Rightarrow> string \<Rightarrow> bool" where
  "host_below h d \<longleftrightarrow> d = [] \<or> h = undotted d \<or> endswith h (CHR ''.'' # undotted d)"

definition path_below :: "string \<Rightarrow> string \<Rightarrow> bool" where
  "path_below req p \<longleftrightarrow> req = p \<or> (\<exists>rest. req = p @ rest \<and> (endswith p ''/'' \<or> startswith rest ''/''))"

definition port_allowed :: "req_view \<Rightarrow> cookie \<Rightarrow> bool" where
  "port_allowed v c \<longleftrightarrow> (case ck_port c of None \<Rightarrow> True
     | Some ps \<Rightarrow> ps = [] \<or> port_of_request v \<in> set (split_on CHR '','' ps))"

definition sendable :: "int \<Rightarrow> req_view \<Rightarrow> cookie \<Rightarrow> bool" where
  "sendable now v c \<longleftrightarrow> ck_version c = 0 \<and> host_below (rv_erhn v) (ck_domain c) \<and> path_below (rv_path v) (ck_path c)
     \<and> (ck_secure c \<longrightarrow> rv_type v \<in> {''https'', ''wss''}) \<and> \<not> is_expired now c \<and> port_allowed v c"

lemma startswith_Cons: "startswith s [c] \<longleftrightarrow> (\<exists>t. s = c # t)"
  by (cases s) auto

lemma endswith_Cons: "endswith (c # s) p \<longleftrightarrow> p = c # s \<or> endswith s p"
  by (auto simp: endswith_iff Cons_eq_append_conv)

lemma dotted_undotted: "d \<noteq> [] \<Longrightarrow> dotted d = CHR ''.'' # undotted d"
  by (auto simp: dotted_def undotted_def startswith_Cons)

lemma host_below_dotted: "endswith (CHR ''.'' # h) (dotted d) \<longleftrightarrow> host_below h d"
proof (cases "d = []")
  case True
  then show ?thesis by (simp add: host_below_def dotted_def endswith_def)
next
  case False
  then show ?thesis by (auto simp: host_below_def dotted_undotted endswith_Cons)
qed

lemma path_return_below: "path_return_ok p v \<longleftrightarrow> path_below (rv_path v) p"
  by (auto simp: path_return_ok_def path_below_def startswith_iff [of _ p])

lemma return_ok_sendable:
  assumes "0 \<le> ck_version c" and "\<not> startswith (rv_erhn v) ''.''"
  shows "domain_return_ok (ck_domain c) v \<and> path_return_ok (ck_path c) v \<and> return_ok now v c \<longleftrightarrow> sendable now v c"
  using assms
  by (auto simp: domain_return_ok_def with_dot_def path_return_below return_ok_def sendable_def port_allowed_def
      host_below_dotted split: option.splits)

text \<open>The cookies of a request are those of the jar that go with it, in the jar's order.\<close>

lemma filter_concat_map: "filter P (concat (map f xs)) = concat (map (\<lambda>x. filter P (f x)) xs)"
  by (induction xs) auto

lemma filed_entry:
  assumes "jar_filed j" and "(d, ps) \<in> set (jar_store j)" and "(p, ns) \<in> set ps" and "c \<in> set (map snd ns)"
  shows "ck_domain c = d" "ck_path c = p" "c \<in> set (jar_cookies j)"
proof -
  have "paths_filed d ps" using assms(1,2) by (auto simp: jar_filed_def store_filed_def od_all_def)
  then have "names_filed d p ns" using assms(3) by (auto simp: paths_filed_def od_all_def)
  with assms(4) show "ck_domain c = d" "ck_path c = p" by (auto simp: names_filed_def od_all_def)
  have "c \<in> set (concat (map (\<lambda>(p, ns). map snd ns) ps))"
    using assms(4) by (simp, intro bexI [OF _ assms(3)]) simp
  then show "c \<in> set (jar_cookies j)"
    unfolding jar_cookies_def set_concat set_map by (intro UN_I [OF imageI [OF assms(2)]]) simp
qed

lemma cookies_for_request_filter:
  assumes "jar_filed j" and "\<forall>c \<in> set (jar_cookies j). 0 \<le> ck_version c" and "\<not> startswith (rv_erhn v) ''.''"
  shows "cookies_for_request now v (jar_store j) = filter (sendable now v) (jar_cookies j)"
proof -
  have "cookies_for_domain now v d ps = concat (map (\<lambda>(p, ns). filter (sendable now v) (map snd ns)) ps)"
    if d: "(d, ps) \<in> set (jar_store j)" for d ps
  proof -
    have each: "filter (sendable now v) (map snd ns)
        = (if domain_return_ok d v \<and> path_return_ok p v then filter (return_ok now v) (map snd ns) else [])"
      if "(p, ns) \<in> set ps" for p ns
    proof -
      have "filter (sendable now v) (map snd ns)
          = filter (\<lambda>c. domain_return_ok d v \<and> path_return_ok p v \<and> return_ok now v c) (map snd ns)"
      proof (rule filter_cong [OF refl])
        fix c assume "c \<in> set (map snd ns)"
        then have "ck_domain c = d" "ck_path c = p" "c \<in> set (jar_cookies j)"
          using filed_entry [OF assms(1) d that] by auto
        then show "sendable now v c = (domain_return_ok d v \<and> path_return_ok p v \<and> return_ok now v c)"
          using return_ok_sendable [of c v now] assms(2,3) by blast
      qed
      then show ?thesis by (cases "domain_return_ok d v \<and> path_return_ok p v") auto
    qed
    show ?thesis
      by (auto simp: cookies_for_domain_def each cong: map_cong intro!: arg_cong [where f = concat])
  qed
  then show ?thesis
    by (auto simp: cookies_for_request_def jar_cookies_def filter_concat_map split_def
        intro!: arg_cong [where f = concat])
qed

text \<open>
  The \<open>Cookie\<close> line the jar gives for a URL: the cookies that go with the request, the longer
  paths first and otherwise in the jar's order; there is none without such a cookie.
\<close>

theorem cookie_header_exact:
  assumes "jar_filed j" and "\<forall>c \<in> set (jar_cookies j). 0 \<le> ck_version c"
    and "new_mock_request url headers = Inr r" and "view_of r = Inr v"
    and "\<not> startswith (rv_erhn v) ''.''" and "\<not> mq_has_header r ''Cookie''"
  shows "cookie_header now url headers j =
    (let cs = sort_key (\<lambda>c. - int (length (ck_path c))) (filter (sendable now v) (jar_cookies j))
     in Inr (if cs = [] then None else Some (join ''; '' (map cookie_attr cs)), jar_clear_expired now j))"
proof -
  have "mq_new r = []" using assms(3) by (auto simp: new_mock_request_def bind_res_Inr)
  moreover have "jar_cookies j = []" if "jar_store j = []" using that by (simp add: jar_cookies_def)
  ultimately show ?thesis
    using cookies_for_request_filter [OF assms(1,2,5), of now] assms(3,4,6)
    by (auto simp: cookie_header_def add_cookie_header_def cookie_attrs_def mq_add_unredirected_header_def
        od_get_put Let_def split: if_splits dest: arg_cong [where f = set])
qed

section \<open>From Set-Cookie to Cookie\<close>

definition host_cookie :: "req_view \<Rightarrow> string \<Rightarrow> string \<Rightarrow> cookie" where
  "host_cookie v name val =
     \<lparr>ck_version = 0, ck_name = name, ck_value = Some val, ck_port = None, ck_port_specified = False,
      ck_domain = rv_erhn v, ck_domain_specified = False, ck_domain_initial_dot = False,
      ck_path = default_path 0 (rv_path v), ck_path_specified = False, ck_secure = False,
      ck_expires = None, ck_discard = True, ck_comment = None, ck_rest = [], ck_rfc2109 = False\<rparr>"

text \<open>Names and values a server may write without quoting.\<close>

definition plain_text :: "string \<Rightarrow> bool" where
  "plain_text s \<longleftrightarrow> list_all (\<lambda>c. \<not> py_isspace c \<and> c \<noteq> CHR '';'') s"

definition cookie_token :: "string \<Rightarrow> bool" where
  "cookie_token s \<longleftrightarrow> s \<noteq> [] \<and> plain_text s \<and> CHR ''='' \<notin> set s"

lemma plain_text_simps [simp]:
  "plain_text (s @ t) = (plain_text s \<and> plain_text t)" "plain_text (CHR ''='' # s) = plain_text s" "plain_text []"
proof -
  have "\<not> py_isspace CHR ''=''" by code_simp
  then show "plain_text (s @ t) = (plain_text s \<and> plain_text t)" "plain_text (CHR ''='' # s) = plain_text s"
    "plain_text []" by (simp_all add: plain_text_def)
qed

lemma plain_strip: "plain_text s \<Longrightarrow> py_strip s = s"
  by (rule py_strip_solid) (auto simp: plain_text_def list_all_iff)

lemma plain_no_semicolon: "plain_text s \<Longrightarrow> CHR '';'' \<notin> set s"
  by (auto simp: plain_text_def list_all_iff)

lemma ns_pair_plain:
  "cookie_token name \<Longrightarrow> plain_text val \<Longrightarrow> ns_pair (name @ ''='' @ val) = (name, TextValue val)"
  by (simp add: ns_pair_def cookie_token_def plain_strip partition_at_append)

text \<open>The lines \<open>name=value\<close> and \<open>name=value; Max-Age=0\<close>\<close>

lemma parse_plain_line:
  assumes "cookie_token name" and "plain_text val"
  shows "parse_ns_header dates (name @ ''='' @ val) = [(name, TextValue val), (''version'', TextValue ''0'')]"
proof -
  have "CHR '';'' \<notin> set (name @ ''='' @ val)" using assms by (auto simp: cookie_token_def dest: plain_no_semicolon)
  then show ?thesis
    using assms by (simp add: parse_ns_header_def split_on_no_sep ns_pair_plain [simplified] cookie_token_def)
qed

lemma max_age_attr: "ns_pair '' Max-Age=0'' = (''Max-Age'', TextValue ''0'')"
  "ns_attr dates (''Max-Age'', TextValue ''0'') = (''max-age'', TextValue ''0'')"
proof -
  have "ns_pair '' Max-Age=0'' = (''Max-Age'', TextValue ''0'')" by code_simp
  moreover have "py_lower ''Max-Age'' = ''max-age''" by code_simp
  ultimately show "ns_pair '' Max-Age=0'' = (''Max-Age'', TextValue ''0'')"
    "ns_attr dates (''Max-Age'', TextValue ''0'') = (''max-age'', TextValue ''0'')"
    by (simp_all add: ns_attr_def known_attrs_def)
qed

lemma parse_deletion_line:
  assumes "cookie_token name" and "plain_text val"
  shows "parse_ns_header dates (name @ ''='' @ val @ ''; Max-Age=0'')
    = [(name, TextValue val), (''max-age'', TextValue ''0''), (''version'', TextValue ''0'')]"
proof -
  have "CHR '';'' \<notin> set (name @ ''='' @ val)" using assms by (auto simp: cookie_token_def dest: plain_no_semicolon)
  from split_on_append_sep [OF this, of "'' Max-Age=0''"]
  have "split_on CHR '';'' (name @ ''='' @ val @ ''; Max-Age=0'') = [name @ ''='' @ val, '' Max-Age=0'']"
    by simp
  then show ?thesis
    using assms max_age_attr
    by (auto simp: parse_ns_header_def ns_pair_plain [simplified] cookie_token_def)
qed

lemma standard_keys:
  "py_lower ''version'' = ''version''" "py_lower ''max-age'' = ''max-age''" "int_text ''0'' = Some 0"
  by code_simp+

lemma normalized_plain:
  "normalized_tuple now [(name, TextValue val), (''version'', TextValue ''0'')]
    = Inr (Some (name, TextValue val, [(''version'', TextValue ''0'')], []))"
  by (simp add: normalized_tuple_def standard_keys value_attrs_def boolean_attrs_def od_has_def od_put_def)

lemma normalized_deletion:
  "normalized_tuple now [(name, TextValue val), (''max-age'', TextValue ''0''), (''version'', TextValue ''0'')]
    = Inr (Some (name, TextValue val, [(''expires'', TimeValue now), (''version'', TextValue ''0'')], []))"
  by (simp add: normalized_tuple_def standard_keys value_attrs_def boolean_attrs_def od_has_def od_put_def od_get_def)

lemma extract_plain:
  assumes "cookie_token name" and "plain_text val"
  shows "extract_cookies now dates v [name @ ''='' @ val] = jar_set_cookie (host_cookie v name val) jar_empty"
  using parse_plain_line [OF assms, of dates]
  by (simp add: extract_cookies_def made_cookies_def parse_ns_headers_def normalized_plain cookies_of_def
      cookie_from_tuple_def od_get_def text_value_def standard_keys tuple_port_def tuple_domain_def truthy_def
      host_cookie_def as_netscape_def set_ok_def set_ok_domain_def set_ok_port_def List.map_filter_def jar_empty_def)

lemma extract_deletion:
  assumes "cookie_token name" and "plain_text val"
  shows "extract_cookies now dates v [name @ ''='' @ val @ ''; Max-Age=0''] = jar_empty\<lparr>jar_revision := 1\<rparr>"
  using parse_deletion_line [OF assms, of dates]
  by (simp add: extract_cookies_def made_cookies_def parse_ns_headers_def normalized_deletion cookies_of_def
      cookie_from_tuple_def od_get_def text_value_def standard_keys List.map_filter_def)

lemma received_view:
  assumes "new_mock_request url None = Inr r" and "view_of r = Inr v"
  shows "received_cookies now dates url ls = Inr (extract_cookies now dates v ls)"
proof -
  have "py_lower ''Set-Cookie'' = ''set-cookie''" by code_simp
  then show ?thesis using assms by (simp add: received_cookies_def mock_response_get_all_def)
qed

lemma set_cookie_alone:
  "jar_cookies (jar_set_cookie c jar_empty) = [c\<lparr>ck_value := unquote_value (ck_value c)\<rparr>]"
  by (simp add: jar_cookies_def jar_set_cookie_def store_put_def od_sub_def od_put_def od_get_def jar_empty_def Let_def)

lemma set_cookie_others:
  assumes "jar_filed j" and "c' \<in> set (jar_cookies (jar_set_cookie c j))"
  shows "c' = c\<lparr>ck_value := unquote_value (ck_value c)\<rparr> \<or> c' \<in> set (jar_cookies j)"
  using assms(2) jar_cookies_get [OF assms(1), of c'] jar_cookies_get [OF filed_set_cookie [OF assms(1)], of c' c]
  by (auto simp: jar_set_cookie_def store_put_def od_sub_def od_get_put Let_def split: if_splits option.splits)

text \<open>The default path is a prefix of the request's path, cut at a slash.\<close>

lemma default_path_below:
  assumes "startswith path ''/''"
  shows "path_below path (default_path 0 path)"
proof -
  obtain t where path: "path = CHR ''/'' # t" using assms by (auto simp: startswith_Cons)
  let ?P = "\<lambda>x. x \<noteq> CHR ''/''"
  have "dropWhile ?P (rev path) \<noteq> []" by (simp add: path)
  then obtain r where r: "dropWhile ?P (rev path) = CHR ''/'' # r"
    using hd_dropWhile [of ?P "rev path"] by (cases "dropWhile ?P (rev path)") auto
  have "rev path = takeWhile ?P (rev path) @ CHR ''/'' # r"
    using takeWhile_dropWhile_id [of ?P "rev path"] r by simp
  then have cut: "path = rev r @ CHR ''/'' # rev (takeWhile ?P (rev path))"
    by (metis append.assoc append_Cons append_Nil rev.simps(2) rev_append rev_rev_ident)
  have "CHR ''/'' \<in> set path" by (simp add: path)
  then have up: "up_to_last_slash path = rev r" using r by (simp add: up_to_last_slash_def rpartition_at_def)
  show ?thesis
  proof (cases "r = []")
    case True
    then show ?thesis using up by (auto simp: default_path_def path_below_def path endswith_def)
  next
    case False
    then show ?thesis using up cut by (auto simp: default_path_def path_below_def path startswith_Cons)
  qed
qed

lemma request_path_slash: "request_path r = Inr p \<Longrightarrow> startswith p ''/''"
  by (auto simp: request_path_def bind_res_Inr Let_def split: if_splits)

lemma host_cookie_sendable:
  assumes "view_of r = Inr v"
  shows "sendable now v (host_cookie v name val)"
proof -
  have "startswith (rv_path v) ''/''" using assms by (auto simp: view_of_def bind_res_Inr dest: request_path_slash)
  moreover have "host_below (rv_erhn v) (rv_erhn v)" by (auto simp: host_below_dotted [symmetric] dotted_def endswith_iff)
  ultimately show ?thesis
    by (simp add: sendable_def host_cookie_def is_expired_def port_allowed_def default_path_below)
qed

text \<open>
  A cookie a server sets comes back to it: after the jar has absorbed \<open>name=value\<close> from a
  URL, the \<open>Cookie\<close> line it gives for that URL has the cookie, whatever else the jar holds.
\<close>

theorem set_cookie_sent_back:
  assumes "cookie_token name" and "plain_text val" and "unquote_value (Some val) = Some val"
    and "new_mock_request url None = Inr r" and "view_of r = Inr v" and "\<not> startswith (rv_erhn v) ''.''"
    and "jar_filed j" and "\<forall>c \<in> set (jar_cookies j). 0 \<le> ck_version c"
  shows "\<exists>j' line j''. absorb_lines now dates url [name @ ''='' @ val] j = Inr j'
    \<and> cookie_header now' url None j' = Inr (Some line, j'')
    \<and> (\<exists>before rest. line = join ''; '' (before @ [name @ ''='' @ val] @ rest))"
proof -
  let ?c = "host_cookie v name val"
  define j' where "j' = jar_set_cookie ?c j"
  have val: "?c\<lparr>ck_value := unquote_value (ck_value ?c)\<rparr> = ?c" using assms(3) by (simp add: host_cookie_def)
  have absorbed: "absorb_lines now dates url [name @ ''='' @ val] j = Inr j'"
    using received_view [OF assms(4,5)] extract_plain [OF assms(1,2)] val
    by (simp add: absorb_lines_def absorb_set_cookie_def jar_update_def set_cookie_alone j'_def)
  have "0 \<le> ck_version c" if "c \<in> set (jar_cookies j')" for c
    using set_cookie_others [OF assms(7), of c ?c] that assms(8) val by (auto simp: j'_def host_cookie_def)
  then have j': "jar_filed j'" "\<forall>c \<in> set (jar_cookies j'). 0 \<le> ck_version c"
    using filed_set_cookie [OF assms(7)] by (auto simp: j'_def)
  have "mq_headers r = []" "mq_new r = []" using assms(4) by (auto simp: new_mock_request_def bind_res_Inr)
  then have free: "\<not> mq_has_header r ''Cookie''" by (simp add: mq_has_header_def od_has_def)
  let ?cs = "sort_key (\<lambda>c. - int (length (ck_path c))) (filter (sendable now' v) (jar_cookies j'))"
  have mem: "?c \<in> set ?cs"
    using jar_cookies_set [OF assms(7), of ?c] val host_cookie_sendable [OF assms(5)] by (simp add: j'_def)
  obtain xs ys where cs: "?cs = xs @ ?c # ys" using split_list [OF mem] by blast
  moreover have "cookie_attr ?c = name @ ''='' @ val" by (simp add: cookie_attr_def host_cookie_def)
  ultimately show ?thesis
    using absorbed cookie_header_exact [OF j' assms(4,5,6) free, of now']
    by (simp add: Let_def) (metis append_Cons append_Nil)
qed

text \<open>
  Absorbing what a server sends never takes a cookie out of the jar, not even one the
  server asks to delete: the deletion clears the jar the response is read into.
\<close>

definition stored :: "jar \<Rightarrow> string \<Rightarrow> string \<Rightarrow> string \<Rightarrow> bool" where
  "stored j d p n \<longleftrightarrow> od_has (od_sub (od_sub (jar_store j) d) p) n"

lemma stored_set_cookie: "stored j d p n \<Longrightarrow> stored (jar_set_cookie c j) d p n"
  by (auto simp: stored_def jar_set_cookie_def store_put_def od_sub_def od_has_def od_get_put Let_def split: option.splits)

theorem absorb_never_removes:
  assumes "absorb_lines now dates url ls j = Inr j'" and "stored j d p n"
  shows "stored j' d p n"
proof -
  have "stored (fold jar_set_cookie cs k) d p n" if "stored k d p n" for cs k
    using that by (induction cs arbitrary: k) (auto simp: stored_set_cookie)
  with assms show ?thesis
    by (auto simp: absorb_lines_def absorb_set_cookie_def jar_update_def bind_res_Inr split: if_splits)
qed

lemma deletion_is_ignored:
  assumes "cookie_token name" and "plain_text val"
    and "new_mock_request url None = Inr r" and "view_of r = Inr v"
  shows "absorb_lines now dates url [name @ ''='' @ val @ ''; Max-Age=0''] j = Inr j"
  using received_view [OF assms(3,4)] extract_deletion [OF assms(1,2)]
  by (simp add: absorb_lines_def absorb_set_cookie_def jar_update_def jar_cookies_def jar_empty_def)

text \<open>One \<open>Max-Age\<close> without a value makes every cookie of the response go unread.\<close>

lemma bare_max_age_drops_all:
  assumes "map_res (normalized_tuple now) pre = Inr ts"
  shows "map_res (normalized_tuple now) (pre @ ((name, val) # (''max-age'', NoValue) # attrs) # post) = Inl TypeError"
  using assms
  by (simp add: map_res_append normalized_tuple_def standard_keys value_attrs_def boolean_attrs_def od_has_def)

section \<open>Concrete instances\<close>

definition sample_url :: string where
  "sample_url = ''http://h.io/a/b''"

definition sample_view :: req_view where
  "sample_view = \<lparr>rv_type = ''http'', rv_host = ''h.io'', rv_erhn = ''h.io'', rv_path = ''/a/b'', rv_port = Some ''80''\<rparr>"

definition sample_request :: mock_request where
  "sample_request = \<lparr>mq_url = sample_url, mq_type = ''http'', mq_headers = [], mq_new = []\<rparr>"

lemma sample_request_view: "new_mock_request sample_url None = Inr sample_request"
  "view_of sample_request = Inr sample_view" "\<not> startswith (rv_erhn sample_view) ''.''"
  "\<not> mq_has_header sample_request ''Cookie''"
  by code_simp+

text \<open>One cookie for the request, one for secure transports only, one of another host.\<close>

definition sample_wire_jar :: jar where
  "sample_wire_jar =
     jar_set_cookie ((host_cookie sample_view ''o'' ''2'')\<lparr>ck_domain := ''other.io''\<rparr>)
      (jar_set_cookie ((host_cookie sample_view ''s'' ''1'')\<lparr>ck_secure := True\<rparr>)
        (jar_set_cookie (host_cookie sample_view ''k'' ''v'') jar_empty))"

lemma sample_wire_filed: "jar_filed sample_wire_jar"
  by (auto simp: sample_wire_jar_def intro!: wf_intros)

lemma sample_wire_versions: "\<forall>c \<in> set (jar_cookies sample_wire_jar). 0 \<le> ck_version c"
  by code_simp

lemma sample_wire_sendable:
  "filter (sendable 0 sample_view) (jar_cookies sample_wire_jar) = [host_cookie sample_view ''k'' ''v'']"
proof -
  have "jar_cookies sample_wire_jar =
     [host_cookie sample_view ''k'' ''v'', (host_cookie sample_view ''s'' ''1'')\<lparr>ck_secure := True\<rparr>,
      (host_cookie sample_view ''o'' ''2'')\<lparr>ck_domain := ''other.io''\<rparr>]"
    by code_simp
  moreover have "\<not> sendable 0 sample_view ((host_cookie sample_view ''s'' ''1'')\<lparr>ck_secure := True\<rparr>)"
    by (simp add: sendable_def host_cookie_def sample_view_def)
  moreover have "\<not> sendable 0 sample_view ((host_cookie sample_view ''o'' ''2'')\<lparr>ck_domain := ''other.io''\<rparr>)"
    by (simp add: sendable_def host_cookie_def sample_view_def host_below_def undotted_def endswith_def)
  ultimately show ?thesis using host_cookie_sendable [OF sample_request_view(2)] by simp
qed

theorem cookie_header_exact_witness:
  "map_sum id fst (cookie_header 0 sample_url None sample_wire_jar) = Inr (Some ''k=v'')"
  using cookie_header_exact [OF sample_wire_filed sample_wire_versions sample_request_view, of 0]
  by (simp add: sample_wire_sendable cookie_attr_def host_cookie_def)

theorem set_cookie_sent_back_witness:
  "\<exists>j' line j''. absorb_lines 0 (\<lambda>_. None) sample_url [''k=v''] jar_empty = Inr j'
    \<and> cookie_header 9 sample_url None j' = Inr (Some line, j'')
    \<and> (\<exists>before rest. line = join ''; '' (before @ [''k=v''] @ rest))"
proof -
  have "cookie_token ''k''" "plain_text ''v''" "unquote_value (Some ''v'') = Some ''v''" by code_simp+
  from set_cookie_sent_back [OF this sample_request_view(1,2,3) jar_filed_empty, of 0 "\<lambda>_. None" 9]
  show ?thesis by (simp add: jar_cookies_def jar_empty_def)
qed

theorem absorb_never_removes_witness:
  "stored (jar_set_cookie (host_cookie sample_view ''k'' ''v'') jar_empty) ''h.io'' ''/a'' ''k''"
proof (rule absorb_never_removes)
  have "cookie_token ''k''" "plain_text []" by code_simp+
  from deletion_is_ignored [OF this sample_request_view(1,2)]
  show "absorb_lines 5 (\<lambda>_. None) sample_url [''k=; Max-Age=0'']
      (jar_set_cookie (host_cookie sample_view ''k'' ''v'') jar_empty)
    = Inr (jar_set_cookie (host_cookie sample_view ''k'' ''v'') jar_empty)"
    by simp
  show "stored (jar_set_cookie (host_cookie sample_view ''k'' ''v'') jar_empty) ''h.io'' ''/a'' ''k''" by code_simp
qed

end
