(* ===== verification/Session_Cookies.thy ===== *)
theory Session_Cookies
  imports Session_Calls Cookie_Policy
begin

text \<open>
  The session of \<open>sessions.py\<close> with the cookie jar of \<open>cookies.py\<close> in place of its two
  parameters: the \<open>Cookie\<close> line a jar gives and what it reads of \<open>Set-Cookie\<close>.  The
  properties of both then meet on the wire.
\<close>

section \<open>The jar as a session uses it\<close>

definition policy_line :: "int \<Rightarrow> jar \<Rightarrow> string \<Rightarrow> string option" where
  "policy_line now j url = (case cookie_header now url None j of Inr (line, _) \<Rightarrow> line | Inl _ \<Rightarrow> None)"

definition policy_read :: "int \<Rightarrow> (string \<Rightarrow> int option) \<Rightarrow> string \<Rightarrow> string list \<Rightarrow> jar" where
  "policy_read now dates url ls = (case received_cookies now dates url ls of Inr j \<Rightarrow> j | Inl _ \<Rightarrow> jar_empty)"

text \<open>A URL the policy can read: its host does not start with a dot.\<close>

definition readable :: "string \<Rightarrow> req_view \<Rightarrow> bool" where
  "readable url v \<longleftrightarrow> (\<exists>r. new_mock_request url None = Inr r \<and> view_of r = Inr v) \<and> \<not> startswith (rv_erhn v) ''.''"

text \<open>A jar whose cookies are filed under their keys, have names and no negative version.\<close>

definition wire_jar :: "jar \<Rightarrow> bool" where
  "wire_jar j \<longleftrightarrow> jar_filed j \<and> (\<forall>c \<in> set (jar_cookies j). 0 \<le> ck_version c \<and> ck_name c \<noteq> [])"

definition sent_cookies :: "int \<Rightarrow> req_view \<Rightarrow> jar \<Rightarrow> cookie list" where
  "sent_cookies now v j = sort_key (\<lambda>c. - int (length (ck_path c))) (filter (sendable now v) (jar_cookies j))"

definition sent_line :: "int \<Rightarrow> req_view \<Rightarrow> jar \<Rightarrow> string option" where
  "sent_line now v j = (if sent_cookies now v j = [] then None else Some (join ''; '' (map cookie_attr (sent_cookies now v j))))"

lemma policy_line_exact:
  assumes "wire_jar j" and "readable url v"
  shows "policy_line now j url = sent_line now v j"
proof -
  obtain r where r: "new_mock_request url None = Inr r" "view_of r = Inr v" "\<not> startswith (rv_erhn v) ''.''"
    using assms(2) by (auto simp: readable_def)
  then have "mq_headers r = []" "mq_new r = []" by (auto simp: new_mock_request_def bind_res_Inr)
  then have "\<not> mq_has_header r ''Cookie''" by (simp add: mq_has_header_def od_has_def)
  with r assms(1) cookie_header_exact [of j url None r v now] show ?thesis
    by (simp add: policy_line_def sent_line_def sent_cookies_def wire_jar_def Let_def)
qed

lemma policy_line_empty: "policy_line now jar_empty url = None"
  by (auto simp: policy_line_def cookie_header_def add_cookie_header_def cookie_attrs_def jar_empty_def
      new_mock_request_def od_get_def bind_res_def split: sum.splits)

lemma sent_line_not_empty:
  assumes "wire_jar j"
  shows "sent_line now v j \<noteq> Some []"
proof (cases "sent_cookies now v j")
  case (Cons c cs)
  have "c \<in> set (sent_cookies now v j)" using Cons by simp
  then have "ck_name c \<noteq> []" using assms by (auto simp: sent_cookies_def wire_jar_def)
  then have "cookie_attr c \<noteq> []" by (simp add: cookie_attr_def split: option.splits)
  with Cons show ?thesis by (cases cs) (simp_all add: sent_line_def)
qed (simp add: sent_line_def)

section \<open>What goes on the wire\<close>

lemma wire_line:
  assumes "ss_inv s" and "slot_ok s sl" and "h_wf (pr_headers p)"
    and "wire_jar (case pr_cookies p of Some j \<Rightarrow> j | None \<Rightarrow> ss_cookies s)" and "readable (pr_url p) v"
    and "resolve_cookies (policy_line now) pid build sl p discard s = (Inr sl', p', s')"
  shows "wire_cookie (policy_line now) s' sl' p' =
    (if discard then None
     else case sent_line now v (case pr_cookies p of Some j \<Rightarrow> j | None \<Rightarrow> ss_cookies s) of
            Some line \<Rightarrow> Some line | None \<Rightarrow> h_get (pr_headers p) ''Cookie'')"
  using cookie_line_follows_jar [OF assms(1-3) policy_line_empty _ assms(6)]
    policy_line_exact [OF assms(4,5), of now] sent_line_not_empty [OF assms(4), of now v]
  by simp

section \<open>From a response to the next request\<close>

definition as_filed :: "cookie \<Rightarrow> cookie" where
  "as_filed c = c\<lparr>ck_value := unquote_value (ck_value c)\<rparr>"

definition same_key :: "cookie \<Rightarrow> cookie \<Rightarrow> bool" where
  "same_key c d \<longleftrightarrow> ck_domain c = ck_domain d \<and> ck_path c = ck_path d \<and> ck_name c = ck_name d"

lemma filed_at: "as_filed c \<in> set (jar_cookies (jar_set_cookie c j))" if "jar_filed j"
  using jar_cookies_set [OF that] by (simp add: as_filed_def)

lemma filed_kept:
  assumes "jar_filed j" and "c \<in> set (jar_cookies j)" and "\<not> same_key c d"
  shows "c \<in> set (jar_cookies (jar_set_cookie d j))"
  using assms jar_cookies_get [OF assms(1), of c] jar_cookies_get [OF filed_set_cookie [OF assms(1)], of c d]
  by (auto simp: same_key_def jar_set_cookie_def store_put_def od_sub_def od_get_put Let_def split: option.splits)

lemma filed_unique:
  assumes "jar_filed j" and "c \<in> set (jar_cookies j)" and "d \<in> set (jar_cookies j)" and "same_key c d"
  shows "c = d"
proof -
  note c = iffD1 [OF jar_cookies_get [OF assms(1)] assms(2)]
  note d = iffD1 [OF jar_cookies_get [OF assms(1)] assms(3)]
  have "Some c = Some d" using assms(4) unfolding same_key_def c [symmetric] d [symmetric] by simp
  then show ?thesis by simp
qed

lemma fold_set_keeps:
  assumes "jar_filed j" and "c \<in> set cs" and "\<And>d. d \<in> set cs \<Longrightarrow> same_key c d \<Longrightarrow> d = c"
  shows "as_filed c \<in> set (jar_cookies (fold jar_set_cookie cs j))"
  using assms(2,3)
proof (induction cs rule: rev_induct)
  case (snoc d cs)
  have filed: "jar_filed (fold jar_set_cookie cs j)" using assms(1) by (rule filed_fold_set)
  show ?case
  proof (cases "same_key c d")
    case True
    with snoc.prems(2) [of d] show ?thesis using filed_at [OF filed, of c] by simp
  next
    case False
    with snoc.prems have "c \<in> set cs" by (auto simp: same_key_def)
    with snoc have "as_filed c \<in> set (jar_cookies (fold jar_set_cookie cs j))" by simp
    moreover have "\<not> same_key (as_filed c) d" using False by (simp add: same_key_def as_filed_def)
    ultimately show ?thesis using filed_kept [OF filed] by simp
  qed
qed simp

lemma fold_set_from:
  assumes "jar_filed j" and "c \<in> set (jar_cookies (fold jar_set_cookie cs j))"
  shows "c \<in> set (jar_cookies j) \<or> c \<in> as_filed ` set cs"
  using assms(2)
proof (induction cs rule: rev_induct)
  case (snoc d cs)
  with set_cookie_others [OF filed_fold_set [OF assms(1)], of c d cs] show ?case by (auto simp: as_filed_def)
qed simp

text \<open>The jar a request without cookies of its own is prepared with: a copy of the session's.\<close>

lemma request_jar_plain: "request_jar (Inl []) own = jar_copy own"
  by (simp add: request_jar_def cookiejar_from_dict_def merge_cookies_def jar_update_def jar_copy_def jar_cookies_def jar_empty_def)

lemma jar_copy_keeps: "jar_filed j \<Longrightarrow> c \<in> set (jar_cookies j) \<Longrightarrow> as_filed c \<in> set (jar_cookies (jar_copy j))"
  unfolding jar_copy_def jar_update_def
  by (rule fold_set_keeps) (auto dest: filed_unique)

lemma wire_jar_copy: "wire_jar j \<Longrightarrow> wire_jar (jar_copy j)"
proof -
  assume j: "wire_jar j"
  have "0 \<le> ck_version c \<and> ck_name c \<noteq> []" if "c \<in> set (jar_cookies (jar_copy j))" for c
  proof -
    have "jar_cookies jar_empty = []" by (simp add: jar_cookies_def jar_empty_def)
    then have "c \<in> as_filed ` set (jar_cookies j)"
      using fold_set_from [OF jar_filed_empty, of c "jar_cookies j"] that by (simp add: jar_copy_def jar_update_def)
    with j show ?thesis by (auto simp: wire_jar_def as_filed_def)
  qed
  moreover have "jar_filed (jar_copy j)"
    unfolding jar_copy_def jar_update_def by (rule filed_fold_set) simp
  ultimately show ?thesis by (simp add: wire_jar_def)
qed

lemma wire_jar_set:
  assumes "wire_jar j" and "0 \<le> ck_version c" and "ck_name c \<noteq> []"
  shows "wire_jar (jar_set_cookie c j)"
proof -
  have filed: "jar_filed j" using assms(1) by (simp add: wire_jar_def)
  have "0 \<le> ck_version d \<and> ck_name d \<noteq> []" if "d \<in> set (jar_cookies (jar_set_cookie c j))" for d
  proof (cases "d \<in> set (jar_cookies j)")
    case True
    with assms(1) show ?thesis by (simp add: wire_jar_def)
  next
    case False
    then have "d = c\<lparr>ck_value := unquote_value (ck_value c)\<rparr>" using set_cookie_others [OF filed that] by blast
    with assms(2,3) show ?thesis by simp
  qed
  with filed_set_cookie [OF filed] show ?thesis by (simp add: wire_jar_def)
qed

lemma policy_read_plain:
  assumes "readable url v" and "cookie_token name" and "plain_text val"
  shows "policy_read now dates url [name @ ''='' @ val] = jar_set_cookie (host_cookie v name val) jar_empty"
proof -
  obtain r where "new_mock_request url None = Inr r" "view_of r = Inr v" using assms(1) by (auto simp: readable_def)
  from received_view [OF this] show ?thesis using extract_plain [OF assms(2,3)] by (simp add: policy_read_def)
qed

lemma absorb_plain:
  assumes "readable (rp_url resp) v" and "cookie_token name" and "plain_text val"
    and "rp_history_headers resp = []" and "h_get_list (rp_headers resp) ''set-cookie'' = [name @ ''='' @ val]"
    and "absorb_cookies (policy_read now dates) i resp False j s = (j', s')"
  shows "ss_cookies s' = jar_set_cookie (as_filed (host_cookie v name val)) (ss_cookies s)"
  using assms(4-6) policy_read_plain [OF assms(1-3), of now dates]
  by (auto simp: absorb_cookies_def absorb_one_def absorb_set_cookie_def jar_update_def set_cookie_alone as_filed_def Let_def)

lemma sent_line_has:
  assumes "c \<in> set (jar_cookies j)" and "sendable now v c"
  shows "\<exists>before rest. sent_line now v j = Some (join ''; '' (before @ [cookie_attr c] @ rest))"
proof -
  have "c \<in> set (sent_cookies now v j)" using assms by (simp add: sent_cookies_def)
  then obtain xs ys where "sent_cookies now v j = xs @ c # ys" by (blast dest: split_list)
  then have "sent_line now v j = Some (join ''; '' (map cookie_attr xs @ [cookie_attr c] @ map cookie_attr ys))"
    by (simp add: sent_line_def)
  then show ?thesis by blast
qed

section \<open>Properties\<close>




section \<open>Concrete instances\<close>

text \<open>A session that has had no response, and its first engine.\<close>

definition fresh_session :: "jar \<Rightarrow> session" where
  "fresh_session j = sample_session\<lparr>ss_cookies := j, ss_mirrors := []\<rparr>"

lemma fresh_session_inv: "ss_inv (fresh_session j)" "slot_ok (fresh_session j) (example_config, 0)"
  using ss_inv_sample by (auto simp: ss_inv_def slot_ok_def fresh_session_def od_get_def)

text \<open>Engines are built without failing, so a slot is always found.\<close>

lemma slot_found: "\<exists>sl' s'. get_slot 1 (\<lambda>_. Inr ()) cfg s = (Inr sl', s')" if "\<not> ec_closed (ss_engines s)"
  using that by (auto simp: get_slot_def ec_get_def ec_reset_after_fork_def Let_def split: option.splits prod.splits)

lemma resolved_somehow:
  assumes "\<not> ec_closed (ss_engines s)"
  shows "\<exists>sl' p' s'. resolve_cookies hdr 1 (\<lambda>_. Inr ()) sl p discard s = (Inr sl', p', s')"
proof -
  have "\<not> ec_closed (ss_engines (s\<lparr>ss_generation := ss_generation s + 1\<rparr>))" using assms by simp
  then obtain r s2 where g: "get_slot 1 (\<lambda>_. Inr ()) (config_replace (ss_generation s + 1) (fst sl))
      (s\<lparr>ss_generation := ss_generation s + 1\<rparr>) = (Inr r, s2)"
    using slot_found by blast
  show ?thesis by (auto simp: resolve_cookies_def Let_def g [unfolded Suc_eq_plus1 [symmetric]])
qed

lemma sample_readable: "readable sample_url sample_view"
  using sample_request_view by (auto simp: readable_def)

lemma sample_wire: "wire_jar sample_wire_jar" "sent_line 0 sample_view sample_wire_jar = Some ''k=v''"
proof -
  have "\<forall>c \<in> set (jar_cookies sample_wire_jar). 0 \<le> ck_version c \<and> ck_name c \<noteq> []" by code_simp
  then show "wire_jar sample_wire_jar" using sample_wire_filed by (simp add: wire_jar_def)
  show "sent_line 0 sample_view sample_wire_jar = Some ''k=v''"
    by (simp add: sent_line_def sent_cookies_def sample_wire_sendable cookie_attr_def host_cookie_def)
qed

lemma fresh_open: "\<not> ec_closed (ss_engines (fresh_session j))"
  by (simp add: fresh_session_def sample_session_def ec_init_def)


text \<open>A redirect from another host to \<open>h.io\<close>, of a request with a line of its own.\<close>

definition hop_response :: response where
  "hop_response = rp_new\<lparr>rp_url := ''http://other.io/'', rp_status := Some 302,
     rp_headers := h_add ''Location'' (PyStr sample_url) (h_empty Utf8)\<rparr>"

definition hop_first :: "(jar, unit) prepared" where
  "hop_first = pr_empty\<lparr>pr_method := Some ''GET'', pr_url := ''http://other.io/'',
     pr_headers := h_setitem ''Cookie'' (PyStr ''o=2'') (h_empty Utf8)\<rparr>"

lemma hop_made: "\<exists>hop. next_hop jar_copy hop_response hop_first = Inr hop \<and> pr_url hop = sample_url \<and> pr_cookies hop = None"
proof -
  have urls: "urljoin ''http://other.io/'' sample_url = Inr sample_url" "requote_uri sample_url = Inr sample_url"
    "hostname_of ''http://other.io/'' = Inr (Some ''other.io'')" "hostname_of sample_url = Inr (Some ''h.io'')"
    by code_simp+
  have "h_get (rp_headers hop_response) ''location'' = Some sample_url"
    by (simp add: hop_response_def h_get_joined wf_intros h_get_list_add hop_keys)
      (simp add: h_get_list_def h_empty_def fields_of_def)
  moreover have "rp_url hop_response = ''http://other.io/''" by (simp add: hop_response_def)
  ultimately show ?thesis
    by (simp add: next_hop_def urls Let_def rebuild_auth_def drop_body_def rebuild_method_def pr_copy_def
        hop_first_def pr_empty_def)
qed


definition setting_response :: response where
  "setting_response = rp_new\<lparr>rp_url := sample_url, rp_status := Some 200,
     rp_headers := h_add ''Set-Cookie'' (PyStr ''id=7'') (h_empty Utf8)\<rparr>"


end
