(* ===== verification/Install_Cores.thy ===== *)
theory Install_Cores
  imports Exceptions "HOL-Library.List_Lexorder" "HOL-Library.Char_ord"
begin

text \<open>
  \<open>tools/install-core-binaries.py\<close>: copying freshly built Cores into \<open>core/binaries\<close> and
  rewriting their manifests.  The file system is the part of it the tool touches: the build
  directories, which it only reads, the installed files, the manifests and \<open>targets.json\<close>
  as the dictionaries they hold.  The hash and \<open>readelf\<close> are parameters.
\<close>

section \<open>Targets\<close>

text \<open>A target: its build directory, its library, and the files that come with it under a new name.\<close>

type_synonym target = "string \<times> string \<times> (string \<times> string) list"

definition windows_extras :: "(string \<times> string) list" where
  "windows_extras = [(''minicronet.dll.lib'', ''minicronet.lib'')]"

definition TARGETS :: "(string, target) odict" where
  "TARGETS =
     [(''linux-x86'', (''MiniCronet-linux-x86'', ''libminicronet.so'', [])),
      (''linux-x86_64'', (''MiniCronet-linux-x86_64'', ''libminicronet.so'', [])),
      (''linux-arm64'', (''MiniCronet-linux-arm64'', ''libminicronet.so'', [])),
      (''windows-x86'', (''MiniCronet-win-x86'', ''minicronet.dll'', windows_extras)),
      (''windows-x86_64'', (''MiniCronet-win-x86_64'', ''minicronet.dll'', windows_extras)),
      (''windows-arm64'', (''MiniCronet-win-arm64'', ''minicronet.dll'', windows_extras)),
      (''macos-x86_64'', (''MiniCronet-macos-x86_64'', ''libminicronet.dylib'', [])),
      (''macos-arm64'', (''MiniCronet-macos-arm64'', ''libminicronet.dylib'', []))]"

definition target_of :: "string \<Rightarrow> target" where
  "target_of name = the (od_get TARGETS name)"

section \<open>The files\<close>

datatype json_value = JText string | JInt int | JTexts "string list"

type_synonym manifest = "(string, json_value) odict"

record repo =
  rc_net :: bool
  rc_revision :: string
  rc_built :: "string \<Rightarrow> string \<Rightarrow> string option"
  rc_installed :: "string \<Rightarrow> string \<Rightarrow> string option"
  rc_manifests :: "string \<Rightarrow> manifest option"
  rc_targets :: manifest

record install_options =
  io_abi :: int
  io_names :: "string list"
  io_dry_run :: bool

text \<open>How a run ends: with an exit status, or with an exception (a manifest that is not there).\<close>

datatype ending = Exit nat | Raised

definition copied :: "string \<Rightarrow> string \<Rightarrow> string option \<Rightarrow> repo \<Rightarrow> repo" where
  "copied name file contents s =
     s\<lparr>rc_installed := (rc_installed s)(name := (rc_installed s name)(file := contents))\<rparr>"

text \<open>The names a \<open>readelf -d\<close> listing marks as needed.\<close>

definition elf_needed :: "(string \<Rightarrow> string option) \<Rightarrow> string \<Rightarrow> string list option" where
  "elf_needed readelf lib = map_option (\<lambda>out.
     map (\<lambda>line. takeWhile (\<lambda>c. c \<noteq> CHR '']'') (snd (split_once CHR ''['' line)))
       (filter (\<lambda>line. occurs_in ''(NEEDED)'' line \<and> CHR ''['' \<in> set line) (splitlines out))) (readelf lib)"

definition runtime_dependencies :: "string list \<Rightarrow> string list" where
  "runtime_dependencies needed =
     (let loader = filter (\<lambda>e. startswith e ''ld-'') needed
      in sort (remdups (filter (\<lambda>e. e \<notin> set loader) needed)) @ sort loader)"

section \<open>Installing\<close>

text \<open>
  The files of one target, in order: a source that is missing ends the run there, with what
  has been copied before it in place.
\<close>

primrec copy_files :: "bool \<Rightarrow> string \<Rightarrow> string \<Rightarrow> (string \<times> string) list \<Rightarrow> repo \<Rightarrow> bool \<times> repo" where
  "copy_files dry name out [] s = (True, s)"
| "copy_files dry name out (f # fs) s =
     (case rc_built s out (fst f) of
        None \<Rightarrow> (False, s)
      | Some c \<Rightarrow> copy_files dry name out fs (if dry then s else copied name (snd f) (Some c) s))"

definition library_octets :: "install_options \<Rightarrow> string \<Rightarrow> repo \<Rightarrow> string" where
  "library_octets opts name s = (case target_of name of (out, library, extras) \<Rightarrow>
     the (if io_dry_run opts then rc_built s out library else rc_installed s name library))"

definition extra_octets :: "install_options \<Rightarrow> string \<Rightarrow> repo \<Rightarrow> string \<times> string \<Rightarrow> string" where
  "extra_octets opts name s f = (case target_of name of (out, library, extras) \<Rightarrow>
     the (if io_dry_run opts then rc_built s out (fst f) else rc_installed s name (snd f)))"

definition new_manifest ::
  "(string \<Rightarrow> string) \<Rightarrow> (string \<Rightarrow> string option) \<Rightarrow> install_options \<Rightarrow> string \<Rightarrow> repo \<Rightarrow> manifest \<Rightarrow> manifest" where
  "new_manifest sha256 readelf opts name s m = (case target_of name of (out, library, extras) \<Rightarrow>
     let octets = library_octets opts name s;
         m1 = od_put ''abi_version'' (JInt (io_abi opts)) m;
         m2 = od_put ''chromium_revision'' (JText (py_strip (rc_revision s))) m1;
         m3 = od_put ''sha256'' (JText (sha256 octets)) m2;
         m4 = od_put ''size_bytes'' (JInt (int (length octets))) m3;
         m5 = fold (\<lambda>f m. if endswith (snd f) ''.lib''
                then od_put ''import_library_sha256'' (JText (sha256 (extra_octets opts name s f))) m else m) extras m4
     in case (if endswith library ''.so'' then elf_needed readelf octets else None) of
          None \<Rightarrow> m5
        | Some needed \<Rightarrow> if needed = [] then m5
            else od_put ''runtime_dependencies'' (JTexts (runtime_dependencies needed)) m5)"

definition install_target ::
  "(string \<Rightarrow> string) \<Rightarrow> (string \<Rightarrow> string option) \<Rightarrow> install_options \<Rightarrow> string \<Rightarrow> repo \<Rightarrow> ending option \<times> repo" where
  "install_target sha256 readelf opts name s = (case target_of name of (out, library, extras) \<Rightarrow>
     case rc_manifests s name of
       None \<Rightarrow> (Some Raised, s)
     | Some m \<Rightarrow>
         (case copy_files (io_dry_run opts) name out ((library, library) # extras) s of
            (False, s1) \<Rightarrow> (Some (Exit 1), s1)
          | (True, s1) \<Rightarrow> (None, if io_dry_run opts then s1
              else s1\<lparr>rc_manifests := (rc_manifests s1)(name \<mapsto> new_manifest sha256 readelf opts name s1 m)\<rparr>)))"

primrec install_targets ::
  "(string \<Rightarrow> string) \<Rightarrow> (string \<Rightarrow> string option) \<Rightarrow> install_options \<Rightarrow> string list \<Rightarrow> repo \<Rightarrow> ending option \<times> repo" where
  "install_targets sha256 readelf opts [] s = (None, s)"
| "install_targets sha256 readelf opts (name # names) s =
     (case install_target sha256 readelf opts name s of
        (Some e, s1) \<Rightarrow> (Some e, s1)
      | (None, s1) \<Rightarrow> install_targets sha256 readelf opts names s1)"

text \<open>The libraries that are not built; \<open>parser.error\<close> exits with status 2.\<close>

definition not_built :: "repo \<Rightarrow> string list \<Rightarrow> string list" where
  "not_built s names = filter (\<lambda>name. case target_of name of (out, library, extras) \<Rightarrow> rc_built s out library = None) names"

definition install_main ::
  "(string \<Rightarrow> string) \<Rightarrow> (string \<Rightarrow> string option) \<Rightarrow> install_options \<Rightarrow> repo \<Rightarrow> ending \<times> repo" where
  "install_main sha256 readelf opts s =
     (if \<not> rc_net s then (Exit 1, s)
      else if filter (\<lambda>name. \<not> od_has TARGETS name) (io_names opts) \<noteq> [] then (Exit 2, s)
      else if not_built s (io_names opts) \<noteq> [] then (Exit 1, s)
      else case install_targets sha256 readelf opts (io_names opts) s of
             (Some e, s1) \<Rightarrow> (e, s1)
           | (None, s1) \<Rightarrow> (Exit 0, if io_dry_run opts then s1
               else s1\<lparr>rc_targets := od_put ''abi_version'' (JInt (io_abi opts)) (rc_targets s1)\<rparr>))"

section \<open>Properties\<close>

lemma copy_files_dry: "snd (copy_files True name out fs s) = s"
  by (induction fs) (auto split: option.splits)

lemma copy_files_same:
  "rc_built (snd (copy_files dry name out fs s)) = rc_built s"
  "rc_manifests (snd (copy_files dry name out fs s)) = rc_manifests s"
  "rc_revision (snd (copy_files dry name out fs s)) = rc_revision s"
  "n \<noteq> name \<Longrightarrow> rc_installed (snd (copy_files dry name out fs s)) n = rc_installed s n"
  by (induction fs arbitrary: s) (auto simp: copied_def split: option.splits)

lemma copy_files_done:
  assumes "copy_files False name out fs s = (True, s')" and "distinct (map snd fs)" and "f \<in> set fs"
  shows "rc_installed s' name (snd f) = rc_built s out (fst f) \<and> rc_built s out (fst f) \<noteq> None"
proof -
  have keep: "rc_installed s' name g = rc_installed s name g"
    if "copy_files False name out fs s = (True, s')" and "g \<notin> snd ` set fs" for fs g s s'
    using that by (induction fs arbitrary: s) (auto simp: copied_def split: option.splits)
  from assms show ?thesis
  proof (induction fs arbitrary: s)
    case (Cons a fs)
    then obtain c where c: "rc_built s out (fst a) = Some c"
      and rest: "copy_files False name out fs (copied name (snd a) (Some c) s) = (True, s')"
      by (auto split: option.splits)
    show ?case
    proof (cases "f = a")
      case True
      with keep [OF rest, of "snd a"] Cons.prems(2) c show ?thesis by (simp add: copied_def)
    next
      case False
      with Cons.IH [OF rest] Cons.prems(2,3) show ?thesis by (simp add: copied_def)
    qed
  qed simp
qed

text \<open>A dry run writes nothing, however it ends.\<close>

theorem dry_run_writes_nothing:
  assumes "io_dry_run opts"
  shows "snd (install_main sha256 readelf opts s) = s"
proof -
  have "snd (install_target sha256 readelf opts name s) = s" for name
    using assms copy_files_dry [of name _ _ s]
    by (auto simp: install_target_def split: prod.splits option.splits bool.splits) (metis snd_conv)+
  then have "snd (install_targets sha256 readelf opts names s) = s" for names
    by (induction names) (auto split: prod.splits option.splits, metis snd_conv, metis snd_conv)
  with assms show ?thesis
    by (auto simp: install_main_def split: prod.splits option.splits) (metis snd_conv)+
qed

text \<open>What a finished run leaves of a target: the library that was built, and its description.\<close>

definition described :: "(string \<Rightarrow> string) \<Rightarrow> install_options \<Rightarrow> repo \<Rightarrow> repo \<Rightarrow> string \<Rightarrow> bool" where
  "described sha256 opts s s' name \<longleftrightarrow> (case target_of name of (out, library, extras) \<Rightarrow>
     \<exists>c m. rc_built s out library = Some c \<and> rc_installed s' name library = Some c
       \<and> (\<forall>f \<in> set extras. rc_installed s' name (snd f) = rc_built s out (fst f) \<and> rc_built s out (fst f) \<noteq> None)
       \<and> rc_manifests s' name = Some m
       \<and> od_get m ''abi_version'' = Some (JInt (io_abi opts))
       \<and> od_get m ''chromium_revision'' = Some (JText (py_strip (rc_revision s)))
       \<and> od_get m ''sha256'' = Some (JText (sha256 c))
       \<and> od_get m ''size_bytes'' = Some (JInt (int (length c))))"

lemma import_hash_only:
  "k \<noteq> ''import_library_sha256'' \<Longrightarrow>
   od_get (fold (\<lambda>f m. if P f then od_put ''import_library_sha256'' (h f) m else m) fs m) k = od_get m k"
  by (induction fs arbitrary: m) (auto simp: od_get_put)

lemma new_manifest_get:
  assumes "target_of name = (out, library, extras)" and "\<not> io_dry_run opts" and "rc_installed s name library = Some c"
  shows "od_get (new_manifest sha256 readelf opts name s m) ''abi_version'' = Some (JInt (io_abi opts))"
    "od_get (new_manifest sha256 readelf opts name s m) ''chromium_revision'' = Some (JText (py_strip (rc_revision s)))"
    "od_get (new_manifest sha256 readelf opts name s m) ''sha256'' = Some (JText (sha256 c))"
    "od_get (new_manifest sha256 readelf opts name s m) ''size_bytes'' = Some (JInt (int (length c)))"
  using assms
  by (simp_all add: new_manifest_def library_octets_def import_hash_only od_get_put Let_def split: option.splits)

lemma targets_distinct:
  assumes "target_of name = (out, library, extras)" and "od_has TARGETS name"
  shows "distinct (map snd ((library, library) # extras))"
proof -
  have "list_all (\<lambda>(n, out, library, extras). distinct (map snd ((library, library) # extras))) TARGETS" by code_simp
  moreover have "(name, out, library, extras) \<in> set TARGETS"
    using assms by (auto simp: target_of_def od_has_def od_get_def intro: map_of_SomeD)
  ultimately show ?thesis by (auto simp: list_all_iff)
qed

lemma install_target_done:
  assumes "install_target sha256 readelf opts name s = (None, s')" and "\<not> io_dry_run opts" and "od_has TARGETS name"
  shows "described sha256 opts s s' name" "rc_built s' = rc_built s" "rc_revision s' = rc_revision s"
    "n \<noteq> name \<Longrightarrow> rc_installed s' n = rc_installed s n \<and> rc_manifests s' n = rc_manifests s n"
proof -
  obtain out library extras where t: "target_of name = (out, library, extras)" by (cases "target_of name") auto
  let ?fs = "(library, library) # extras"
  obtain m s1 where m: "rc_manifests s name = Some m" and cp: "copy_files False name out ?fs s = (True, s1)"
    and s': "s' = s1\<lparr>rc_manifests := (rc_manifests s1)(name \<mapsto> new_manifest sha256 readelf opts name s1 m)\<rparr>"
    using assms(1,2) by (auto simp: install_target_def t split: option.splits prod.splits bool.splits simp del: copy_files.simps)
  have same: "rc_built s1 = rc_built s" "rc_manifests s1 = rc_manifests s" "rc_revision s1 = rc_revision s"
    "n \<noteq> name \<Longrightarrow> rc_installed s1 n = rc_installed s n"
    using copy_files_same [where dry = False and name = name and out = out and fs = ?fs and s = s] unfolding cp by simp_all
  note there = copy_files_done [OF cp targets_distinct [OF t assms(3)]]
  from there [of "(library, library)"] obtain c where c: "rc_built s out library = Some c" "rc_installed s1 name library = Some c"
    by auto
  show "described sha256 opts s s' name"
    using c there new_manifest_get [OF t assms(2) c(2)] same(3)
    by (auto simp: described_def t s')
  show "rc_built s' = rc_built s" "rc_revision s' = rc_revision s" using same by (simp_all add: s')
  show "n \<noteq> name \<Longrightarrow> rc_installed s' n = rc_installed s n \<and> rc_manifests s' n = rc_manifests s n"
    using same by (simp add: s')
qed

lemma described_cong:
  "rc_built s1 = rc_built s \<Longrightarrow> rc_revision s1 = rc_revision s \<Longrightarrow> described sha256 opts s1 s' name = described sha256 opts s s' name"
  by (simp add: described_def)

lemma described_keep:
  "rc_installed s1 name = rc_installed s' name \<Longrightarrow> rc_manifests s1 name = rc_manifests s' name \<Longrightarrow>
   described sha256 opts s s1 name = described sha256 opts s s' name"
  by (simp add: described_def)

lemma install_targets_done:
  assumes "install_targets sha256 readelf opts names s = (None, s')" and "\<not> io_dry_run opts"
    and "\<forall>n \<in> set names. od_has TARGETS n"
  shows "(n \<in> set names \<or> described sha256 opts s s n \<longrightarrow> described sha256 opts s s' n)"
  using assms(1,3)
proof (induction names arbitrary: s)
  case (Cons name names)
  then obtain s1 where s1: "install_target sha256 readelf opts name s = (None, s1)"
    and rest: "install_targets sha256 readelf opts names s1 = (None, s')"
    by (auto split: prod.splits option.splits)
  note one = install_target_done [OF s1 assms(2)]
  have has: "od_has TARGETS name" using Cons.prems(2) by simp
  have cong: "described sha256 opts s1 t k = described sha256 opts s t k" for t k
    using one(2,3) [OF has] by (rule described_cong)
  have "described sha256 opts s s1 n" if "n = name \<or> described sha256 opts s s n"
    using that one(1) [OF has] one(4) [OF has, of n] described_keep [of s1 n s] by (cases "n = name") auto
  with Cons.IH [OF rest] Cons.prems(2) cong show ?case by auto
qed simp


text \<open>
  The set is not all or nothing, although the tool says it refuses a partial one: only the
  libraries are looked for beforehand.  With the import library of a later target missing,
  the earlier targets have been replaced when the run fails.
\<close>

definition half_built :: repo where
  "half_built = \<lparr>rc_net = True, rc_revision = ''r'',
     rc_built = (\<lambda>out file. if file = ''minicronet.dll.lib'' then None else Some ''new''),
     rc_installed = (\<lambda>name file. Some ''old''), rc_manifests = (\<lambda>name. Some []), rc_targets = []\<rparr>"

lemma partial_install:
  "case install_main id (\<lambda>_. None) \<lparr>io_abi = 9, io_names = [''linux-x86'', ''windows-x86''], io_dry_run = False\<rparr> half_built of
     (e, s) \<Rightarrow> e = Exit 1 \<and> rc_installed s ''linux-x86'' ''libminicronet.so'' = Some ''new''
       \<and> rc_installed s ''windows-x86'' ''minicronet.dll'' = Some ''new''
       \<and> map_option (\<lambda>m. od_get m ''abi_version'') (rc_manifests s ''windows-x86'') = Some None
       \<and> rc_targets s = []"
  by code_simp

theorem dry_run_writes_nothing_witness:
  "snd (install_main id (\<lambda>_. None) \<lparr>io_abi = 9, io_names = [''linux-x86''], io_dry_run = True\<rparr> half_built) = half_built"
  by (rule dry_run_writes_nothing) simp


end
