(* ===== verification/WebSocket_Messages.thy ===== *)
theory WebSocket_Messages
  imports WebSockets Text_Codec
begin

text \<open>
  The rest of \<open>websockets.py\<close>: what a caller sends and receives through the two sockets.
  \<open>recv\<close> decodes text frames, the other reads convert its result; the sends hand a text or
  octets to the native socket, whose answer (or exception) is the call's; iterating is
  reading until the socket ends.
\<close>

section \<open>Names of the protocol\<close>

definition WsCloseCode :: "(string \<times> nat) list" where
  "WsCloseCode =
     [(''OK'', 1000), (''GOING_AWAY'', 1001), (''PROTOCOL_ERROR'', 1002), (''UNSUPPORTED'', 1003),
      (''NO_STATUS'', 1005), (''ABNORMAL'', 1006), (''INVALID_DATA'', 1007), (''POLICY_VIOLATION'', 1008),
      (''TOO_LARGE'', 1009), (''MISSING_EXTENSION'', 1010), (''INTERNAL_ERROR'', 1011),
      (''SERVICE_RESTART'', 1012), (''TRY_AGAIN_LATER'', 1013), (''BAD_GATEWAY'', 1014),
      (''TLS_HANDSHAKE_ERROR'', 1015)]"

definition CurlWsFrame :: "(string \<times> string) list" where
  "CurlWsFrame = [(''TEXT'', ''text''), (''BINARY'', ''binary''), (''CLOSE'', ''closed''), (''PING'', ''ping'')]"

section \<open>Sending\<close>

datatype message = TextMessage ustr | BinaryMessage string

datatype sent = SentText ustr | SentBytes string

text \<open>The result of a send is whatever the native call answers, exceptions included.\<close>

definition ws_send :: "(sent \<Rightarrow> 'r) \<Rightarrow> message \<Rightarrow> 'r" where
  "ws_send native m = (case m of TextMessage t \<Rightarrow> native (SentText t) | BinaryMessage b \<Rightarrow> native (SentBytes b))"

definition ws_send_str :: "(sent \<Rightarrow> 'r) \<Rightarrow> ustr \<Rightarrow> 'r" where
  "ws_send_str native t = native (SentText t)"

definition ws_send_bytes :: "(sent \<Rightarrow> 'r) \<Rightarrow> string \<Rightarrow> 'r" where
  "ws_send_bytes native b = native (SentBytes b)"

definition ws_send_json :: "('v \<Rightarrow> ustr) \<Rightarrow> (sent \<Rightarrow> 'r) \<Rightarrow> 'v \<Rightarrow> 'r" where
  "ws_send_json dumps native v = native (SentText (dumps v))"

definition ws_ping :: "(sent \<Rightarrow> 'r) \<Rightarrow> message option \<Rightarrow> 'r" where
  "ws_ping native payload = ws_send native (case payload of None \<Rightarrow> BinaryMessage [] | Some m \<Rightarrow> m)"

text \<open>The coroutines of \<open>AsyncWebSocket\<close> make the same native calls.\<close>

definition aw_send :: "(sent \<Rightarrow> 'r) \<Rightarrow> message \<Rightarrow> 'r" where
  "aw_send native m = (case m of TextMessage t \<Rightarrow> native (SentText t) | BinaryMessage b \<Rightarrow> native (SentBytes b))"

definition aw_send_str :: "(sent \<Rightarrow> 'r) \<Rightarrow> ustr \<Rightarrow> 'r" where
  "aw_send_str native t = native (SentText t)"

definition aw_send_bytes :: "(sent \<Rightarrow> 'r) \<Rightarrow> string \<Rightarrow> 'r" where
  "aw_send_bytes native b = native (SentBytes b)"

definition aw_send_json :: "('v \<Rightarrow> ustr) \<Rightarrow> (sent \<Rightarrow> 'r) \<Rightarrow> 'v \<Rightarrow> 'r" where
  "aw_send_json dumps native v = native (SentText (dumps v))"

definition aw_ping :: "(sent \<Rightarrow> 'r) \<Rightarrow> message option \<Rightarrow> 'r" where
  "aw_ping native payload = aw_send native (case payload of None \<Rightarrow> BinaryMessage [] | Some m \<Rightarrow> m)"

section \<open>Receiving\<close>

text \<open>What a read gives: a value, \<open>None\<close>, an exception, or nothing yet.\<close>

datatype 'a got = Got 'a | GotNone | GotError exc_class string "nat option" | GotWait

definition message_of :: "ws_kind \<Rightarrow> string \<Rightarrow> message" where
  "message_of k d = (if k = KText then TextMessage (decode_replace utf8_decoder d) else BinaryMessage d)"

definition got_message :: "ws_got \<Rightarrow> message got" where
  "got_message g = (case g of
     Frame k d \<Rightarrow> Got (message_of k d)
   | NoFrame \<Rightarrow> GotNone
   | WsRaise c m code \<Rightarrow> GotError c m code
   | Blocked \<Rightarrow> GotWait)"

definition as_text :: "message got \<Rightarrow> ustr got" where
  "as_text g = (case g of
     Got (TextMessage t) \<Rightarrow> Got t
   | Got (BinaryMessage b) \<Rightarrow> Got (decode_replace utf8_decoder b)
   | GotNone \<Rightarrow> Got []
   | GotError c m code \<Rightarrow> GotError c m code
   | GotWait \<Rightarrow> GotWait)"

definition as_bytes :: "message got \<Rightarrow> string got" where
  "as_bytes g = (case g of
     Got (TextMessage t) \<Rightarrow> Got (utf8_text t)
   | Got (BinaryMessage b) \<Rightarrow> Got b
   | GotNone \<Rightarrow> GotNone
   | GotError c m code \<Rightarrow> GotError c m code
   | GotWait \<Rightarrow> GotWait)"

definition as_json :: "(ustr \<Rightarrow> exc_class + 'v) \<Rightarrow> ustr got \<Rightarrow> 'v got" where
  "as_json loads g = (case g of
     Got t \<Rightarrow> (case loads t of Inl e \<Rightarrow> GotError e [] None | Inr v \<Rightarrow> Got v)
   | GotNone \<Rightarrow> GotNone
   | GotError c m code \<Rightarrow> GotError c m code
   | GotWait \<Rightarrow> GotWait)"

type_synonym feed = "ws_event option list"

definition ws_recv_message :: "feed \<Rightarrow> ws \<Rightarrow> message got \<times> feed \<times> ws" where
  "ws_recv_message feed s = (case ws_recv feed s of (g, r) \<Rightarrow> (got_message g, r))"

definition ws_recv_text :: "feed \<Rightarrow> ws \<Rightarrow> ustr got \<times> feed \<times> ws" where
  "ws_recv_text feed s = (case ws_recv_message feed s of (g, r) \<Rightarrow> (as_text g, r))"

definition ws_recv_bytes :: "feed \<Rightarrow> ws \<Rightarrow> string got \<times> feed \<times> ws" where
  "ws_recv_bytes feed s = (case ws_recv_message feed s of (g, r) \<Rightarrow> (as_bytes g, r))"

definition ws_recv_json :: "(ustr \<Rightarrow> exc_class + 'v) \<Rightarrow> feed \<Rightarrow> ws \<Rightarrow> 'v got \<times> feed \<times> ws" where
  "ws_recv_json loads feed s = (case ws_recv_text feed s of (g, r) \<Rightarrow> (as_json loads g, r))"

definition aw_recv_message :: "aws \<Rightarrow> message got \<times> aws" where
  "aw_recv_message s = (case aw_recv s of (g, s') \<Rightarrow> (got_message g, s'))"

definition aw_recv_text :: "aws \<Rightarrow> ustr got \<times> aws" where
  "aw_recv_text s = (case aw_recv_message s of (g, s') \<Rightarrow> (as_text g, s'))"

definition aw_recv_bytes :: "aws \<Rightarrow> string got \<times> aws" where
  "aw_recv_bytes s = (case aw_recv_message s of (g, s') \<Rightarrow> (as_bytes g, s'))"

definition aw_recv_json :: "(ustr \<Rightarrow> exc_class + 'v) \<Rightarrow> aws \<Rightarrow> 'v got \<times> aws" where
  "aw_recv_json loads s = (case aw_recv_text s of (g, s') \<Rightarrow> (as_json loads g, s'))"

definition frame_name :: "ws_kind \<Rightarrow> string" where
  "frame_name k = (case k of KText \<Rightarrow> ''text'' | KBinary \<Rightarrow> ''binary'' | KPing \<Rightarrow> ''ping'' | _ \<Rightarrow> ''open'')"

definition aw_recv_fragment :: "aws \<Rightarrow> (string \<times> string) got \<times> aws" where
  "aw_recv_fragment s = (case aw_next s of (g, s') \<Rightarrow>
     (case g of
        Frame k d \<Rightarrow> Got (d, frame_name k)
      | NoFrame \<Rightarrow> Got ([], ''closed'')
      | WsRaise c m code \<Rightarrow> GotError c m code
      | Blocked \<Rightarrow> GotWait, s'))"

section \<open>Opening, iterating, leaving\<close>

text \<open>\<open>open\<close> cancels the native socket when the wait for the handshake raises.\<close>

definition aw_open :: "bool \<Rightarrow> aws \<Rightarrow> ws_got \<times> aws" where
  "aw_open expired s =
     (case aw_await_open expired s of
        (WsRaise c m code, s') \<Rightarrow> (WsRaise c m code, s'\<lparr>aw_cancels := aw_cancels s' + 1\<rparr>)
      | r \<Rightarrow> r)"

definition ws_is_closed :: "bool \<Rightarrow> ws \<Rightarrow> bool" where
  "ws_is_closed finished s \<longleftrightarrow> ws_closed s \<or> finished"

datatype iteration = Stopped | Broken exc_class string "nat option" | Suspended

function ws_iter :: "feed \<Rightarrow> ws \<Rightarrow> message list \<times> iteration \<times> ws" where
  "ws_iter feed s =
     (case ws_recv feed s of
        (Frame k d, feed', s') \<Rightarrow> (case ws_iter feed' s' of (ms, r) \<Rightarrow> (message_of k d # ms, r))
      | (NoFrame, _, s') \<Rightarrow> ([], Stopped, s')
      | (WsRaise c m code, _, s') \<Rightarrow>
          ([], if is_subclass c WebSocketClosed then Stopped else Broken c m code, s')
      | (Blocked, _, s') \<Rightarrow> ([], Suspended, s'))"
  by pat_completeness auto
termination
  by (relation "measure (\<lambda>(feed, s). length (ws_pending s) + length feed)")
    (auto dest: ws_recv_consumes [OF sym])

declare ws_iter.simps [simp del]

text \<open>\<open>__anext__\<close>: \<open>GotNone\<close> stands for \<open>StopAsyncIteration\<close>.\<close>

definition aw_anext :: "aws \<Rightarrow> message got \<times> aws" where
  "aw_anext s = (case aw_recv_message s of
     (GotError c m code, s') \<Rightarrow> (if is_subclass c WebSocketClosed then GotNone else GotError c m code, s')
   | r \<Rightarrow> r)"

definition ws_exit :: "ws \<Rightarrow> ws" where
  "ws_exit s = ws_close OK [] s"

definition aw_exit :: "aws \<Rightarrow> aws" where
  "aw_exit s = aw_close OK [] s"

section \<open>Properties\<close>

text \<open>
  A message reaches the peer as it was sent: the frame a \<open>send\<close> puts on the wire, a text in
  UTF-8, is read by either kind of socket as the same message.
\<close>

definition wire_event :: "sent \<Rightarrow> ws_event" where
  "wire_event m = (case m of SentText t \<Rightarrow> (KText, utf8_text t, None, []) | SentBytes b \<Rightarrow> (KBinary, b, None, []))"

definition proper :: "message \<Rightarrow> bool" where
  "proper m \<longleftrightarrow> (case m of TextMessage t \<Rightarrow> list_all scalar t | BinaryMessage b \<Rightarrow> True)"

lemma wire_message:
  assumes "ws_send id m = w" and "proper m"
  shows "got_message (ws_judge (wire_event w)) = Got m" "\<not> ws_ends (ev_kind (wire_event w))"
    "ev_kind (wire_event w) \<noteq> KOpen"
  using assms utf8_roundtrip(2)
  by (auto simp: ws_send_def wire_event_def got_message_def ws_judge_def message_of_def ws_ends_def proper_def
      split: message.splits if_splits)


text \<open>
  Iterating a socket gives every frame once, in the order of arrival, the open events
  apart, until the socket ends; a closing handshake ends the iteration quietly and an error
  event raises.
\<close>

definition as_messages :: "ws_event list \<Rightarrow> message list" where
  "as_messages es = map (\<lambda>e. message_of (ev_kind e) (ev_data e)) (filter (\<lambda>e. ev_kind e \<noteq> KOpen) es)"

lemma ws_iter_cong: "ws_recv feed s = ws_recv feed' s' \<Longrightarrow> ws_iter feed s = ws_iter feed' s'"
  by (subst (1 2) ws_iter.simps) simp

theorem iteration_in_order:
  assumes "ws_pending s = []" and "list_all (\<lambda>e. \<not> ws_ends (ev_kind e)) es" and "ws_ends (ev_kind e)"
  shows "ws_iter (map Some es @ Some e # rest) s =
    (as_messages es, (case ws_judge e of WsRaise WebSocketError m code \<Rightarrow> Broken WebSocketError m code | _ \<Rightarrow> Stopped),
     s\<lparr>ws_closed := True\<rparr>)"
  using assms(2)
proof (induction es)
  case Nil
  have "ws_judge e = NoFrame \<or> (\<exists>m. ws_judge e = WsRaise WebSocketError m None)
      \<or> (\<exists>m code. ws_judge e = WsRaise WebSocketClosed m code)"
    using assms(3) by (cases e) (auto simp: ws_judge_def ws_ends_def)
  then show ?case
    using assms(1,3) by (subst ws_iter.simps) (auto simp: ws_recv_end not_closed_class as_messages_def)
next
  case (Cons a es)
  show ?case
  proof (cases "ev_kind a = KOpen")
    case True
    then have "ws_iter (map Some (a # es) @ Some e # rest) s = ws_iter (map Some es @ Some e # rest) s"
      using assms(1) Cons.prems by (intro ws_iter_cong) (simp add: ws_recv_feed)
    with Cons True show ?thesis by (simp add: as_messages_def)
  next
    case False
    with Cons assms(1) show ?thesis by (subst ws_iter.simps) (simp add: ws_recv_feed as_messages_def)
  qed
qed

text \<open>A failed handshake cancels the native socket; an open one is left alone.\<close>

lemma failed_open_cancels:
  "aw_open expired s = (WsRaise c m code, s') \<Longrightarrow> aw_cancels s' = aw_cancels s + 1"
  by (auto simp: aw_open_def aw_await_open_def split: prod.splits ws_got.splits list.splits if_splits)

text \<open>
  A ping without a payload is a binary frame: the default is a \<open>bytes\<close> object, although the
  method is described as sending an empty text frame.
\<close>

lemma ping_is_binary: "ws_ping native None = native (SentBytes [])" "aw_ping native None = native (SentBytes [])"
  by (simp_all add: ws_ping_def ws_send_def aw_ping_def aw_send_def)


theorem iteration_in_order_witness:
  "ws_iter [Some (KOpen, [], None, []), Some (KBinary, ''x'', None, []), Some (KClosed, [], Some 1000, [])]
      (ws_init False True []) = ([BinaryMessage ''x''], Stopped, (ws_init False True [])\<lparr>ws_closed := True\<rparr>)"
  using iteration_in_order [of "ws_init False True []" "[(KOpen, [], None, []), (KBinary, ''x'', None, [])]"
      "(KClosed, [], Some 1000, [])" "[]"]
  by (simp add: ws_init_def ws_ends_def ws_judge_def as_messages_def message_of_def)

end
