(* ===== verification/Session_Streams.thy ===== *)
theory Session_Streams
  imports Session_Calls WebSocket_Messages
begin

text \<open>
  What \<open>sessions.py\<close> puts around a call: the verbs, \<open>stream\<close> as a flag and as a context
  manager, what the native request is called with, uploads, redirects followed from Python by
  an \<open>AsyncSession\<close>, and opening WebSockets.
\<close>

section \<open>Verbs\<close>

datatype verb = VGet | VOptions | VHead | VPost | VPut | VPatch | VDelete | VTrace | VQuery

definition method_of :: "verb \<Rightarrow> string" where
  "method_of v = (case v of
     VGet \<Rightarrow> ''GET'' | VOptions \<Rightarrow> ''OPTIONS'' | VHead \<Rightarrow> ''HEAD'' | VPost \<Rightarrow> ''POST'' | VPut \<Rightarrow> ''PUT''
   | VPatch \<Rightarrow> ''PATCH'' | VDelete \<Rightarrow> ''DELETE'' | VTrace \<Rightarrow> ''TRACE'' | VQuery \<Rightarrow> ''QUERY'')"

text \<open>
  A verb is \<open>request\<close> with its method; \<open>allow\<close> is the \<open>allow_redirects\<close> keyword if it is
  given, for which \<open>head\<close> has its own default.  The coroutines of \<open>AsyncSession\<close> do the same.
\<close>

definition verb_call :: "verb \<Rightarrow> bool option option \<Rightarrow> 'h call \<Rightarrow> 'h call" where
  "verb_call v allow c = c\<lparr>cl_method := Some (method_of v),
     cl_transport := (cl_transport c)\<lparr>co_allow_redirects := verb_allow (v = VHead) allow\<rparr>\<rparr>"

definition session_verb :: "('h call \<Rightarrow> 'r) \<Rightarrow> verb \<Rightarrow> bool option option \<Rightarrow> 'h call \<Rightarrow> 'r" where
  "session_verb request v allow c = request (verb_call v allow c)"

definition async_session_verb :: "('h call \<Rightarrow> 'r) \<Rightarrow> verb \<Rightarrow> bool option option \<Rightarrow> 'h call \<Rightarrow> 'r" where
  "async_session_verb request v allow c = request (verb_call v allow c)"

section \<open>The stream flag\<close>

text \<open>\<open>_StreamFlag\<close> is the integer 0 or 1; calling it opens a streaming context.\<close>

definition stream_flag :: "bool \<Rightarrow> int" where
  "stream_flag b = (if b then 1 else 0)"

definition streaming :: "'h call \<Rightarrow> 'h call" where
  "streaming c = c\<lparr>cl_transport := (cl_transport c)\<lparr>co_stream := Some True\<rparr>\<rparr>"

text \<open>
  \<open>with session.stream(method, url) as response\<close>: \<open>body\<close> is what the block does with the
  response, raising or not; the response is closed when the block is left either way.
\<close>

definition stream_context ::
  "('h call \<Rightarrow> 's \<Rightarrow> (exc + 'h reply) \<times> 's) \<Rightarrow> ('h reply \<Rightarrow> (exc + 'a) \<times> 'h reply) \<Rightarrow> 'h call \<Rightarrow> 's
   \<Rightarrow> (exc + 'a) \<times> 'h reply option \<times> 's" where
  "stream_context request body c s =
     (case request (streaming c) s of
        (Inl e, s') \<Rightarrow> (Inl e, None, s')
      | (Inr re, s') \<Rightarrow> (case body re of
          (out, re') \<Rightarrow> (out, Some (re'\<lparr>re_response := rp_close (re_response re')\<rparr>), s')))"

section \<open>The native request\<close>

record native_call =
  nc_method :: "string option"
  nc_url :: string
  nc_fields :: "(string \<times> string) list"
  nc_body :: "body_source option"
  nc_timeout :: "nat option"
  nc_follow :: bool
  nc_cache_mode :: "string option"
  nc_priority :: "string option"
  nc_upload :: bool

definition native_request ::
  "(jar, 'h) prepared \<Rightarrow> timeout_arg \<Rightarrow> bool \<Rightarrow> string option \<Rightarrow> string option \<Rightarrow> exc_class + native_call" where
  "native_request p timeout follow cache_mode priority =
     bind_res (split_timeout timeout) (\<lambda>limit.
       Inr \<lparr>nc_method = pr_method p, nc_url = pr_url p, nc_fields = wire_headers p,
            nc_body = (if pr_stream_body p then None else pr_body p), nc_timeout = limit, nc_follow = follow,
            nc_cache_mode = cache_mode, nc_priority = priority, nc_upload = pr_stream_body p\<rparr>)"

datatype response_class = Plain | Asynchronous | Custom nat

definition new_response :: "nat option \<Rightarrow> bool \<Rightarrow> response_class" where
  "new_response custom async_mode =
     (case custom of Some c \<Rightarrow> Custom c | None \<Rightarrow> if async_mode then Asynchronous else Plain)"

text \<open>\<open>merge_environment_settings\<close>: the two entries that only merge.\<close>

definition merge_environment_plain :: "'a option \<Rightarrow> 'a option \<Rightarrow> 'a option" where
  "merge_environment_plain given own = (case given of None \<Rightarrow> own | Some v \<Rightarrow> Some v)"

section \<open>Uploads\<close>

text \<open>
  The native side takes chunks and then the end of the body; each may fail with a text.
  The synchronous session writes what \<open>iter_body\<close> gives, the asynchronous one also what an
  asynchronous iterator gives.
\<close>

primrec upload_chunks :: "(string \<Rightarrow> 'n \<Rightarrow> string + 'n) \<Rightarrow> string list \<Rightarrow> 'n \<Rightarrow> string + 'n" where
  "upload_chunks write [] n = Inr n"
| "upload_chunks write (c # cs) n = bind_res (write c n) (upload_chunks write cs)"

datatype async_body = AsyncChunks "mval list" | SyncBody body_source

fun body_chunks :: "nat \<Rightarrow> async_body \<Rightarrow> string list" where
  "body_chunks k (AsyncChunks xs) = map (to_bytes Utf8) xs"
| "body_chunks k (SyncBody src) = iter_body k src"

definition feed_upload ::
  "(string \<Rightarrow> 'n \<Rightarrow> string + 'n) \<Rightarrow> ('n \<Rightarrow> string + 'n) \<Rightarrow> nat \<Rightarrow> async_body \<Rightarrow> 'n \<Rightarrow> string + 'n" where
  "feed_upload write finish k body n = bind_res (upload_chunks write (body_chunks k body) n) finish"

definition send_upload ::
  "(string \<Rightarrow> 'n \<Rightarrow> string + 'n) \<Rightarrow> ('n \<Rightarrow> string + 'n) \<Rightarrow> nat \<Rightarrow> body_source \<Rightarrow> 'n \<Rightarrow> exc + 'n" where
  "send_upload write finish k src n =
     (case bind_res (upload_chunks write (iter_body k src) n) finish of
        Inl m \<Rightarrow> Inl (map_native_error m) | Inr n' \<Rightarrow> Inr n')"

section \<open>Redirects of an AsyncSession\<close>

text \<open>\<open>_follow_in_python\<close> as a coroutine; \<open>read\<close> is \<open>await response.acontent()\<close>.\<close>

fun async_hops ::
  "('h reply \<Rightarrow> exc + 'h reply) \<Rightarrow> ((jar, 'h) prepared \<Rightarrow> 's \<Rightarrow> (exc + 'h reply) \<times> (jar, 'h) prepared \<times> 's)
   \<Rightarrow> nat \<Rightarrow> response list \<Rightarrow> (jar, 'h) prepared \<Rightarrow> 'h reply \<Rightarrow> 's \<Rightarrow> (exc + 'h reply) \<times> 's" where
  "async_hops read send left history hop_request re s =
     (if \<not> is_redirect (re_response re)
      then (Inr (if history = [] then re else re\<lparr>re_history := history @ re_history re\<rparr>), s)
      else case left of
        0 \<Rightarrow> (Inl (bare_exc TooManyRedirects), s)
      | Suc n \<Rightarrow>
          (case read re of
             Inl e \<Rightarrow> (Inl e, s)
           | Inr re1 \<Rightarrow>
               (case lift_exc (next_hop jar_copy (re_response re1) hop_request) of
                  Inl e \<Rightarrow> (Inl e, s)
                | Inr hop \<Rightarrow>
                    (case send hop s of
                       (Inl e, _, s') \<Rightarrow> (Inl e, s')
                     | (Inr re', hop', s') \<Rightarrow> async_hops read send n (history @ [re_response re1]) hop' re' s'))))"

declare async_hops.simps [simp del]

section \<open>Opening a WebSocket\<close>

text \<open>
  \<open>deadline = None if not timeout else monotonic() + timeout\<close>: a pair of timeouts, which
  every request accepts, cannot be added to the clock.
\<close>

definition ws_deadline :: "nat \<Rightarrow> timeout_arg \<Rightarrow> exc_class + nat option" where
  "ws_deadline now t = (case t of
     NoTimeout \<Rightarrow> Inr None
   | OneTimeout n \<Rightarrow> Inr (if n = 0 then None else Some (now + n))
   | TimeoutTuple vs \<Rightarrow> if vs = [] then Inr None else Inl TypeError)"

definition ws_timeout :: "timeout_arg \<Rightarrow> session \<Rightarrow> timeout_arg" where
  "ws_timeout t s = (if t = NoTimeout then st_timeout (ss_set s) else t)"

text \<open>The errors of the package stay; a bare \<open>RuntimeError\<close> of the native layer is named.\<close>

definition ws_failure :: "exc \<Rightarrow> exc" where
  "ws_failure e =
     (if is_subclass (exc_kind e) RequestException then e
      else if is_subclass (exc_kind e) RuntimeError then map_native_error (exc_msg e) else e)"

datatype 'a ws_opening = Opened 'a | OpenFailed exc | Opening

definition session_websocket ::
  "(jar \<Rightarrow> string \<Rightarrow> string option) \<Rightarrow> environ \<Rightarrow> (string \<Rightarrow> string option) \<Rightarrow> int \<Rightarrow> (config \<Rightarrow> exc + unit)
   \<Rightarrow> (slot \<Rightarrow> handshake \<Rightarrow> string + unit) \<Rightarrow> nat \<Rightarrow> (nat \<times> ws_event option) list
   \<Rightarrow> options \<Rightarrow> string \<Rightarrow> string \<Rightarrow> update_src option \<Rightarrow> timeout_arg \<Rightarrow> string list \<Rightarrow> session
   \<Rightarrow> ws ws_opening \<times> session" where
  "session_websocket hdr env read_file pid build connect now feed opts url origin headers timeout protocols s =
     (case open_websocket hdr env read_file pid build opts url origin headers timeout protocols s of
        (Inl e, s1) \<Rightarrow> (OpenFailed (ws_failure e), s1)
      | (Inr (sl, hs), s1) \<Rightarrow>
          (case connect sl hs of
             Inl m \<Rightarrow> OpenFailed (map_native_error m)
           | Inr _ \<Rightarrow>
               (case ws_deadline now (ws_timeout timeout s) of
                  Inl c \<Rightarrow> OpenFailed (bare_exc c)
                | Inr d \<Rightarrow>
                    (case ws_await_open d feed (ws_init False False []) of
                       (WsRaise c m code, w) \<Rightarrow> OpenFailed \<lparr>exc_kind = c, exc_msg = m\<rparr>
                     | (Blocked, w) \<Rightarrow> Opening
                     | (_, w) \<Rightarrow> Opened w)), s1))"

text \<open>
  \<open>AsyncSession.websocket\<close>: \<open>drained\<close> is the socket as the polls have left it when the wait
  for the handshake is looked at, \<open>expired\<close> whether its deadline has passed.
\<close>

definition async_session_websocket ::
  "(jar \<Rightarrow> string \<Rightarrow> string option) \<Rightarrow> environ \<Rightarrow> (string \<Rightarrow> string option) \<Rightarrow> int \<Rightarrow> (config \<Rightarrow> exc + unit)
   \<Rightarrow> (slot \<Rightarrow> handshake \<Rightarrow> string + aws) \<Rightarrow> bool
   \<Rightarrow> options \<Rightarrow> string \<Rightarrow> string \<Rightarrow> update_src option \<Rightarrow> timeout_arg \<Rightarrow> string list \<Rightarrow> session
   \<Rightarrow> aws ws_opening \<times> session" where
  "async_session_websocket hdr env read_file pid build start expired opts url origin headers timeout protocols s =
     (case open_websocket hdr env read_file pid build opts url origin headers timeout protocols s of
        (Inl e, s1) \<Rightarrow> (OpenFailed (ws_failure e), s1)
      | (Inr (sl, hs), s1) \<Rightarrow>
          (case start sl hs of
             Inl m \<Rightarrow> OpenFailed (map_native_error m)
           | Inr drained \<Rightarrow>
               (case ws_deadline 0 (ws_timeout timeout s) of
                  Inl c \<Rightarrow> OpenFailed (bare_exc c)
                | Inr d \<Rightarrow>
                    (case aw_open (expired \<and> d \<noteq> None) drained of
                       (WsRaise c m code, a) \<Rightarrow> OpenFailed (ws_failure \<lparr>exc_kind = c, exc_msg = m\<rparr>)
                     | (Blocked, a) \<Rightarrow> Opening
                     | (_, a) \<Rightarrow> Opened a)), s1))"

section \<open>Properties\<close>

text \<open>
  An upload hands over the octets of the body and nothing else: with a native side that
  records what it is given, the chunks arrive in order and the end of the body once, after
  the last; with one that refuses a chunk, the error is the upload's and the chunks after it
  are not written.
\<close>

definition recording :: "string \<Rightarrow> string list \<Rightarrow> string + string list" where
  "recording c n = Inr (n @ [c])"

lemma upload_chunks_recording: "upload_chunks recording cs n = Inr (n @ cs)"
  by (induction cs arbitrary: n) (simp_all add: recording_def)

lemma upload_chunks_append:
  "upload_chunks write (cs @ ds) n = bind_res (upload_chunks write cs n) (upload_chunks write ds)"
  by (induction cs arbitrary: n) (auto simp: bind_res_def split: sum.splits)

definition body_octets :: "async_body \<Rightarrow> string" where
  "body_octets b = (case b of
     AsyncChunks xs \<Rightarrow> concat (map (to_bytes Utf8) xs)
   | SyncBody (SBytes s) \<Rightarrow> s
   | SyncBody (SText t) \<Rightarrow> utf8_encode t
   | SyncBody (SFile f) \<Rightarrow> file_content f
   | SyncBody (SIter xs) \<Rightarrow> concat (map (to_bytes Utf8) xs)
   | SyncBody (SPairs ps) \<Rightarrow> concat (map (\<lambda>p. utf8_encode (fst p)) ps)
   | SyncBody SNone \<Rightarrow> [])"

theorem upload_delivers_body:
  assumes "0 < k"
  shows "\<exists>cs. feed_upload recording (\<lambda>n. Inr (n @ [''<end>''])) k body [] = Inr (cs @ [''<end>''])
    \<and> concat cs = body_octets body
    \<and> (\<forall>src. body = SyncBody src \<longrightarrow>
         send_upload recording (\<lambda>n. Inr (n @ [''<end>''])) k src [] = Inr (cs @ [''<end>'']))"
proof -
  have "concat (body_chunks k body) = body_octets body"
    using assms by (cases body; cases "case body of SyncBody s \<Rightarrow> s | AsyncChunks xs \<Rightarrow> SNone")
      (auto simp: body_octets_def concat_blocks)
  then show ?thesis
    by (intro exI [of _ "body_chunks k body"]) (auto simp: feed_upload_def send_upload_def upload_chunks_recording)
qed

theorem upload_delivers_body_witness:
  "\<exists>cs. feed_upload recording (\<lambda>n. Inr (n @ [''<end>''])) 2 (SyncBody (SBytes ''abc'')) [] = Inr (cs @ [''<end>''])
    \<and> concat cs = ''abc''"
  using upload_delivers_body [of 2 "SyncBody (SBytes ''abc'')"] by (auto simp: body_octets_def)

lemma upload_stops_at_refusal:
  assumes "upload_chunks write cs n = Inr n'" and "write c n' = Inl m"
  shows "feed_upload write finish k (AsyncChunks xs) n = Inl m \<or> map (to_bytes Utf8) xs \<noteq> cs @ c # ds"
  using assms by (auto simp: feed_upload_def upload_chunks_append)

text \<open>The coroutine follows redirects as the synchronous method does.\<close>

lemma async_hops_follow_hops:
  assumes "\<And>re. read re = (case rp_get_content (re_response re) of
      (Inl e, _) \<Rightarrow> Inl e | (Inr _, resp) \<Rightarrow> Inr (re\<lparr>re_response := resp\<rparr>))"
  shows "async_hops read send left history p re s = follow_hops send left history p re s"
proof (induction left arbitrary: history p re s)
  case 0
  show ?case by (subst async_hops.simps, subst follow_hops.simps) simp
next
  case (Suc left)
  show ?case
    by (subst async_hops.simps, subst follow_hops.simps)
      (auto simp: assms Suc.IH split: prod.splits sum.splits)
qed

text \<open>Leaving a streaming context closes the response, whatever the block did.\<close>

lemma stream_context_closes:
  "stream_context request body c s = (out, Some re, s') \<Longrightarrow> rp_reader (re_response re) = None"
  by (auto simp: stream_context_def rp_close_def split: prod.splits sum.splits)

text \<open>
  A pair of timeouts never opens a WebSocket: after the native socket has connected, the
  deadline raises \<open>TypeError\<close>, and nothing closes the socket.
\<close>

lemma websocket_refuses_timeout_pair:
  assumes "session_websocket hdr env read_file pid build connect now feed opts url origin headers
      (TimeoutTuple (v # vs)) protocols s = (r, s')"
  shows "r \<noteq> Opened w"
  using assms by (auto simp: session_websocket_def ws_deadline_def ws_timeout_def split: prod.splits sum.splits)

end
