(* ===== verification/Url_Tools.thy ===== *)
theory Url_Tools
  imports Utils Text_Codec
begin

text \<open>
  The rest of \<open>utils.py\<close>: credentials in a URL, removing fragments, supplying a scheme, the
  \<open>netrc\<close> lookup, sizes of bodies and the small defaults.
\<close>

section \<open>Credentials in a URL\<close>

text \<open>
  \<open>urllib.parse.unquote\<close>: each run of ASCII characters is unquoted to octets that are
  decoded as UTF-8 with replacement; other characters stay.
\<close>

definition ascii_char :: "char \<Rightarrow> bool" where
  "ascii_char c \<longleftrightarrow> cp c < 128"

function unquote_text :: "string \<Rightarrow> ustr" where
  "unquote_text [] = []"
| "unquote_text (c # s) =
     (if ascii_char c
      then decode_replace utf8_decoder (unquote_octets (takeWhile ascii_char (c # s)))
             @ unquote_text (dropWhile ascii_char (c # s))
      else cp c # unquote_text s)"
  by pat_completeness auto
termination
  by (relation "measure length") (auto intro: le_imp_less_Suc length_dropWhile_le)

definition get_auth_from_url :: "string \<Rightarrow> exc_class + ustr \<times> ustr" where
  "get_auth_from_url url = bind_res (urlparse url) (\<lambda>p.
     case userinfo (u_netloc p) of (user, pw) \<Rightarrow>
       Inr (unquote_text (case user of None \<Rightarrow> [] | Some u \<Rightarrow> u), unquote_text (case pw of None \<Rightarrow> [] | Some w \<Rightarrow> w)))"

section \<open>Rewriting a URL\<close>

definition urldefragauth :: "string \<Rightarrow> exc_class + string" where
  "urldefragauth url = bind_res (urlparse url) (\<lambda>p.
     let (netloc, path) = (if u_netloc p = [] then (u_path p, u_netloc p) else (u_netloc p, u_path p));
         host = (case rpartition_at CHR ''@'' netloc of (_, _, h) \<Rightarrow> h)
     in Inr (urlunparse (p\<lparr>u_netloc := host, u_path := path, u_fragment := []\<rparr>)))"

definition prepend_scheme_if_needed :: "string \<Rightarrow> string \<Rightarrow> exc_class + string" where
  "prepend_scheme_if_needed url new_scheme = bind_res (urlparse_with new_scheme url) (\<lambda>p.
     Inr (urlunparse (if u_netloc p = [] then p\<lparr>u_netloc := u_path p, u_path := []\<rparr> else p)))"

section \<open>netrc\<close>

text \<open>
  \<open>expand\<close> is \<open>os.path.expanduser\<close>, \<open>exists\<close> asks the file system, and \<open>authenticators\<close>
  reads a file for a host: \<open>Inl\<close> when it cannot be opened or parsed, otherwise the entry
  (login, account, password) if there is one.
\<close>

definition NETRC_FILES :: "string list" where
  "NETRC_FILES = [''.netrc'', ''_netrc'']"

definition netrc_candidates :: "environ \<Rightarrow> string list" where
  "netrc_candidates env = (case map_of env ''NETRC'' of
     Some (c # f) \<Rightarrow> [c # f] | _ \<Rightarrow> map (\<lambda>name. ''~/'' @ name) NETRC_FILES)"

datatype netrc_error = Unreadable | UrlError exc_class

definition get_netrc_auth ::
  "environ \<Rightarrow> (string \<Rightarrow> string) \<Rightarrow> (string \<Rightarrow> bool)
   \<Rightarrow> (string \<Rightarrow> string \<Rightarrow> unit + (string option \<times> string option \<times> string) option)
   \<Rightarrow> bool \<Rightarrow> string \<Rightarrow> netrc_error + (string option \<times> string) option" where
  "get_netrc_auth env expand exists authenticators raise_errors url =
     (case find exists (map expand (netrc_candidates env)) of
        None \<Rightarrow> Inr None
      | Some path \<Rightarrow>
          (case urlparse url of
             Inl e \<Rightarrow> Inl (UrlError e)
           | Inr p \<Rightarrow>
               (case url_hostname p of
                  None \<Rightarrow> Inr None
                | Some host \<Rightarrow>
                    (case authenticators path host of
                       Inl _ \<Rightarrow> if raise_errors then Inl Unreadable else Inr None
                     | Inr None \<Rightarrow> Inr None
                     | Inr (Some (login, account, pw)) \<Rightarrow>
                         Inr (Some (if login \<noteq> None \<and> login \<noteq> Some [] then login else account, pw))))))"

section \<open>Sizes and defaults\<close>

text \<open>
  What \<open>super_len\<close> can ask of an object: \<open>__len__\<close>, \<open>len\<close>, the size of its file and its
  position and end, each of which it may lack; asking a file may fail.
\<close>

record sized =
  sz_dunder_len :: "nat option"
  sz_len :: "nat option"
  sz_fileno :: "nat option option"
  sz_tell :: "(nat \<times> nat) option option"

definition super_len :: "sized \<Rightarrow> int" where
  "super_len obj =
     (case sz_dunder_len obj of Some n \<Rightarrow> int n
      | None \<Rightarrow> (case sz_len obj of Some n \<Rightarrow> int n
      | None \<Rightarrow> (case sz_fileno obj of Some (Some n) \<Rightarrow> int n
      | _ \<Rightarrow> (case sz_tell obj of Some (Some (current, end_position)) \<Rightarrow> int end_position - int current
      | _ \<Rightarrow> 0))))"

definition DEFAULT_ACCEPT_ENCODING :: string where
  "DEFAULT_ACCEPT_ENCODING = ''gzip, deflate, br, zstd''"

definition default_user_agent :: "string option \<Rightarrow> string" where
  "default_user_agent name = (case name of None \<Rightarrow> ''chrome_client'' | Some n \<Rightarrow> n)"

section \<open>Properties\<close>

text \<open>
  Quoting and unquoting octets.  The quoted form of a text consists of unreserved
  characters, percent signs and hex digits.
\<close>

lemma hex_val_digit: "d < 16 \<Longrightarrow> hex_val (hex_digit d) = Some d"
  by (auto simp: hex_val_def hex_digit_def Let_def)

lemma unquote_plain_char: "p \<noteq> CHR ''%'' \<Longrightarrow> unquote_octets (p # s) = p # unquote_octets s"
proof (cases s)
  case (Cons a t)
  then show "p \<noteq> CHR ''%'' \<Longrightarrow> unquote_octets (p # s) = p # unquote_octets s" by (cases t) simp_all
qed simp

lemma unquote_quote_octets:
  assumes "CHR ''%'' \<notin> set safe"
  shows "unquote_octets (quote_octets safe s) = s"
proof (induction s)
  case (Cons b s)
  have "cp b div 16 < 16" "cp b mod 16 < 16"
    by (rule less_mult_imp_div_less) (use code_less [of b] in auto)
  moreover have "CHR ''%'' \<notin> set ALWAYS_SAFE" by code_simp
  then have "b \<noteq> CHR ''%''" if "b \<in> set ALWAYS_SAFE \<or> b \<in> set safe" using that assms by auto
  ultimately show ?case
    using Cons
    by (cases "b \<in> set ALWAYS_SAFE \<or> b \<in> set safe")
      (simp_all add: quote_octets_def pct_encode_def hex_val_digit unquote_plain_char)
qed (simp add: quote_octets_def)

definition quoted :: "ustr \<Rightarrow> string" where
  "quoted t = quote_octets [] (utf8_text t)"

lemma quoted_chars: "c \<in> set (quoted t) \<Longrightarrow> c \<in> set (ALWAYS_SAFE @ ''%'')"
  using quote_octets_chars [of c "[]" "utf8_text t"] by (auto simp: quoted_def)

lemma quoted_kinds:
  assumes "c \<in> set (quoted t)"
  shows "ascii_char c" "32 < cp c" "c \<notin> set ''/?#[]:@''"
proof -
  have "list_all (\<lambda>c. ascii_char c \<and> 32 < cp c \<and> c \<notin> set ''/?#[]:@'') (ALWAYS_SAFE @ ''%'')" by code_simp
  with quoted_chars [OF assms] show "ascii_char c" "32 < cp c" "c \<notin> set ''/?#[]:@''"
    unfolding list_all_iff by blast+
qed

lemma unquote_quoted:
  assumes "list_all scalar t"
  shows "unquote_text (quoted t) = t"
proof (cases "quoted t")
  case Nil
  then have "utf8_text t = []" using unquote_quote_octets [of "[]" "utf8_text t"] by (simp add: quoted_def)
  then show ?thesis
    using utf8_roundtrip(2) [OF assms] Nil by (simp add: decode_replace_def dc_run_def)
next
  case (Cons c s)
  have "\<forall>x \<in> set (quoted t). ascii_char x" using quoted_kinds(1) by blast
  then have all: "ascii_char c" "takeWhile ascii_char s = s" "dropWhile ascii_char s = []"
    by (simp_all add: Cons takeWhile_eq_all_conv dropWhile_eq_Nil_conv)
  have "unquote_text (quoted t) = decode_replace utf8_decoder (unquote_octets (quoted t))"
    by (simp add: Cons all)
  also have "\<dots> = t" using unquote_quote_octets [of "[]"] utf8_roundtrip(2) [OF assms] by (simp add: quoted_def)
  finally show ?thesis .
qed

lemma clean_url_id:
  assumes "\<forall>c \<in> set u. 32 < cp c"
  shows "clean_url u = u"
proof -
  have "dropWhile (\<lambda>c. cp c \<le> 32) u = u" using assms by (cases u) auto
  moreover have "filter (\<lambda>c. cp c \<noteq> 9 \<and> cp c \<noteq> 10 \<and> cp c \<noteq> 13) u = u"
    using assms by (intro filter_True) auto
  ultimately show ?thesis by (simp add: clean_url_def)
qed

definition plain_host :: "string \<Rightarrow> bool" where
  "plain_host h \<longleftrightarrow> h \<noteq> [] \<and> list_all (\<lambda>c. 32 < cp c \<and> c \<notin> set ''/?#[]@'') h"

lemma rpartition_at_append: "c \<notin> set b \<Longrightarrow> rpartition_at c (a @ c # b) = (a, True, b)"
  by (induction b rule: rev_induct) (auto simp: rpartition_at_def)

definition netloc_char :: "char \<Rightarrow> bool" where
  "netloc_char c \<longleftrightarrow> 32 < cp c \<and> c \<notin> set ''/?#[]''"

text \<open>
  C32: A user name and a password, of any characters, that are percent-encoded into a URL are what
  \<open>get_auth_from_url\<close> reads from it.
\<close>

theorem url_credentials_roundtrip:
  assumes "list_all scalar user" and "list_all scalar pw" and "plain_host host"
  shows "get_auth_from_url (''http://'' @ quoted user @ '':'' @ quoted pw @ ''@'' @ host) = Inr (user, pw)"
proof -
  let ?netloc = "quoted user @ '':'' @ quoted pw @ ''@'' @ host"
  let ?url = "''http://'' @ ?netloc"
  have "list_all netloc_char (quoted user)" "list_all netloc_char (quoted pw)"
    using quoted_kinds(2,3) by (auto simp: list_all_iff netloc_char_def)
  moreover have "list_all netloc_char host"
    using assms(3) by (auto simp: plain_host_def list_all_iff netloc_char_def)
  moreover have "netloc_char CHR '':''" "netloc_char CHR ''@''" by code_simp+
  ultimately have ok: "\<forall>c \<in> set ?netloc. netloc_char c" by (simp add: list_all_iff ball_Un)
  have http: "list_all (\<lambda>c. 32 < cp c) ''http://''" by code_simp
  have clean: "clean_url ?url = ?url"
    by (rule clean_url_id) (use ok http in \<open>unfold list_all_iff set_append netloc_char_def, blast\<close>)
  have scheme: "split_scheme [] ?url = (''http'', ''//'' @ ?netloc)"
    by (simp add: split_scheme_def partition_at_def) code_simp
  have net: "split_netloc (''//'' @ ?netloc) = (?netloc, [])"
  proof -
    have "\<forall>c \<in> set ?netloc. c \<notin> set ''/?#''" using ok by (auto simp only: netloc_char_def set_simps)
    then have "takeWhile (\<lambda>c. c \<notin> set ''/?#'') ?netloc = ?netloc" "dropWhile (\<lambda>c. c \<notin> set ''/?#'') ?netloc = []"
      by (auto simp only: takeWhile_eq_all_conv dropWhile_eq_Nil_conv)
    moreover have "startswith (''//'' @ ?netloc) ''//''" by (rule startswith_append)
    ultimately show ?thesis by (simp add: split_netloc_def)
  qed
  have "CHR ''['' \<notin> set ?netloc" "CHR '']'' \<notin> set ?netloc"
    using ok unfolding netloc_char_def by (metis list.set_intros(1) list.set_intros(2))+
  then have parsed: "urlparse ?url = Inr \<lparr>u_scheme = ''http'', u_netloc = ?netloc, u_path = [], u_params = [],
      u_query = [], u_fragment = []\<rparr>"
    by (simp only: urlparse_def urlparse_with_def urlsplit_with_def clean Let_def scheme net prod.case)
      (simp add: partition_at_def)
  have at: "CHR ''@'' \<notin> set host" using assms(3) by (auto simp: plain_host_def list_all_iff)
  have "rpartition_at CHR ''@'' ?netloc = (quoted user @ '':'' @ quoted pw, True, host)"
    using rpartition_at_append [OF at, of "quoted user @ '':'' @ quoted pw"] by simp
  moreover have "CHR '':'' \<notin> set (quoted user)" using quoted_kinds(3) by auto
  ultimately have "userinfo ?netloc = (Some (quoted user), Some (quoted pw))"
    by (simp add: userinfo_def partition_at_append)
  then show ?thesis
    by (simp only: get_auth_from_url_def parsed bind_res_simps)
      (simp add: unquote_quoted assms(1,2))
qed

theorem url_credentials_roundtrip_witness:
  "get_auth_from_url (''http://'' @ quoted [233, 58] @ '':'' @ quoted [64] @ ''@'' @ ''h:80'') = Inr ([233, 58], [64])"
proof (rule url_credentials_roundtrip)
  show "plain_host ''h:80''" by code_simp
qed (simp_all add: scalar_def)

text \<open>A file object is measured by its file, wherever it has been read to.\<close>

lemma super_len_ignores_position:
  "super_len \<lparr>sz_dunder_len = None, sz_len = None, sz_fileno = Some (Some n), sz_tell = t\<rparr> = int n"
  by (simp add: super_len_def)

end
