(* ===== verification/Adapters.thy ===== *)
theory Adapters
  imports Py_Prelude Exceptions
begin

text \<open>
  \<open>adapters.py\<close>: \<open>HTTPAdapter\<close> keeps requests' interface as a marker.  It records its pool
  settings and hands out one proxy manager per proxy; it never sends, since the Core does.
  A manager is a dictionary of the caller's, named here by the number of its creation.
\<close>

record adapter =
  ad_max_retries :: int
  ad_pool_connections :: int
  ad_pool_maxsize :: int
  ad_pool_block :: bool
  ad_proxy_manager :: "(string, nat) odict"
  ad_made :: nat

definition adapter_init :: "int \<Rightarrow> int \<Rightarrow> int \<Rightarrow> bool \<Rightarrow> adapter" where
  "adapter_init pool_connections pool_maxsize max_retries pool_block =
     \<lparr>ad_max_retries = max_retries, ad_pool_connections = pool_connections, ad_pool_maxsize = pool_maxsize,
      ad_pool_block = pool_block, ad_proxy_manager = [], ad_made = 0\<rparr>"

definition init_poolmanager :: "int \<Rightarrow> int \<Rightarrow> bool \<Rightarrow> adapter \<Rightarrow> adapter" where
  "init_poolmanager connections maxsize block a =
     a\<lparr>ad_pool_connections := connections, ad_pool_maxsize := maxsize, ad_pool_block := block\<rparr>"

text \<open>\<open>setdefault(proxy, {})\<close>: the new dictionary is made even when the old one is returned.\<close>

definition proxy_manager_for :: "string \<Rightarrow> adapter \<Rightarrow> nat \<times> adapter" where
  "proxy_manager_for proxy a =
     (let m = od_setdefault proxy (ad_made a) (ad_proxy_manager a)
      in (the (od_get m proxy), a\<lparr>ad_proxy_manager := m, ad_made := ad_made a + 1\<rparr>))"

definition cert_verify :: "adapter \<Rightarrow> unit option" where
  "cert_verify a = None"

definition build_response :: "'r \<Rightarrow> 'q \<Rightarrow> 'q" where
  "build_response request response = response"

definition adapter_send :: "adapter \<Rightarrow> exc_class + 'r" where
  "adapter_send a = Inl NotImplementedError"

definition adapter_close :: "adapter \<Rightarrow> adapter" where
  "adapter_close a = a\<lparr>ad_proxy_manager := []\<rparr>"

definition base_send :: "exc_class + 'r" where
  "base_send = Inl NotImplementedError"

definition base_close :: "exc_class + unit" where
  "base_close = Inl NotImplementedError"

section \<open>Properties\<close>

datatype adapter_op = PoolManager int int bool | ManagerFor string | CloseAdapter

fun adapter_apply :: "adapter_op \<Rightarrow> adapter \<Rightarrow> adapter" where
  "adapter_apply (PoolManager c m b) a = init_poolmanager c m b a"
| "adapter_apply (ManagerFor p) a = snd (proxy_manager_for p a)"
| "adapter_apply CloseAdapter a = adapter_close a"

definition adapter_inv :: "adapter \<Rightarrow> bool" where
  "adapter_inv a \<longleftrightarrow> od_wf (ad_proxy_manager a) \<and> distinct (map snd (ad_proxy_manager a))
     \<and> (\<forall>i \<in> set (map snd (ad_proxy_manager a)). i < ad_made a)"

lemma manager_kept:
  "proxy_manager_for p a = (i, a') \<Longrightarrow> od_get (ad_proxy_manager a') p = Some i \<and> fst (proxy_manager_for p a') = i"
  by (auto simp: proxy_manager_for_def od_setdefault_def od_has_def od_get_put Let_def)

lemma od_put_fresh_values:
  "\<not> od_has m k \<Longrightarrow> map snd (od_put k v m) = map snd m @ [v]"
  by (induction m) (auto simp: od_has_def od_get_def od_put_def split: if_splits)

lemma adapter_inv_manager: "adapter_inv a \<Longrightarrow> adapter_inv (snd (proxy_manager_for p a))"
proof (cases "od_has (ad_proxy_manager a) p")
  case False
  moreover have "snd ` set (od_put p v m) = insert v (snd ` set m)" if "\<not> od_has m p" for v :: nat and m
    using arg_cong [OF od_put_fresh_values [OF that], of set v] by simp
  moreover assume "adapter_inv a"
  ultimately show ?thesis
    by (auto simp: adapter_inv_def proxy_manager_for_def od_setdefault_def od_put_fresh_values od_wf_put Let_def)
qed (auto simp: adapter_inv_def proxy_manager_for_def od_setdefault_def Let_def)

interpretation ad: safe_machine adapter_apply adapter_inv
proof
  fix a op
  assume "adapter_inv a"
  then show "adapter_inv (adapter_apply op a)"
    by (cases op) (simp_all add: adapter_inv_manager, simp_all add: adapter_inv_def init_poolmanager_def adapter_close_def)
qed

text \<open>
  However an adapter is used, two proxies never share a manager.
\<close>

lemma managers_distinct:
  assumes "od_get (ad_proxy_manager (ad.run ops (adapter_init c m r b))) p = Some i"
    and "od_get (ad_proxy_manager (ad.run ops (adapter_init c m r b))) q = Some i"
  shows "p = q"
proof -
  have "adapter_inv (adapter_init c m r b)" by (simp add: adapter_inv_def adapter_init_def)
  then have "distinct (map snd (ad_proxy_manager (ad.run ops (adapter_init c m r b))))"
    using ad.inv_run by (auto simp: adapter_inv_def)
  then have inj: "inj_on snd (set (ad_proxy_manager (ad.run ops (adapter_init c m r b))))" by (simp add: distinct_map)
  have "(p, i) = (q, i)" by (rule inj_onD [OF inj]) (use assms in \<open>auto simp: od_get_def dest: map_of_SomeD\<close>)
  then show ?thesis by simp
qed

end
