(* ===== verification/Smoke_Server.thy ===== *)
theory Smoke_Server
  imports Url_Tools Multipart
begin

text \<open>
  \<open>tools/run-http-smoke.py\<close>: the origin server the native smoke test talks to, request by
  request, and the run over its commands.  The octets a client has sent are a string; the
  standard library's request line and header parsing, and the test program itself, are
  arguments.
\<close>

section \<open>Reading a body\<close>

definition octet_space :: "char \<Rightarrow> bool" where
  "octet_space c \<longleftrightarrow> cp c = 32 \<or> 9 \<le> cp c \<and> cp c \<le> 13"

definition octet_strip :: "string \<Rightarrow> string" where
  "octet_strip s = strip_by octet_space s"

definition hex_nat :: "string \<Rightarrow> nat" where
  "hex_nat s = foldl (\<lambda>n c. 16 * n + (case hex_val c of Some d \<Rightarrow> d | None \<Rightarrow> 0)) 0 s"

text \<open>
  \<open>int(octets, 16)\<close>: white space around, a sign, the prefix \<open>0x\<close> with an underscore after
  it, and digits with single underscores between them.
\<close>

definition hex_int :: "string \<Rightarrow> int option" where
  "hex_int s =
     (let t = octet_strip s;
          neg = startswith t ''-'';
          u = (if neg \<or> startswith t ''+'' then tl t else t);
          v = (if startswith u ''0x'' \<or> startswith u ''0X''
               then (if startswith (drop 2 u) ''_'' then drop 3 u else drop 2 u) else u);
          parts = split_on CHR ''_'' v
      in if list_all (\<lambda>w. w \<noteq> [] \<and> list_all (\<lambda>c. hex_val c \<noteq> None) w) parts
         then Some ((if neg then - 1 else 1) * int (hex_nat (concat parts))) else None)"

definition read_line :: "string \<Rightarrow> string \<times> string" where
  "read_line s = (case dropWhile (\<lambda>c. c \<noteq> CHR 0x0a) s of
     [] \<Rightarrow> (s, []) | c # rest \<Rightarrow> (takeWhile (\<lambda>c. c \<noteq> CHR 0x0a) s @ [c], rest))"

text \<open>\<open>rfile.read(n)\<close>: at most \<open>n\<close> octets, all of them for -1; other negative sizes raise.\<close>

definition read_octets :: "int \<Rightarrow> string \<Rightarrow> exc_class + string \<times> string" where
  "read_octets n s =
     (if n = - 1 then Inr (s, []) else if n < 0 then Inl ValueError
      else Inr (take (nat n) s, drop (nat n) s))"

lemma read_line_shorter: "s \<noteq> [] \<Longrightarrow> read_line s = (line, rest) \<Longrightarrow> length rest < length s"
  using length_dropWhile_le [of "\<lambda>c. c \<noteq> CHR 0x0a" s] by (auto simp: read_line_def split: list.splits)

lemma read_octets_le: "read_octets n s = Inr (b, rest) \<Longrightarrow> length rest \<le> length s"
  by (auto simp: read_octets_def split: if_splits)

lemma hex_int_Nil: "hex_int [] = None"
  by (simp add: hex_int_def octet_strip_def strip_by_def)

definition chunk_size :: "string \<Rightarrow> int option" where
  "chunk_size line = hex_int (fst (split_once CHR '';'' (octet_strip line)))"

lemma chunk_size_end: "read_line [] = (line, rest) \<Longrightarrow> chunk_size line = None"
  by (auto simp: read_line_def chunk_size_def octet_strip_def strip_by_def split_once_def hex_int_Nil)

function read_chunks :: "string \<Rightarrow> exc_class + string \<times> string" where
  "read_chunks s =
     (case read_line s of (line, rest) \<Rightarrow>
       (case chunk_size line of
          None \<Rightarrow> Inl ValueError
        | Some n \<Rightarrow>
            if n = 0 then Inr ([], snd (read_line rest))
            else (case read_octets n rest of
                Inl e \<Rightarrow> Inl e
              | Inr (chunk, rest1) \<Rightarrow>
                  (case read_chunks (drop 2 rest1) of
                     Inl e \<Rightarrow> Inl e
                   | Inr (more_octets, rest2) \<Rightarrow> Inr (chunk @ more_octets, rest2)))))"
  by pat_completeness auto
termination
proof (relation "measure length", goal_cases)
  case (2 s line rest n y chunk rest1)
  then have r: "read_line s = (line, rest)" "read_octets n rest = Inr (chunk, rest1)" by simp_all
  with 2 have "s \<noteq> []" using chunk_size_end [of line rest] by auto
  then show ?case using r read_line_shorter [of s line rest] read_octets_le [of n rest chunk rest1] by auto
qed simp

declare read_chunks.simps [simp del]

definition field_of :: "(string \<times> string) list \<Rightarrow> string \<Rightarrow> string \<Rightarrow> string" where
  "field_of hs name dflt = (case find (\<lambda>h. py_lower (fst h) = py_lower name) hs of Some h \<Rightarrow> snd h | None \<Rightarrow> dflt)"

definition read_body :: "(string \<times> string) list \<Rightarrow> string \<Rightarrow> exc_class + string \<times> string" where
  "read_body hs s =
     (if py_lower (field_of hs ''Transfer-Encoding'' []) = ''chunked'' then read_chunks s
      else (case int_text (field_of hs ''Content-Length'' ''0'') of
          None \<Rightarrow> Inl ValueError
        | Some n \<Rightarrow> read_octets n s))"

section \<open>The server\<close>

text \<open>The two class attributes the requests share.\<close>

record origin =
  or_cache_requests :: nat
  or_method_requests :: "(string \<times> string) list"

text \<open>The status and the fields the code sends, and the payload it writes.\<close>

record smoke_reply =
  sm_status :: nat
  sm_fields :: "(string, string) odict"
  sm_payload :: string

text \<open>A handler answers, closes the connection, or dies with an exception.\<close>

datatype served = Replied smoke_reply | Disconnected | Died exc_class

definition sized_reply :: "nat \<Rightarrow> (string, string) odict \<Rightarrow> string \<Rightarrow> smoke_reply" where
  "sized_reply status fs payload =
     \<lparr>sm_status = status, sm_fields = fs @ [(''Content-Length'', show_nat (length payload))], sm_payload = payload\<rparr>"

definition redirect_reply :: "nat \<Rightarrow> string \<Rightarrow> smoke_reply" where
  "redirect_reply status location =
     \<lparr>sm_status = status, sm_fields = [(''Location'', location), (''Content-Length'', ''0'')], sm_payload = []\<rparr>"

definition echo :: "string \<Rightarrow> string \<Rightarrow> (string \<times> string) list \<Rightarrow> string \<Rightarrow> origin \<Rightarrow> served \<times> string \<times> origin" where
  "echo command path hs s st =
     (case read_body hs s of
        Inl e \<Rightarrow> (Died e, s, st)
      | Inr (body, rest) \<Rightarrow>
          if path = ''/redirect307'' then (Replied (redirect_reply 307 ''/echo''), rest, st)
          else (Replied (sized_reply 200 [] (utf8_encode command @ '':'' @ body)), rest,
                st\<lparr>or_method_requests := or_method_requests st @ [(command, body)]\<rparr>))"

definition header_report :: "(string \<times> string) list \<Rightarrow> string" where
  "header_report hs = utf8_encode
     (''Accept-Language: '' @ field_of hs ''Accept-Language'' [] @ [CHR 0x0a]
      @ ''Accept-Encoding: '' @ field_of hs ''Accept-Encoding'' [] @ [CHR 0x0a])"

definition do_GET :: "string \<Rightarrow> (string \<times> string) list \<Rightarrow> string \<Rightarrow> origin \<Rightarrow> served \<times> string \<times> origin" where
  "do_GET path hs s st =
     (if path = ''/disconnect'' then (Disconnected, s, st)
      else if path = ''/redirect'' then (Replied (redirect_reply 302 ''/stream''), s, st)
      else if path = ''/redirect307'' then (Replied (redirect_reply 307 ''/echo''), s, st)
      else if path = ''/cookie-set''
      then (Replied (sized_reply 200 [(''Set-Cookie'', ''mn_cookie=1; Path=/'')] ''set''), s, st)
      else if path = ''/cookie-read'' then (Replied (sized_reply 200 [] (utf8_encode (field_of hs ''Cookie'' []))), s, st)
      else if path = ''/request-headers'' then (Replied (sized_reply 200 [] (header_report hs)), s, st)
      else if path = ''/echo'' then echo ''GET'' path hs s st
      else if path = ''/slow'' then (Replied (sized_reply 200 [] ''late''), s, st)
      else if path = ''/cache''
      then (Replied \<lparr>sm_status = 200, sm_fields = [(''Content-Length'', ''6''), (''Cache-Control'', ''public, max-age=3600'')],
              sm_payload = ''cached''\<rparr>,
            s, st\<lparr>or_cache_requests := or_cache_requests st + 1\<rparr>)
      else (Replied (sized_reply 200 [] (replicate 100000 CHR ''x'')), s, st))"

definition ECHOED :: "string list" where
  "ECHOED = [''POST'', ''PUT'', ''PATCH'', ''DELETE'', ''OPTIONS'']"

text \<open>A method without a handler is refused by the standard library, the \<open>None\<close> here.\<close>

definition serve ::
  "string \<Rightarrow> string \<Rightarrow> (string \<times> string) list \<Rightarrow> string \<Rightarrow> origin \<Rightarrow> (served \<times> string \<times> origin) option" where
  "serve command path hs s st =
     (if command = ''GET'' then Some (do_GET path hs s st)
      else if command \<in> set ECHOED then Some (echo command path hs s st) else None)"

section \<open>The run\<close>

definition first_commands :: "string \<Rightarrow> string list list" where
  "first_commands base =
     [[''success'', base @ ''/stream''], [''success'', base @ ''/redirect''], [''timeout'', base @ ''/slow''],
      [''cancel'', base @ ''/slow''], [''network-error'', base @ ''/disconnect''],
      [''cache-modes'', base @ ''/cache''], [''cache-miss'', base @ ''/only-cache''],
      [''cache-disabled'', base @ ''/cache'']]"

definition dump_command :: "string \<Rightarrow> string list" where
  "dump_command base = [''dump'', base @ ''/request-headers'']"

definition last_commands :: "string \<Rightarrow> string list list" where
  "last_commands base =
     [''method'', base @ ''/echo'', ''POST'', ''payload'']
     # map (\<lambda>m. [''method'', base @ ''/echo'', m, ''payload'']) [''PATCH'', ''DELETE'', ''OPTIONS'']
     @ [[''chunked'', base @ ''/echo'', ''PUT'', ''chunked-payload''], [''redirect-manual'', base @ ''/redirect''],
        [''redirect-error'', base @ ''/redirect''], [''redirect-upload'', base @ ''/redirect307''],
        [''cookie'', base], [''concurrent'', base @ ''/slow'', ''32'']]"

datatype smoke_end = SmokePassed | CommandFailed "string list" | AssertionFailed

text \<open>\<open>check=True\<close>: the first command with a status other than 0 ends the run.\<close>

primrec run_commands :: "(string list \<Rightarrow> 's \<Rightarrow> (nat \<times> string) \<times> 's) \<Rightarrow> string list list \<Rightarrow> 's \<Rightarrow> string list option \<times> 's" where
  "run_commands exec [] s = (None, s)"
| "run_commands exec (c # cs) s =
     (case exec c s of ((status, _), s') \<Rightarrow> if status \<noteq> 0 then (Some c, s') else run_commands exec cs s')"

definition headers_shown :: "string \<Rightarrow> bool" where
  "headers_shown out \<longleftrightarrow>
     occurs_in ''Accept-Language: en-US,en;q=0.9'' out \<and> occurs_in ''br'' out \<and> occurs_in ''zstd'' out"

definition smoke_main ::
  "(string list \<Rightarrow> 's \<Rightarrow> (nat \<times> string) \<times> 's) \<Rightarrow> ('s \<Rightarrow> origin) \<Rightarrow> string \<Rightarrow> 's \<Rightarrow> smoke_end \<times> 's" where
  "smoke_main exec origin_of base s =
     (case run_commands exec (first_commands base) s of
        (Some c, s1) \<Rightarrow> (CommandFailed c, s1)
      | (None, s1) \<Rightarrow>
          (case exec (dump_command base) s1 of ((status, out), s2) \<Rightarrow>
             if status \<noteq> 0 then (CommandFailed (dump_command base), s2)
             else if \<not> headers_shown out then (AssertionFailed, s2)
             else (case run_commands exec (last_commands base) s2 of
                 (Some c, s3) \<Rightarrow> (CommandFailed c, s3)
               | (None, s3) \<Rightarrow>
                   (if or_cache_requests (origin_of s3) = 5 then SmokePassed else AssertionFailed, s3))))"

section \<open>Properties\<close>

text \<open>How a client may write a body in chunks: each size with an extension after it or none.\<close>

function hex_text :: "nat \<Rightarrow> string" where
  "hex_text n = (if n < 16 then [hex_digit n] else hex_text (n div 16) @ [hex_digit (n mod 16)])"
  by pat_completeness auto
termination by (relation "measure id") auto

declare hex_text.simps [simp del]

definition chunk_extension :: "string \<Rightarrow> bool" where
  "chunk_extension e \<longleftrightarrow> (e = [] \<or> startswith e '';'') \<and> CHR 0x0a \<notin> set e"

definition chunk_text :: "string \<times> string \<Rightarrow> string" where
  "chunk_text p = hex_text (length (snd p)) @ fst p @ CRLF @ snd p @ CRLF"

definition chunked_text :: "(string \<times> string) list \<Rightarrow> string" where
  "chunked_text ps = concat (map chunk_text ps) @ ''0'' @ CRLF @ CRLF"

lemma hex_nat_snoc: "hex_nat (s @ [c]) = 16 * hex_nat s + (case hex_val c of Some d \<Rightarrow> d | None \<Rightarrow> 0)"
  by (simp add: hex_nat_def)

lemma hex_text_nat: "hex_nat (hex_text n) = n"
proof (induction n rule: hex_text.induct)
  case (1 n)
  then show ?case
    by (cases "n < 16") (simp_all add: hex_text.simps [of n] hex_nat_snoc hex_val_digit, simp add: hex_nat_def hex_val_digit)
qed

text \<open>Hexadecimal digits are neither white space nor any of the characters parsed around them.\<close>

definition hex_char :: "char \<Rightarrow> bool" where
  "hex_char c \<longleftrightarrow> 48 \<le> cp c \<and> cp c \<le> 57 \<or> 65 \<le> cp c \<and> cp c \<le> 70"

lemma hex_digit_char: "d < 16 \<Longrightarrow> hex_char (hex_digit d)"
  by (auto simp: hex_char_def hex_digit_def)

lemma hex_char_not:
  assumes "hex_char c"
  shows "hex_val c \<noteq> None" "\<not> octet_space c" "c \<noteq> CHR '';''" "c \<noteq> CHR ''-''" "c \<noteq> CHR ''+''" "c \<noteq> CHR ''_''"
    "c \<noteq> CHR ''x''" "c \<noteq> CHR ''X''" "c \<noteq> CHR 0x0a"
  using assms by (auto simp: hex_char_def hex_val_def octet_space_def Let_def)

lemma hex_text_chars: "hex_text n \<noteq> [] \<and> list_all hex_char (hex_text n)"
proof (induction n rule: hex_text.induct)
  case (1 n)
  then show ?case by (cases "n < 16") (simp_all add: hex_text.simps [of n] hex_digit_char)
qed

lemma strip_by_solid:
  assumes "s \<noteq> []" "list_all (\<lambda>c. \<not> P c) s"
  shows "strip_by P (s @ t) = s @ rev (dropWhile P (rev t))"
proof -
  have "dropWhile P (s @ t) = s @ t" using assms by (cases s) auto
  moreover have "dropWhile P (rev s @ []) = rev s"
    using assms by (cases s rule: rev_cases) auto
  then have "dropWhile P (rev t @ rev s) = dropWhile P (rev t) @ rev s"
    by (auto simp: dropWhile_append dropWhile_eq_Nil_conv)
  ultimately show ?thesis by (simp add: strip_by_def)
qed

lemma hex_text_not:
  "CHR ''_'' \<notin> set (hex_text n)" "CHR '';'' \<notin> set (hex_text n)" "CHR 0x0a \<notin> set (hex_text n)"
  "list_all (\<lambda>c. \<not> octet_space c) (hex_text n)" "list_all (\<lambda>c. hex_val c \<noteq> None) (hex_text n)"
proof -
  have hex: "hex_char c" if "c \<in> set (hex_text n)" for c using that hex_text_chars [of n] by (simp add: list_all_iff)
  show "CHR ''_'' \<notin> set (hex_text n)" "CHR '';'' \<notin> set (hex_text n)" "CHR 0x0a \<notin> set (hex_text n)"
    using hex hex_char_not(3,6,9) by blast+
  show "list_all (\<lambda>c. \<not> octet_space c) (hex_text n)" "list_all (\<lambda>c. hex_val c \<noteq> None) (hex_text n)"
    using hex hex_char_not(1,2) unfolding list_all_iff by blast+
qed

lemma hex_int_text: "hex_int (hex_text n) = Some (int n)"
proof -
  obtain c s where h: "hex_text n = c # s" "hex_char c" "list_all hex_char s"
    using hex_text_chars [of n] by (cases "hex_text n") auto
  have strip: "octet_strip (hex_text n) = hex_text n"
    using strip_by_solid [of "hex_text n" octet_space "[]"] hex_text_chars hex_text_not(4) by (simp add: octet_strip_def)
  have "\<not> startswith (hex_text n) ''0x''" "\<not> startswith (hex_text n) ''0X''"
    using h hex_char_not(7,8) by (cases s; auto)+
  moreover have "\<not> startswith (hex_text n) ''-''" "\<not> startswith (hex_text n) ''+''"
    using h hex_char_not(4,5) by auto
  ultimately show ?thesis
    using hex_text_not(1,5) [of n] hex_text_chars [of n]
    by (simp add: hex_int_def strip split_on_no_sep hex_text_nat)
qed

lemma read_line_text: "CHR 0x0a \<notin> set s \<Longrightarrow> read_line (s @ CHR 0x0a # t) = (s @ [CHR 0x0a], t)"
proof -
  assume "CHR 0x0a \<notin> set s"
  then have "\<forall>c \<in> set s. c \<noteq> CHR 0x0a" by blast
  then show ?thesis by (simp add: read_line_def dropWhile_append2 takeWhile_append2)
qed

lemma chunk_line_size:
  assumes "chunk_extension e"
  shows "chunk_size (hex_text n @ e @ CRLF) = Some (int n)"
proof -
  have strip: "octet_strip (hex_text n @ e @ CRLF) = hex_text n @ rev (dropWhile octet_space (rev (e @ CRLF)))"
    using strip_by_solid [of "hex_text n" octet_space "e @ CRLF"] hex_text_chars hex_text_not(4)
    by (simp add: octet_strip_def)
  have crlf: "dropWhile octet_space (rev (e @ CRLF)) = dropWhile octet_space (rev e)"
    by (simp add: CRLF_def octet_space_def)
  define u where "u = rev (dropWhile octet_space (rev e))"
  have "e = u @ rev (takeWhile octet_space (rev e))"
    unfolding u_def by (metis rev_append rev_rev_ident takeWhile_dropWhile_id)
  then obtain w where "e = u @ w" by blast
  then have u: "u = [] \<or> startswith u '';''"
    using assms by (cases u) (auto simp: chunk_extension_def)
  have "fst (split_once CHR '';'' (hex_text n @ u)) = hex_text n"
  proof -
    have "takeWhile (\<lambda>x. x \<noteq> CHR '';'') (hex_text n @ u) = hex_text n @ takeWhile (\<lambda>x. x \<noteq> CHR '';'') u"
      using hex_text_not(2) [of n] by (intro takeWhile_append2) auto
    moreover have "takeWhile (\<lambda>x. x \<noteq> CHR '';'') u = []" using u by (cases u) auto
    ultimately show ?thesis by (simp add: split_once_def)
  qed
  then show ?thesis by (simp add: chunk_size_def strip [unfolded crlf] u_def [symmetric] hex_int_text)
qed

lemma read_chunk_text:
  assumes "chunk_extension e" and "d \<noteq> []"
  shows "read_chunks (chunk_text (e, d) @ s) =
    (case read_chunks s of Inl x \<Rightarrow> Inl x | Inr (b, rest) \<Rightarrow> Inr (d @ b, rest))"
proof -
  let ?line = "hex_text (length d) @ e @ [CHR 0x0d]"
  have "read_line (?line @ CHR 0x0a # (d @ CRLF @ s)) = (?line @ [CHR 0x0a], d @ CRLF @ s)"
    using assms hex_text_not(3) by (intro read_line_text) (auto simp: chunk_extension_def)
  then have line: "read_line (chunk_text (e, d) @ s) = (hex_text (length d) @ e @ CRLF, d @ CRLF @ s)"
    by (simp add: chunk_text_def CRLF_def)
  show ?thesis
    using assms chunk_line_size [of e "length d"]
    by (subst read_chunks.simps)
      (auto simp: line read_octets_def CRLF_def split: sum.splits prod.splits)
qed

text \<open>
  What a client writes in chunks is the body the server reads, and what it sends after that
  is left for the next request.
\<close>

theorem chunked_body_roundtrip:
  assumes "list_all (\<lambda>(e, d). chunk_extension e \<and> d \<noteq> []) ps"
    and "py_lower (field_of hs ''Transfer-Encoding'' []) = ''chunked''"
  shows "read_body hs (chunked_text ps @ rest) = Inr (concat (map snd ps), rest)"
proof -
  have "read_chunks (chunked_text ps @ rest) = Inr (concat (map snd ps), rest)"
    using assms(1)
  proof (induction ps)
    case Nil
    have "hex_digit 0 = CHR ''0''" by code_simp
    then have "hex_text 0 = ''0''" by (simp add: hex_text.simps)
    then have "chunk_size (''0'' @ CRLF) = Some 0"
      using chunk_line_size [of "[]" 0] by (simp add: chunk_extension_def)
    then show ?case
      by (subst read_chunks.simps) (simp add: chunked_text_def CRLF_def read_line_def)
  next
    case (Cons p ps)
    then show ?case by (cases p) (simp add: chunked_text_def read_chunk_text)
  qed
  with assms(2) show ?thesis by (simp add: read_body_def)
qed

theorem chunked_body_roundtrip_witness:
  "read_body [(''transfer-encoding'', ''Chunked'')]
     (chunked_text [('';q=1'', ''abc''), ([], ''de'')] @ ''GET'') = Inr (''abcde'', ''GET'')"
proof -
  have "py_lower (field_of [(''transfer-encoding'', ''Chunked'')] ''Transfer-Encoding'' []) = ''chunked''" by code_simp
  then show ?thesis
    by (subst chunked_body_roundtrip) (simp_all add: chunk_extension_def)
qed

text \<open>Every answer is framed: its \<open>Content-Length\<close> is the length of what is written.\<close>

definition framed :: "smoke_reply \<Rightarrow> bool" where
  "framed r \<longleftrightarrow> od_get (sm_fields r) ''Content-Length'' = Some (show_nat (length (sm_payload r)))"

lemma sized_framed [simp]: "\<not> od_has fs ''Content-Length'' \<Longrightarrow> framed (sized_reply status fs payload)"
  by (induction fs) (auto simp: framed_def sized_reply_def od_get_def od_has_def split: if_splits)

lemma small_framed [simp]:
  "framed (redirect_reply status location)"
  "framed \<lparr>sm_status = status, sm_fields = [(''Content-Length'', ''6''), f], sm_payload = ''cached''\<rparr>"
proof -
  have "show_nat 0 = ''0''" "show_nat (Suc (Suc (Suc (Suc (Suc (Suc 0)))))) = ''6''" by code_simp+
  then show "framed (redirect_reply status location)"
    "framed \<lparr>sm_status = status, sm_fields = [(''Content-Length'', ''6''), f], sm_payload = ''cached''\<rparr>"
    by (simp_all add: framed_def redirect_reply_def od_get_def)
qed

lemma echo_framed: "echo command path hs s st = (Replied r, rest, st') \<Longrightarrow> framed r"
  by (auto simp: echo_def od_has_def od_get_def split: sum.splits if_splits)

lemma replies_framed:
  assumes "serve command path hs s st = Some (Replied r, rest, st')"
  shows "framed r"
  using assms
  by (auto simp: serve_def do_GET_def od_has_def od_get_def dest: echo_framed split: if_splits)

text \<open>Only the first line after the last chunk is read: trailer fields are left in the stream.\<close>

lemma trailer_left_in_stream:
  "read_chunks (''0'' @ CRLF @ ''X: y'' @ CRLF @ CRLF @ rest) = Inr ([], CRLF @ rest)"
proof -
  have "hex_digit 0 = CHR ''0''" by code_simp
  then have "chunk_size (''0'' @ CRLF) = Some 0"
    using chunk_line_size [of "[]" 0] by (simp add: chunk_extension_def hex_text.simps)
  then show ?thesis by (subst read_chunks.simps) (simp add: CRLF_def read_line_def)
qed

text \<open>A run passes when every command does, in order, and the origin has seen five requests for the cached page.\<close>

lemma run_commands_all:
  "run_commands exec cs s = (None, s') \<Longrightarrow> c \<in> set cs \<Longrightarrow> \<exists>t out t'. exec c t = ((0, out), t')"
proof (induction cs arbitrary: s)
  case (Cons d cs)
  then show ?case by (cases "exec d s") (auto split: prod.splits if_splits)
qed simp

lemma smoke_passes:
  assumes "smoke_main exec origin_of base s = (SmokePassed, s')"
  shows "or_cache_requests (origin_of s') = 5
    \<and> (\<forall>c \<in> set (first_commands base @ dump_command base # last_commands base). \<exists>t out t'. exec c t = ((0, out), t'))"
proof -
  obtain s1 out s2 where r: "run_commands exec (first_commands base) s = (None, s1)"
    "exec (dump_command base) s1 = ((0, out), s2)" "run_commands exec (last_commands base) s2 = (None, s')"
    "or_cache_requests (origin_of s') = 5"
    using assms by (auto simp: smoke_main_def split: prod.splits option.splits if_splits)
  then have "\<exists>t out t'. exec c t = ((0, out), t')"
    if "c \<in> set (first_commands base) \<or> c = dump_command base \<or> c \<in> set (last_commands base)" for c
    using that run_commands_all [OF r(1), of c] run_commands_all [OF r(3), of c] r(2) by blast
  with r(4) show ?thesis by auto
qed

end
