(* ===== verification/Spec2Isabelle.thy ===== *)
theory Spec2Isabelle
  imports Structures Exceptions Impersonate Status_Codes Engine Async_Bridge WebSockets Session_Calls Api
    Wire_Verify Profile_Table Responses Verb_Signatures Stub_Facades Stub_Audit Evidence
    Session_Cookies Install_Cores Session_Streams Url_Tools Adapters Smoke_Server
begin

text \<open>
  \<^bold>\<open>chrome_client: the Python layer and its profile tools\<close>

  The program is an HTTP client with the interface of \<open>requests\<close> on top of Chromium's
  network stack.  The stack (C++, reached through a Rust extension module) performs a
  request and reports it as events; the Python package under
  \<open>bindings/python/chrome_client/_python_impl\<close> decides everything else: which engine
  serves a request, what goes on the wire, how events become a response, what is retried,
  which redirects and cookies are followed.  The programs under \<open>tools/\<close> check captured
  handshakes, generate the table of browser profiles the stack is compiled with, and keep the
  package's stubs and signatures in step with its code.  This development models that Python code; the native stack appears only as the lists of
  events, errors and results it hands over, over which every theorem quantifies.

  \<^bold>\<open>How the parts interact.\<close>  A module-level call (\<open>api.py\<close>) picks the shared session or
  makes a private one; the session (\<open>sessions.py\<close>) turns the call into a request and
  options, prepares the request (\<open>models.py\<close>, with \<open>multipart.py\<close>, \<open>auth.py\<close>,
  \<open>cookies.py\<close>, \<open>structures.py\<close> and \<open>utils.py\<close>), takes an engine for the effective
  configuration from its cache (\<open>engine.py\<close>), runs the native request through a body
  reader or the asyncio bridge, records cookies, and retries or follows redirects.
  Failures are named by \<open>exceptions.py\<close>.

  \<^bold>\<open>Theories.\<close>
  \<^item> \<open>Py_Strings\<close>, \<open>Py_Prelude\<close>, \<open>Py_Url\<close>: what the code uses of Python.  Text is a list
    of characters below 256; results are \<open>Inl\<close> an exception or \<open>Inr\<close> a value;
    dictionaries are association lists in insertion order.  Four interfaces are locales:
    \<open>keyed_store\<close> and \<open>listed_store\<close> (a mapping, with its keys), interpreted on the
    dictionaries, on \<open>CaseInsensitiveDict\<close> and on \<open>Headers\<close>; and \<open>safe_machine\<close> (a
    component driven by a sequence of inputs, with an invariant), interpreted on every
    component with a state: the engine cache, the asyncio bridge, both WebSockets, the
    session, the admission gate, the shared session and the table's arrays.  The fourth,
    \<open>incremental\<close> (a decoder fed piece by piece), is interpreted on the decoding machines of
    \<open>Text_Codec\<close>, which holds UTF-8, ASCII and Latin-1; \<open>Py_Regex\<close> has the regular
    expressions.
  \<^item> \<open>Structures\<close>: \<open>structures.py\<close>, from \<open>CaseInsensitiveDict\<close> to \<open>LookupDict\<close>.
    \<open>Headers\<close> keeps the fields as sent and a joined value per name; that both agree after
    any sequence of operations is the invariant everything above relies on.
  \<^item> \<open>Exceptions\<close>, \<open>Impersonate\<close>, \<open>Status_Codes\<close>: the class hierarchy and the mapping of
    native messages, target and fingerprint validation, the table of status codes.
  \<^item> \<open>Engine\<close>: \<open>EngineConfig\<close> and \<open>EngineCache\<close>, refined against a bounded list in order of
    last use, with the reset in a forked child.
  \<^item> \<open>Utils\<close>, \<open>Multipart\<close>, \<open>Models\<close>, \<open>Cookies\<close>, \<open>Auth\<close>: the functions of the files of
    the same names: requoting, proxy rules, multipart and form bodies, header parsing,
    request preparation, response content, the cookie jar, basic and digest authentication.
  \<^item> \<open>Responses\<close>: the rest of a response of \<open>models.py\<close>: \<open>text\<close>, \<open>json\<close>, \<open>links\<close>, decoding a
    stream, \<open>AsyncResponse\<close>, closing and pickling.
  \<^item> \<open>Async_Bridge\<close>: the two body readers and \<open>_AsyncState\<close> of \<open>sessions.py\<close>, with
    \<open>notify\<close>, back-pressure, limits, deadline and close as steps that may interleave in
    any order.
  \<^item> \<open>WebSockets\<close>: both sockets with their event queues.
  \<^item> \<open>Session_Policy\<close>, \<open>Sessions\<close>, \<open>Session_Calls\<close>: the rest of \<open>sessions.py\<close> in the
    order of a request: proxies, merging, retries and redirect rules; session state, engine
    and cookie selection, one attempt, the retry and redirect loops; preparation of a call,
    the WebSocket handshake, \<open>resolve_redirects\<close> and asynchronous sending.
  \<^item> \<open>Api\<close>: \<open>api.py\<close>.
  \<^item> \<open>Client_Hello\<close>, \<open>Wire_Verify\<close>, \<open>Profile_Table\<close>: \<open>tools/inspect-client-hello.py\<close>,
    \<open>tools/verify-wire-capture.py\<close> and \<open>tools/generate-profile-table.py\<close>.  Octets are
    8-bit words; the generator is modelled down to the text it writes.
  \<^item> \<open>Stub_Tree\<close>, \<open>Verb_Signatures\<close>, \<open>Stub_Facades\<close>, \<open>Stub_Audit\<close>: the syntax trees Python's
    parser gives, and \<open>tools/expand-verb-signatures.py\<close>, \<open>tools/generate-python-stubs.py\<close>
    and \<open>tools/audit-python-stubs.py\<close> over them.
  \<^item> \<open>Evidence\<close>: \<open>tools/collect-profile-evidence.py\<close>, \<open>tools/version.py\<close> and
    \<open>tools/audit-net-error-names.py\<close>.

  \<^bold>\<open>What the theorems show.\<close>  Over every sequence of requests: engines are never shared
  between configurations and the cache stays bounded, the cookie line on the wire is the
  jar's, a closed session refuses work, attempts and redirects are bounded by their settings,
  a redirect carries no stale cookie or credentials of another host.  Over every
  interleaving of events: the asynchronous bridge loses nothing, reorders nothing, keeps to
  its limits, settles its future once, and gives what the synchronous path gives.  Parsers
  and printers invert each other (header blocks, multipart bodies, credentials,
  ClientHellos, trust anchors, capture files), and the gates of the tools accept what they
  are meant to.  Reading a body as text is independent of how it was cut, the programs that
  rewrite stubs and docstrings leave nothing for a second run, and the audit of the stubs finds
  what it looks for.  Theorems that record where the code departs from its description or from
  the protocol stand beside the definitions they are about.

  \<^bold>\<open>Termination.\<close>  No fuel is used.  Python's loops are recursions on the input, on what is
  left of a limit (\<open>send_loop\<close> on the attempts left, \<open>follow_hops\<close> and \<open>walk_redirects\<close>
  on the hops left) or with a measure; loops over events end with the list of events, and
  a read that would wait is the outcome \<open>Wait\<close>.  The one loop that may not end,
  \<open>aiter_content\<close> with a negative size, is a \<open>partial_function\<close> whose value is then \<open>None\<close>.

  \<^bold>\<open>Parameters.\<close>  What the code takes from elsewhere is an argument: the native engine's
  constructor and events, \<open>http.cookiejar\<close>'s cookie line and its reading of
  \<open>Set-Cookie\<close>, files, the environment, \<open>netrc\<close>, \<open>mimetypes\<close>, the hash functions, random
  boundaries and nonces, hooks and mounted adapters, the process number, the JSON decoder, the
  codecs beyond the three modelled, Python's parser and the HTTP transfer of the evidence.

  \<^bold>\<open>Not modelled.\<close>  Code points above 255 in headers, URLs and sources (decoded bodies have
  them all); the JSON grammar; the time that passes (a deadline is an event, a sleep is the
  number of its attempt); threads, whose operations the code runs under one lock each;
  uploads while they stream; \<open>_native.py\<close>, \<open>__init__.py\<close> and \<open>adapters.py\<close>, which load,
  re-export or only record their arguments; the scripts that build, download or measure; and
  the C++ and Rust code.
\<close>

end
